(* ===== verification/Prelude.thy ===== *)
theory Prelude
  imports Complex_Main "HOL-Library.List_Lexorder" "HOL-Library.Char_ord" "HOL-Library.Sublist"
begin

text \<open>
  What every component shares: Go's error values, the shape of an operation that reads and
  updates a state and may return an error, the two-state discipline used to lift facts about
  single statements to whole operations, and general lemmas on lists.
\<close>

named_theorems act_simps \<open>unfolding rules for sequenced operations\<close>
named_theorems effects \<open>operations whose effect stays within a given preorder\<close>

section \<open>Error values\<close>

text \<open>
  \<open>errors.New\<close> makes a sentinel, known by its text; \<open>fmt.Errorf\<close> keeps its format and its
  arguments unexpanded, so nothing the code reports is lost: \<open>AD\<close> is a \<open>%d\<close>, \<open>AQ\<close> a \<open>%q\<close>,
  \<open>AS\<close> a \<open>%s\<close> argument, \<open>AW\<close> an error wrapped by \<open>%w\<close> and \<open>AV\<close> one that is only printed by \<open>%v\<close>.
  \<open>External\<close> is an error value handed up by the driver, the operating system or the network.
\<close>

datatype err =
    Sentinel string
  | Errorf string "farg list"
  | External string
and farg = AD int | AQ string | AS string | AW err | AV err

text \<open>\<open>errors.Is\<close>: the error itself, or one reached through \<open>%w\<close>.\<close>

fun errors_is :: "err \<Rightarrow> err \<Rightarrow> bool" and
    arg_is :: "farg \<Rightarrow> err \<Rightarrow> bool" and
    args_are :: "farg list \<Rightarrow> err \<Rightarrow> bool" where
  "errors_is (Sentinel s) t = (Sentinel s = t)"
| "errors_is (External s) t = (External s = t)"
| "errors_is (Errorf f as) t = (Errorf f as = t \<or> args_are as t)"
| "arg_is (AW e) t = errors_is e t"
| "arg_is (AD n) t = False"
| "arg_is (AQ q) t = False"
| "arg_is (AS s) t = False"
| "arg_is (AV e) t = False"
| "args_are [] t = False"
| "args_are (a # as) t = (arg_is a t \<or> args_are as t)"

lemma errors_is_refl [simp]: "errors_is e e"
  by (cases e) auto

section \<open>Operations\<close>

text \<open>
  A Go function \<open>func (x) (T, error)\<close> over some state is a function from the state to its result
  and the next state. An error return still returns the state reached so far.
\<close>

type_synonym 'a result = "err + 'a"
type_synonym ('w, 'a) act = "'w \<Rightarrow> 'a result \<times> 'w"

definition ok :: "'a \<Rightarrow> ('w, 'a) act" where
  "ok x w = (Inr x, w)"

definition fail :: "err \<Rightarrow> ('w, 'a) act" where
  "fail e w = (Inl e, w)"

text \<open>\<open>if err != nil { return err }\<close>: stop at the first error.\<close>

definition and_then :: "('w, 'a) act \<Rightarrow> ('a \<Rightarrow> ('w, 'b) act) \<Rightarrow> ('w, 'b) act" where
  "and_then f g w = (case f w of (Inl e, w1) \<Rightarrow> (Inl e, w1) | (Inr x, w1) \<Rightarrow> g x w1)"

text \<open>The caller looks at the error itself and goes on.\<close>

definition attempt :: "('w, 'a) act \<Rightarrow> ('a result \<Rightarrow> ('w, 'b) act) \<Rightarrow> ('w, 'b) act" where
  "attempt f k w = (case f w of (r, w1) \<Rightarrow> k r w1)"

text \<open>\<open>fmt.Errorf(format, ..., err)\<close> around the error of one call.\<close>

definition wrapping :: "string \<Rightarrow> farg list \<Rightarrow> ('w, 'a) act \<Rightarrow> ('w, 'a) act" where
  "wrapping fmt as f w = (case f w of (Inl e, w1) \<Rightarrow> (Inl (Errorf fmt (as @ [AW e])), w1) | (Inr x, w1) \<Rightarrow> (Inr x, w1))"

text \<open>A loop whose body may return an error, over a list of items.\<close>

fun for_each :: "('a \<Rightarrow> ('w, unit) act) \<Rightarrow> 'a list \<Rightarrow> ('w, unit) act" where
  "for_each f [] = ok ()"
| "for_each f (x # xs) = and_then (f x) (\<lambda>_. for_each f xs)"

lemmas [act_simps] = ok_def fail_def and_then_def attempt_def wrapping_def

lemma and_then_ok [simp]: "and_then (ok x) g = g x"
  by (rule ext) (simp add: act_simps)

lemma and_then_fail [simp]: "and_then (fail e) g = fail e"
  by (rule ext) (simp add: act_simps)

lemma and_then_Inr:
  "and_then f g w = (Inr y, w2) \<longleftrightarrow> (\<exists>x w1. f w = (Inr x, w1) \<and> g x w1 = (Inr y, w2))"
  by (auto simp: and_then_def split: prod.splits sum.splits)

lemma wrapping_Inr: "wrapping fmt as f w = (Inr y, w2) \<longleftrightarrow> f w = (Inr y, w2)"
  by (auto simp: wrapping_def split: prod.splits sum.splits)

section \<open>The two-state discipline\<close>

text \<open>
  \<open>keeps R f\<close>: whatever \<open>f\<close> returns, the state it leaves is related by \<open>R\<close> to the one it was
  given. With \<open>R\<close> an implication this says that \<open>f\<close> preserves an invariant; with \<open>R\<close> an
  extension order it says that \<open>f\<close> never takes anything away. The interface asks only for a
  preorder, which is what sequencing needs.
\<close>

definition keeps :: "('w \<Rightarrow> 'w \<Rightarrow> bool) \<Rightarrow> ('w, 'a) act \<Rightarrow> bool" where
  "keeps R f \<longleftrightarrow> (\<forall>w. R w (snd (f w)))"

lemma keepsD: "keeps R f \<Longrightarrow> f w = (r, w1) \<Longrightarrow> R w w1"
  by (metis keeps_def snd_conv)

locale state_preorder =
  fixes R :: "'w \<Rightarrow> 'w \<Rightarrow> bool"
  assumes R_refl: "R w w"
    and R_trans: "R a b \<Longrightarrow> R b c \<Longrightarrow> R a c"
begin

lemma keeps_ok: "keeps R (ok x)"
  by (simp add: keeps_def ok_def R_refl)

lemma keeps_fail: "keeps R (fail e)"
  by (simp add: keeps_def fail_def R_refl)

lemma keeps_and_then:
  assumes "keeps R f" and "\<And>x. keeps R (g x)"
  shows "keeps R (and_then f g)"
  unfolding keeps_def
proof
  fix w
  obtain r w1 where f: "f w = (r, w1)" by fastforce
  then have "R w w1" using assms(1) by (rule keepsD [rotated])
  moreover have "R w1 (snd (g x w1))" for x
    using assms(2) by (simp add: keeps_def)
  ultimately show "R w (snd (and_then f g w))"
    using f by (cases r) (auto simp: and_then_def intro: R_trans)
qed

lemma keeps_attempt:
  assumes "keeps R f" and "\<And>r. keeps R (k r)"
  shows "keeps R (attempt f k)"
  unfolding keeps_def
proof
  fix w
  obtain r w1 where f: "f w = (r, w1)" by fastforce
  then have "R w w1" using assms(1) by (rule keepsD [rotated])
  moreover have "R w1 (snd (k r w1))"
    using assms(2) by (simp add: keeps_def)
  ultimately show "R w (snd (attempt f k w))"
    using f by (auto simp: attempt_def intro: R_trans)
qed

lemma keeps_wrapping: "keeps R f \<Longrightarrow> keeps R (wrapping fmt as f)"
  by (auto simp: wrapping_def keeps_def [of R "wrapping fmt as f"] dest: keepsD split: prod.splits sum.splits)

lemma keeps_for_each: "(\<And>x. keeps R (f x)) \<Longrightarrow> keeps R (for_each f xs)"
  by (induction xs) (auto intro: keeps_ok keeps_and_then)

lemmas keeps_intros = keeps_ok keeps_fail keeps_and_then keeps_attempt
  keeps_wrapping keeps_for_each

end

section \<open>Lists\<close>

text \<open>Rows of a table that satisfy a condition are rewritten in place.\<close>

definition update_where :: "('a \<Rightarrow> bool) \<Rightarrow> ('a \<Rightarrow> 'a) \<Rightarrow> 'a list \<Rightarrow> 'a list" where
  "update_where p f xs = map (\<lambda>x. if p x then f x else x) xs"

lemma length_update_where [simp]: "length (update_where p f xs) = length xs"
  by (simp add: update_where_def)

lemma set_update_where: "set (update_where p f xs) = f ` {x \<in> set xs. p x} \<union> {x \<in> set xs. \<not> p x}"
  by (auto simp: update_where_def)

lemma map_update_where [simp]:
  "(\<And>x. g (f x) = g x) \<Longrightarrow> map g (update_where p f xs) = map g xs"
  by (simp add: update_where_def)

lemma update_where_none: "(\<And>x. x \<in> set xs \<Longrightarrow> \<not> p x) \<Longrightarrow> update_where p f xs = xs"
  by (induction xs) (auto simp: update_where_def)

lemma filter_key_unique:
  "distinct (map k xs) \<Longrightarrow> x \<in> set xs \<Longrightarrow> filter (\<lambda>y. k y = k x) xs = [x]"
proof (induction xs)
  case (Cons a xs)
  then show ?case
    by (auto simp: filter_empty_conv image_iff split: if_splits)
qed simp

lemma find_key_unique:
  "distinct (map k xs) \<Longrightarrow> x \<in> set xs \<Longrightarrow> find (\<lambda>y. k y = k x) xs = Some x"
  by (induction xs) auto

end
