(* ===== verification/GoStrings.thy ===== *)
theory GoStrings
  imports Prelude
begin

text \<open>
  The part of Go's \<open>strings\<close>, \<open>strconv\<close> and \<open>unicode/utf8\<close> packages the program calls. A Go
  string is a sequence of bytes, so a \<open>string\<close> here is a list of 8-bit characters; functions that
  work on runes decode UTF-8 the way \<open>utf8.DecodeRuneInString\<close> does, one byte at a time where
  the encoding is invalid. The Unicode case table is the one thing left open: \<open>to_lower\<close> takes
  what \<open>unicode.ToLower\<close> does to a rune outside ASCII as the argument \<open>ul\<close>.
\<close>

abbreviation code :: "char \<Rightarrow> nat" where
  "code c \<equiv> of_char c"

section \<open>Prefixes, suffixes and substrings\<close>

definition has_prefix :: "string \<Rightarrow> string \<Rightarrow> bool" where
  "has_prefix s p \<longleftrightarrow> take (length p) s = p"

definition has_suffix :: "string \<Rightarrow> string \<Rightarrow> bool" where
  "has_suffix s p \<longleftrightarrow> length p \<le> length s \<and> drop (length s - length p) s = p"

fun contains :: "string \<Rightarrow> string \<Rightarrow> bool" where
  "contains [] p = has_prefix [] p"
| "contains (c # s) p = (has_prefix (c # s) p \<or> contains s p)"

definition trim_prefix :: "string \<Rightarrow> string \<Rightarrow> string" where
  "trim_prefix s p = (if has_prefix s p then drop (length p) s else s)"

definition cut_suffix :: "string \<Rightarrow> string \<Rightarrow> string \<times> bool" where
  "cut_suffix s p = (if has_suffix s p then (take (length s - length p) s, True) else (s, False))"

fun join :: "string \<Rightarrow> string list \<Rightarrow> string" where
  "join sep [] = []"
| "join sep [x] = x"
| "join sep (x # y # ys) = x @ sep @ join sep (y # ys)"

text \<open>\<open>strings.Trim\<close> and \<open>strings.TrimRight\<close> with a one-character cutset.\<close>

definition trim_right_char :: "char \<Rightarrow> string \<Rightarrow> string" where
  "trim_right_char c s = rev (dropWhile (\<lambda>x. x = c) (rev s))"

definition trim_char :: "char \<Rightarrow> string \<Rightarrow> string" where
  "trim_char c s = trim_right_char c (dropWhile (\<lambda>x. x = c) s)"

definition replace_char :: "char \<Rightarrow> char \<Rightarrow> string \<Rightarrow> string" where
  "replace_char a b s = map (\<lambda>x. if x = a then b else x) s"

lemma has_prefix_append: "has_prefix s p \<longleftrightarrow> (\<exists>t. s = p @ t)"
  by (metis append_eq_conv_conj append_take_drop_id has_prefix_def)

lemma has_prefix_refl [simp]: "has_prefix s s"
  by (simp add: has_prefix_def)

lemma contains_iff: "contains s p \<longleftrightarrow> (\<exists>a b. s = a @ p @ b)"
proof (induction s)
  case Nil
  then show ?case by (auto simp: has_prefix_append)
next
  case (Cons c s)
  show ?case
  proof
    assume "contains (c # s) p"
    then consider "has_prefix (c # s) p" | "contains s p" by auto
    then show "\<exists>a b. c # s = a @ p @ b"
      using Cons.IH by cases (metis append_Nil has_prefix_append, metis append_Cons)
  next
    assume "\<exists>a b. c # s = a @ p @ b"
    then obtain a b where ab: "c # s = a @ p @ b" by blast
    show "contains (c # s) p"
    proof (cases a)
      case Nil
      with ab have "has_prefix (c # s) p" by (auto simp: has_prefix_append)
      then show ?thesis by simp
    next
      case (Cons d a')
      with ab Cons.IH have "contains s p" by auto
      then show ?thesis by simp
    qed
  qed
qed

section \<open>Runes\<close>

definition byte_in :: "nat \<Rightarrow> nat \<Rightarrow> char \<Rightarrow> bool" where
  "byte_in lo hi c \<longleftrightarrow> lo \<le> code c \<and> code c \<le> hi"

abbreviation cont_byte :: "char \<Rightarrow> bool" where
  "cont_byte \<equiv> byte_in 128 191"

text \<open>The size \<open>utf8.DecodeRuneInString\<close> reports: 1 for ASCII and for an invalid byte.\<close>

fun rune_width :: "string \<Rightarrow> nat" where
  "rune_width [] = 0"
| "rune_width (b # bs) =
     (let n = code b in
      if byte_in 194 223 b then
        (case bs of c1 # _ \<Rightarrow> if cont_byte c1 then 2 else 1 | _ \<Rightarrow> 1)
      else if byte_in 224 239 b then
        (case bs of c1 # c2 # _ \<Rightarrow>
           if byte_in (if n = 224 then 160 else 128) (if n = 237 then 159 else 191) c1 \<and> cont_byte c2
           then 3 else 1
         | _ \<Rightarrow> 1)
      else if byte_in 240 244 b then
        (case bs of c1 # c2 # c3 # _ \<Rightarrow>
           if byte_in (if n = 240 then 144 else 128) (if n = 244 then 143 else 191) c1 \<and> cont_byte c2
              \<and> cont_byte c3
           then 4 else 1
         | _ \<Rightarrow> 1)
      else 1)"

fun runes :: "string \<Rightarrow> string list" where
  "runes [] = []"
| "runes (b # bs) =
     (let k = rune_width (b # bs) - 1 in (b # take k bs) # runes (drop k bs))"

definition is_ascii :: "string \<Rightarrow> bool" where
  "is_ascii s \<longleftrightarrow> list_all (\<lambda>c. code c < 128) s"

lemma rune_width_ascii: "code b < 128 \<Longrightarrow> rune_width (b # bs) = 1"
  by (simp add: byte_in_def Let_def)

lemma runes_ascii_Cons [simp]: "code b < 128 \<Longrightarrow> runes (b # bs) = [b] # runes bs"
  by (simp add: rune_width_ascii Let_def del: rune_width.simps)

lemma runes_ascii_append: "is_ascii s \<Longrightarrow> runes (s @ t) = map (\<lambda>c. [c]) s @ runes t"
  by (induction s) (auto simp: is_ascii_def simp del: runes.simps(2))

lemma runes_ascii: "is_ascii s \<Longrightarrow> runes s = map (\<lambda>c. [c]) s"
  using runes_ascii_append [of s "[]"] by simp

lemma concat_runes: "concat (runes s) = s"
  by (induction s rule: runes.induct) (auto simp: Let_def simp del: rune_width.simps)

lemma runes_nonempty: "r \<in> set (runes s) \<Longrightarrow> r \<noteq> []"
  by (induction s rule: runes.induct) (auto simp: Let_def simp del: rune_width.simps)

section \<open>Case and white space\<close>

definition ascii_lower :: "char \<Rightarrow> char" where
  "ascii_lower c = (if byte_in 65 90 c then char_of (code c + 32) else c)"

definition lower_rune :: "(string \<Rightarrow> string) \<Rightarrow> string \<Rightarrow> string" where
  "lower_rune ul r = (case r of [c] \<Rightarrow> if code c < 128 then [ascii_lower c] else ul r | _ \<Rightarrow> ul r)"

definition to_lower :: "(string \<Rightarrow> string) \<Rightarrow> string \<Rightarrow> string" where
  "to_lower ul s = concat (map (lower_rune ul) (runes s))"

lemma concat_map_single: "concat (map (\<lambda>c. [f c]) s) = map f s"
  by (induction s) auto

lemma to_lower_ascii_append:
  "is_ascii s \<Longrightarrow> to_lower ul (s @ t) = map ascii_lower s @ to_lower ul t"
proof -
  assume a: "is_ascii s"
  have "map (lower_rune ul) (map (\<lambda>c. [c]) s) = map (\<lambda>c. [ascii_lower c]) s"
    using a by (auto simp: lower_rune_def is_ascii_def list_all_iff)
  then show ?thesis
    using a by (simp only: to_lower_def runes_ascii_append map_append concat_append concat_map_single)
qed

lemma to_lower_ascii: "is_ascii s \<Longrightarrow> to_lower ul s = map ascii_lower s"
  using to_lower_ascii_append [of s ul "[]"] by (simp add: to_lower_def)

text \<open>
  The runes \<open>unicode.IsSpace\<close> accepts, in UTF-8: the six ASCII ones, U+0085, U+00A0, U+1680,
  U+2000 to U+200A, U+2028, U+2029, U+202F, U+205F and U+3000.
\<close>

definition space_runes :: "string list" where
  "space_runes = map (map char_of) ([[9], [10], [11], [12], [13], [32], [194, 133], [194, 160],
     [225, 154, 128]] @ map (\<lambda>k. [226, 128, k]) [128, 129, 130, 131, 132, 133, 134, 135, 136, 137,
     138, 168, 169, 175] @ [[226, 129, 159], [227, 128, 128 :: nat]])"

function strip_front :: "string list \<Rightarrow> string \<Rightarrow> string" where
  "strip_front pats s =
     (case find (\<lambda>p. p \<noteq> [] \<and> has_prefix s p) pats of
        None \<Rightarrow> s
      | Some p \<Rightarrow> strip_front pats (drop (length p) s))"
  by pat_completeness auto
termination
  by (relation "measure (\<lambda>(pats, s). length s)")
     (auto simp: find_Some_iff has_prefix_append)

declare strip_front.simps [simp del]

definition trim_space :: "string \<Rightarrow> string" where
  "trim_space s =
     rev (strip_front (map rev space_runes) (rev (strip_front space_runes s)))"

text \<open>Trimming only ever drops bytes at the two ends.\<close>

lemma strip_front_suffix: "\<exists>a. s = a @ strip_front pats s"
proof (induction pats s rule: strip_front.induct)
  case (1 pats s)
  show ?case
  proof (cases "find (\<lambda>p. p \<noteq> [] \<and> has_prefix s p) pats")
    case None
    then show ?thesis by (subst strip_front.simps) simp
  next
    case (Some p)
    then obtain a where "drop (length p) s = a @ strip_front pats (drop (length p) s)"
      using "1.IH" by blast
    then have "s = (take (length p) s @ a) @ strip_front pats (drop (length p) s)"
      by (metis append_assoc append_take_drop_id)
    then have "s = (take (length p) s @ a) @ strip_front pats s"
      using Some by (simp add: strip_front.simps [of pats s])
    then show ?thesis by blast
  qed
qed

lemma trim_space_infix: "\<exists>a b. s = a @ trim_space s @ b"
proof -
  obtain a where a: "s = a @ strip_front space_runes s"
    using strip_front_suffix by blast
  let ?t = "strip_front space_runes s"
  obtain b where "rev ?t = b @ strip_front (map rev space_runes) (rev ?t)"
    using strip_front_suffix by blast
  then have "?t = trim_space s @ rev b"
    by (metis rev_append rev_rev_ident trim_space_def)
  with a show ?thesis by metis
qed

lemma length_trim_space: "length (trim_space s) \<le> length s"
  by (metis length_append le_add1 le_add2 le_trans trim_space_infix)

text \<open>A string that begins and ends with printing ASCII characters is left as it is.\<close>

definition printing :: "char \<Rightarrow> bool" where
  "printing c \<longleftrightarrow> byte_in 33 126 c"

lemma space_runes_ends: "\<forall>p \<in> set space_runes. p \<noteq> [] \<and> \<not> printing (hd p) \<and> \<not> printing (last p)"
  by (simp add: space_runes_def printing_def byte_in_def)

lemma strip_front_None:
  assumes "\<forall>p \<in> set pats. p \<noteq> [] \<longrightarrow> \<not> printing (hd p)" and "s = [] \<or> printing (hd s)"
  shows "strip_front pats s = s"
proof -
  have "\<not> (p \<noteq> [] \<and> has_prefix s p)" if "p \<in> set pats" for p
    using assms that by (cases p) (auto simp: has_prefix_append)
  then have "find (\<lambda>p. p \<noteq> [] \<and> has_prefix s p) pats = None"
    by (auto simp: find_None_iff)
  then show ?thesis by (subst strip_front.simps) simp
qed

lemma trim_space_printing:
  assumes "s = [] \<or> printing (hd s) \<and> printing (last s)"
  shows "trim_space s = s"
proof -
  have "strip_front space_runes s = s"
    by (rule strip_front_None) (use assms space_runes_ends in auto)
  moreover have "strip_front (map rev space_runes) (rev s) = rev s"
    by (rule strip_front_None) (use assms space_runes_ends in \<open>auto simp: hd_rev\<close>)
  ultimately show ?thesis by (simp add: trim_space_def)
qed

section \<open>Numbers in text\<close>

fun digits_of :: "nat \<Rightarrow> string" where
  "digits_of n = (if n < 10 then [char_of (48 + n)] else digits_of (n div 10) @ [char_of (48 + n mod 10)])"

declare digits_of.simps [simp del]

text \<open>\<open>strconv.FormatInt(n, 10)\<close>.\<close>

definition itoa :: "int \<Rightarrow> string" where
  "itoa n = (if n < 0 then CHR ''-'' # digits_of (nat (- n)) else digits_of (nat n))"

end
