(* ===== verification/Float64.thy ===== *)
theory Float64
  imports Prelude
begin

text \<open>
  Go's \<open>float64\<close>: IEEE binary64 with round-to-nearest-even, as the program uses it (addition,
  negation, multiplication, division, \<open>math.Floor\<close> and the comparisons). A finite nonzero value
  is the rational it denotes; the two zeros, the infinities and NaN are separate, because the
  comparisons in the validation code treat NaN differently from every number.
\<close>

datatype float64 = Fin rat | NegZero | PosInf | NegInf | NaN

section \<open>Rounding\<close>

fun bit_length :: "nat \<Rightarrow> nat" where
  "bit_length n = (if n = 0 then 0 else Suc (bit_length (n div 2)))"

declare bit_length.simps [simp del]

definition two_pow :: "int \<Rightarrow> rat" where
  "two_pow e = (if 0 \<le> e then 2 ^ nat e else 1 / 2 ^ nat (- e))"

text \<open>The exponent of the binade that holds a positive rational.\<close>

definition exponent_of :: "rat \<Rightarrow> int" where
  "exponent_of x =
     (let (n, d) = quotient_of x; e = int (bit_length (nat n)) - int (bit_length (nat d))
      in if two_pow e \<le> x then e else e - 1)"

definition round_even :: "rat \<Rightarrow> int" where
  "round_even x =
     (let f = \<lfloor>x\<rfloor>; r = x - of_int f
      in if r < 1 / 2 then f else if 1 / 2 < r then f + 1 else if even f then f else f + 1)"

definition round_pos :: "rat \<Rightarrow> float64" where
  "round_pos x =
     (let u = two_pow (max (exponent_of x) (-1022) - 52); v = of_int (round_even (x / u)) * u
      in if 2 ^ 1024 \<le> v then PosInf else Fin v)"

fun fneg :: "float64 \<Rightarrow> float64" where
  "fneg (Fin q) = (if q = 0 then NegZero else Fin (- q))"
| "fneg NegZero = Fin 0"
| "fneg PosInf = NegInf"
| "fneg NegInf = PosInf"
| "fneg NaN = NaN"

definition round64 :: "rat \<Rightarrow> float64" where
  "round64 x = (if x = 0 then Fin 0 else if 0 < x then round_pos x else fneg (round_pos (- x)))"

section \<open>Comparisons\<close>

fun finite_val :: "float64 \<Rightarrow> rat option" where
  "finite_val (Fin q) = Some q"
| "finite_val NegZero = Some 0"
| "finite_val _ = None"

text \<open>Where a value sits on the extended line; NaN sits nowhere and compares false.\<close>

fun position :: "float64 \<Rightarrow> (int \<times> rat) option" where
  "position (Fin q) = Some (0, q)"
| "position NegZero = Some (0, 0)"
| "position PosInf = Some (1, 0)"
| "position NegInf = Some (-1, 0)"
| "position NaN = None"

definition fless :: "float64 \<Rightarrow> float64 \<Rightarrow> bool" where
  "fless x y =
     (case (position x, position y) of
        (Some (a, p), Some (b, q)) \<Rightarrow> a < b \<or> (a = b \<and> p < q)
      | _ \<Rightarrow> False)"

definition fleq :: "float64 \<Rightarrow> float64 \<Rightarrow> bool" where
  "fleq x y =
     (case (position x, position y) of
        (Some (a, p), Some (b, q)) \<Rightarrow> a < b \<or> (a = b \<and> p \<le> q)
      | _ \<Rightarrow> False)"

abbreviation fzero :: float64 where "fzero \<equiv> Fin 0"

section \<open>Arithmetic\<close>

fun is_neg :: "float64 \<Rightarrow> bool" where
  "is_neg (Fin q) = (q < 0)"
| "is_neg NegZero = True"
| "is_neg NegInf = True"
| "is_neg _ = False"

definition signed :: "bool \<Rightarrow> float64 \<Rightarrow> float64" where
  "signed s x = (if s then fneg x else x)"

fun fadd :: "float64 \<Rightarrow> float64 \<Rightarrow> float64" where
  "fadd NaN y = NaN"
| "fadd x NaN = NaN"
| "fadd PosInf NegInf = NaN"
| "fadd NegInf PosInf = NaN"
| "fadd PosInf y = PosInf"
| "fadd NegInf y = NegInf"
| "fadd x PosInf = PosInf"
| "fadd x NegInf = NegInf"
| "fadd NegZero NegZero = NegZero"
| "fadd NegZero (Fin q) = round64 q"
| "fadd (Fin p) NegZero = round64 p"
| "fadd (Fin p) (Fin q) = round64 (p + q)"

definition fmul :: "float64 \<Rightarrow> float64 \<Rightarrow> float64" where
  "fmul x y =
     (let s = (is_neg x \<noteq> is_neg y) in
      case (finite_val x, finite_val y) of
        (Some p, Some q) \<Rightarrow> if p * q = 0 then signed s fzero else round64 (p * q)
      | (Some p, None) \<Rightarrow> if y = NaN \<or> p = 0 then NaN else signed s PosInf
      | (None, Some q) \<Rightarrow> if x = NaN \<or> q = 0 then NaN else signed s PosInf
      | (None, None) \<Rightarrow> if x = NaN \<or> y = NaN then NaN else signed s PosInf)"

definition fdiv :: "float64 \<Rightarrow> float64 \<Rightarrow> float64" where
  "fdiv x y =
     (let s = (is_neg x \<noteq> is_neg y) in
      case (finite_val x, finite_val y) of
        (Some p, Some q) \<Rightarrow>
          if q = 0 then (if p = 0 then NaN else signed s PosInf)
          else if p = 0 then signed s fzero else round64 (p / q)
      | (Some p, None) \<Rightarrow> if y = NaN then NaN else signed s fzero
      | (None, Some q) \<Rightarrow> if x = NaN then NaN else signed s PosInf
      | (None, None) \<Rightarrow> NaN)"

text \<open>\<open>math.Floor\<close>.\<close>

fun ffloor :: "float64 \<Rightarrow> float64" where
  "ffloor (Fin q) = Fin (of_int \<lfloor>q\<rfloor>)"
| "ffloor x = x"

section \<open>Signs\<close>

abbreviation fpos :: "float64 \<Rightarrow> bool" where
  "fpos x \<equiv> fless fzero x"

lemma fpos_simps [simp]:
  "fpos (Fin q) \<longleftrightarrow> 0 < q" "\<not> fpos NegZero" "fpos PosInf" "\<not> fpos NegInf" "\<not> fpos NaN"
  by (simp_all add: fless_def)

lemma two_pow_pos [simp]: "0 < two_pow e"
  by (simp add: two_pow_def)

lemma round_even_nonneg: "0 \<le> x \<Longrightarrow> 0 \<le> round_even x"
  by (auto simp: round_even_def Let_def)

lemma round_pos_not_neg: "0 < x \<Longrightarrow> round_pos x = PosInf \<or> (\<exists>q \<ge> 0. round_pos x = Fin q)"
  by (auto simp: round_pos_def Let_def intro!: mult_nonneg_nonneg round_even_nonneg
      divide_nonneg_pos less_imp_le [OF two_pow_pos])

lemma fpos_round64: "fpos (round64 x) \<Longrightarrow> 0 < x"
proof (rule ccontr)
  assume pos: "fpos (round64 x)" and "\<not> 0 < x"
  then consider "x = 0" | "x < 0" by linarith
  then show False
  proof cases
    case 1
    with pos show False by (simp add: round64_def)
  next
    case 2
    with pos round_pos_not_neg [of "- x"] show False
      by (auto simp: round64_def split: if_splits)
  qed
qed

text \<open>A sum is positive only when one of its terms is.\<close>

lemma fpos_fadd: "fpos (fadd x y) \<Longrightarrow> fpos x \<or> fpos y"
  by (cases "(x, y)" rule: fadd.cases) (auto dest: fpos_round64)

lemma fpos_fneg: "fpos (fneg x) \<longleftrightarrow> fless x fzero"
  by (cases x) (auto simp: fless_def)

end
