(* ===== verification/Domain.thy ===== *)
theory Domain
  imports GoStrings Float64
begin

text \<open>
  \<open>internal/domain\<close>: the core types and their validation. A field keeps its Go name behind a short
  prefix for its struct. \<open>time.Time\<close> is the instant in nanoseconds since the zero time, so
  \<open>IsZero\<close> is \<open>t = 0\<close> and \<open>Before\<close>, \<open>After\<close> and \<open>Equal\<close> compare integers; a pointer field is an
  \<open>option\<close>; \<open>json.RawMessage\<close> is empty, a JSON value, or bytes that are not JSON. A method that
  returns \<open>error\<close> returns \<open>None\<close> for \<open>nil\<close>.
\<close>

type_synonym time = int

definition is_zero_time :: "time \<Rightarrow> bool" where
  "is_zero_time t \<longleftrightarrow> t = 0"

text \<open>JSON values; a number literal is kept as an integer literal or as any other one.\<close>

datatype json =
    JNull | JBool bool | JInt int | JFloat rat | JString string
  | JArray "json list" | JObject "(string \<times> json) list"

datatype raw_message = NoBytes | Raw json | NotJson string

text \<open>\<open>json.Marshal\<close> of a string: a byte that is not part of a rune becomes U+FFFD.\<close>

definition json_string :: "string \<Rightarrow> json" where
  "json_string s =
     JString (concat (map (\<lambda>r. case r of
        [c] \<Rightarrow> if code c < 128 then [c] else map char_of [239, 191, 189 :: nat]
      | _ \<Rightarrow> r) (runes s)))"

section \<open>document.go, job.go\<close>

definition ErrNotFound :: err where "ErrNotFound = Sentinel ''record not found''"
definition ErrConflict :: err where "ErrConflict = Sentinel ''record already exists''"

record document =
  doc_ID :: string
  doc_Filename :: string
  doc_StorageKey :: string
  doc_SHA256 :: string
  doc_Status :: string
  doc_UploadedAt :: time
  doc_SourcePublishedAt :: "time option"

record create_document_input =
  cdi_Filename :: string
  cdi_StorageKey :: string
  cdi_SHA256 :: string
  cdi_SizeBytes :: int
  cdi_MIMEType :: string
  cdi_SourcePublishedAt :: "time option"

record job =
  job_ID :: string
  job_Type :: string
  job_Payload :: raw_message
  job_Attempts :: int
  job_MaxAttempts :: int

section \<open>marketdata.go\<close>

record market_data_request =
  mdr_Symbols :: "string list"
  mdr_StartDate :: string
  mdr_EndDate :: string
  mdr_Interval :: string

record bar =
  bar_Symbol :: string
  bar_Date :: string
  bar_Open :: float64
  bar_High :: float64
  bar_Low :: float64
  bar_Close :: float64
  bar_AdjClose :: float64
  bar_Volume :: int

record market_data_result =
  mres_Provider :: string
  mres_Bars :: "bar list"
  mres_RetrievedAt :: time

record market_data_snapshot =
  snap_ID :: string
  snap_Provider :: string
  snap_Symbols :: "string list"
  snap_Interval :: string
  snap_StartDate :: string
  snap_EndDate :: string
  snap_StorageKey :: "string option"
  snap_Checksum :: "string option"
  snap_RetrievedAt :: time

record create_snapshot_input =
  csi_Provider :: string
  csi_Symbols :: "string list"
  csi_Interval :: string
  csi_StartDate :: string
  csi_EndDate :: string
  csi_StorageKey :: string
  csi_Checksum :: string
  csi_RetrievedAt :: time

section \<open>research.go\<close>

record page =
  page_Number :: int
  page_Content :: string

record claim =
  cl_PageNumber :: int
  cl_Ticker :: "string option"
  cl_Kind :: string
  cl_Direction :: string
  cl_Text :: string
  cl_EvidenceQuote :: string
  cl_HorizonDays :: "int option"
  cl_Confidence :: float64
  cl_EffectiveAt :: time

record extraction =
  ex_Pages :: "page list"
  ex_Claims :: "claim list"

record stored_claim =
  sc_ID :: string
  sc_DocumentID :: string
  sc_PageNumber :: int
  sc_Ticker :: "string option"
  sc_Kind :: string
  sc_Direction :: string
  sc_Text :: string
  sc_EvidenceQuote :: string
  sc_HorizonDays :: "int option"
  sc_Confidence :: float64
  sc_EffectiveAt :: time
  sc_ValidationStatus :: string
  sc_CreatedAt :: time

definition valid_claim_review_status :: "string \<Rightarrow> bool" where
  "valid_claim_review_status status \<longleftrightarrow> status = ''accepted'' \<or> status = ''rejected''"

definition valid_claim_kind :: "string \<Rightarrow> bool" where
  "valid_claim_kind kind \<longleftrightarrow>
     kind \<in> set [''fundamental'', ''macro'', ''risk'', ''catalyst'', ''valuation'']"

definition valid_direction :: "string \<Rightarrow> bool" where
  "valid_direction direction \<longleftrightarrow> direction \<in> set [''positive'', ''negative'', ''neutral'']"

text \<open>The first loop of \<open>Extraction.Validate\<close> collects the page numbers seen so far.\<close>

fun check_pages :: "int set \<Rightarrow> page list \<Rightarrow> err + int set" where
  "check_pages seen [] = Inr seen"
| "check_pages seen (p # ps) =
     (if page_Number p < 1 then Inl (Errorf ''invalid page number %d'' [AD (page_Number p)])
      else if page_Number p \<in> seen then Inl (Errorf ''duplicate page number %d'' [AD (page_Number p)])
      else check_pages (insert (page_Number p) seen) ps)"

definition check_claim :: "int set \<Rightarrow> int \<Rightarrow> claim \<Rightarrow> err option" where
  "check_claim pages index c =
     (if cl_PageNumber c \<notin> pages then
        Some (Errorf ''claim %d references missing page %d'' [AD index, AD (cl_PageNumber c)])
      else if trim_space (cl_Text c) = [] \<or> trim_space (cl_EvidenceQuote c) = [] then
        Some (Errorf ''claim %d is missing text or evidence'' [AD index])
      else if \<not> valid_claim_kind (cl_Kind c) then
        Some (Errorf ''claim %d has invalid kind %q'' [AD index, AQ (cl_Kind c)])
      else if \<not> valid_direction (cl_Direction c) then
        Some (Errorf ''claim %d has invalid direction %q'' [AD index, AQ (cl_Direction c)])
      else if fless (cl_Confidence c) fzero \<or> fless (Fin 1) (cl_Confidence c) then
        Some (Errorf ''claim %d has invalid confidence'' [AD index])
      else if (case cl_HorizonDays c of None \<Rightarrow> False | Some h \<Rightarrow> h < 1) then
        Some (Errorf ''claim %d has invalid horizon'' [AD index])
      else if is_zero_time (cl_EffectiveAt c) then
        Some (Errorf ''claim %d is missing effective time'' [AD index])
      else None)"

fun check_claims :: "int set \<Rightarrow> int \<Rightarrow> claim list \<Rightarrow> err option" where
  "check_claims pages index [] = None"
| "check_claims pages index (c # cs) =
     (case check_claim pages index c of Some e \<Rightarrow> Some e | None \<Rightarrow> check_claims pages (index + 1) cs)"

definition extraction_validate :: "extraction \<Rightarrow> err option" where
  "extraction_validate e =
     (if ex_Pages e = [] then Some (Errorf ''extraction contains no pages'' [])
      else case check_pages {} (ex_Pages e) of
             Inl err \<Rightarrow> Some err
           | Inr pages \<Rightarrow> check_claims pages 0 (ex_Claims e))"

section \<open>strategy.go\<close>

definition ErrClaimNotCitable :: err where
  "ErrClaimNotCitable = Sentinel ''cited claim is missing or not accepted''"

record strategy =
  st_ID :: string
  st_Slug :: string
  st_Version :: int
  st_Name :: string
  st_Spec :: raw_message
  st_CreatedAt :: time

record create_strategy_input =
  cst_Slug :: string
  cst_Name :: string
  cst_Spec :: raw_message
  cst_ClaimIDs :: "string list"

section \<open>candidate.go\<close>

record candidate_evidence =
  ev_ClaimID :: string
  ev_Contribution :: float64

record candidate_position =
  cp_Symbol :: string
  cp_Rank :: int
  cp_Weight :: float64
  cp_Score :: float64
  cp_Momentum :: float64
  cp_MomentumRank :: float64
  cp_ClaimSupport :: float64
  cp_Evidence :: "candidate_evidence list"

record candidate_set =
  cs_AsOf :: time
  cs_Positions :: "candidate_position list"

definition candidate_symbols :: "candidate_set \<Rightarrow> string list" where
  "candidate_symbols s = map cp_Symbol (cs_Positions s)"

fun check_positions :: "int \<Rightarrow> candidate_position list \<Rightarrow> err option" where
  "check_positions index [] = None"
| "check_positions index (p # ps) =
     (if cp_Symbol p = [] then Some (Errorf ''candidate %d is missing a symbol'' [AD index])
      else if cp_Rank p \<noteq> index + 1 then
        Some (Errorf ''candidate %d has rank %d; ranks must be dense and ordered'' [AD index, AD (cp_Rank p)])
      else if fleq (cp_Weight p) fzero then
        Some (Errorf ''candidate %s has non-positive weight'' [AS (cp_Symbol p)])
      else check_positions (index + 1) ps)"

definition candidate_set_validate :: "candidate_set \<Rightarrow> err option" where
  "candidate_set_validate s =
     (if cs_Positions s = [] then None
      else if is_zero_time (cs_AsOf s) then
        Some (Errorf ''candidate set has positions but no as_of date'' [])
      else check_positions 0 (cs_Positions s))"

record candidate_claim =
  cc_Claim :: stored_claim
  cc_Contribution :: float64

record candidate =
  cand_ID :: string
  cand_BacktestRunID :: string
  cand_StrategyID :: string
  cand_StrategySlug :: string
  cand_StrategyVersion :: int
  cand_EngineVersion :: "string option"
  cand_ResultChecksum :: "string option"
  cand_AsOf :: time
  cand_Symbol :: string
  cand_Rank :: int
  cand_Weight :: float64
  cand_Score :: float64
  cand_Momentum :: float64
  cand_MomentumRank :: "float64 option"
  cand_ClaimSupport :: float64
  cand_Evidence :: "candidate_claim list"

record candidate_filter =
  cf_StrategyID :: string
  cf_BacktestID :: string
  cf_Limit :: int

definition DefaultCandidateLimit :: int where "DefaultCandidateLimit = 100"
definition MaxCandidateLimit :: int where "MaxCandidateLimit = 500"

definition normalized :: "candidate_filter \<Rightarrow> candidate_filter" where
  "normalized filter0 =
     (let f1 = (if cf_Limit filter0 \<le> 0 then filter0\<lparr>cf_Limit := DefaultCandidateLimit\<rparr> else filter0)
      in if MaxCandidateLimit < cf_Limit f1 then f1\<lparr>cf_Limit := MaxCandidateLimit\<rparr> else f1)"

section \<open>backtest.go\<close>

record backtest_run =
  run_ID :: string
  run_StrategyID :: string
  run_MarketDataSnapshotID :: string
  run_DocumentCutoffAt :: time
  run_Status :: string
  run_Parameters :: raw_message
  run_Summary :: raw_message
  run_EngineVersion :: "string option"
  run_ResultArtifactKey :: "string option"
  run_ResultChecksum :: "string option"
  run_CreatedAt :: time
  run_CompletedAt :: "time option"

record create_backtest_input =
  cbi_StrategyID :: string
  cbi_SnapshotID :: string
  cbi_DocumentCutoffAt :: time
  cbi_Parameters :: raw_message

definition json_valid :: "raw_message \<Rightarrow> bool" where
  "json_valid r = (case r of Raw j \<Rightarrow> True | _ \<Rightarrow> False)"

definition create_backtest_input_validate :: "create_backtest_input \<Rightarrow> err option" where
  "create_backtest_input_validate input =
     (if cbi_StrategyID input = [] then Some (Errorf ''strategy_id is required'' [])
      else if cbi_SnapshotID input = [] then Some (Errorf ''market_data_snapshot_id is required'' [])
      else if is_zero_time (cbi_DocumentCutoffAt input) then
        Some (Errorf ''document_cutoff_at is required'' [])
      else if cbi_Parameters input \<noteq> NoBytes \<and> \<not> json_valid (cbi_Parameters input) then
        Some (Errorf ''parameters must be valid JSON'' [])
      else None)"

record claim_signal =
  sig_ClaimID :: string
  sig_Symbol :: string
  sig_Direction :: string
  sig_Confidence :: float64
  sig_EffectiveAt :: time
  sig_HorizonDays :: "int option"

record backtest_request =
  br_BacktestID :: string
  br_Spec :: raw_message
  br_SnapshotStorageKey :: string
  br_SnapshotChecksum :: string
  br_DocumentCutoffAt :: time
  br_Parameters :: raw_message
  br_Signals :: "claim_signal list"

record backtest_result =
  res_Summary :: raw_message
  res_EquityCurveCSV :: string
  res_ResultChecksum :: string
  res_EngineVersion :: string
  res_Candidates :: candidate_set

section \<open>What validation accepts\<close>

lemma check_pages_Inr:
  "check_pages seen ps = Inr r \<longleftrightarrow>
     (\<forall>p \<in> set ps. 1 \<le> page_Number p \<and> page_Number p \<notin> seen) \<and> distinct (map page_Number ps)
     \<and> r = seen \<union> page_Number ` set ps"
proof (induction ps arbitrary: seen)
  case (Cons p ps)
  have "(\<forall>x\<in>set ps. page_Number x \<notin> insert (page_Number p) seen) \<longleftrightarrow>
    (\<forall>x\<in>set ps. page_Number x \<notin> seen) \<and> page_Number p \<notin> page_Number ` set ps"
    by (fastforce simp: image_iff)
  with Cons.IH [of "insert (page_Number p) seen"] show ?case by auto
qed auto

text \<open>A claim of an extraction that \<open>Validate\<close> lets through, given the pages that exist.\<close>

definition claim_ok :: "int set \<Rightarrow> claim \<Rightarrow> bool" where
  "claim_ok pages c \<longleftrightarrow>
     cl_PageNumber c \<in> pages \<and> trim_space (cl_Text c) \<noteq> [] \<and> trim_space (cl_EvidenceQuote c) \<noteq> []
     \<and> valid_claim_kind (cl_Kind c) \<and> valid_direction (cl_Direction c)
     \<and> \<not> fless (cl_Confidence c) fzero \<and> \<not> fless (Fin 1) (cl_Confidence c)
     \<and> (\<forall>h. cl_HorizonDays c = Some h \<longrightarrow> 1 \<le> h) \<and> cl_EffectiveAt c \<noteq> 0"

lemma check_claim_None: "check_claim pages i c = None \<longleftrightarrow> claim_ok pages c"
  by (auto simp: check_claim_def claim_ok_def is_zero_time_def split: option.splits)

lemma check_claims_None: "check_claims pages i cs = None \<longleftrightarrow> (\<forall>c \<in> set cs. claim_ok pages c)"
proof (induction cs arbitrary: i)
  case (Cons c cs)
  then show ?case
    using check_claim_None [of pages i c] by (cases "check_claim pages i c") auto
qed simp

text \<open>
  \<open>Extraction.Validate\<close> accepts exactly the extractions with at least one page, page numbers
  that are positive and pairwise different, and claims that each cite one of those pages, carry
  text and evidence that are more than white space, a known kind and direction, a confidence that
  is neither below 0 nor above 1, a positive horizon if any, and an effective time.
\<close>

lemma extraction_validate_iff:
  "extraction_validate e = None \<longleftrightarrow>
     ex_Pages e \<noteq> [] \<and> (\<forall>p \<in> set (ex_Pages e). 1 \<le> page_Number p)
     \<and> distinct (map page_Number (ex_Pages e))
     \<and> (\<forall>c \<in> set (ex_Claims e). claim_ok (page_Number ` set (ex_Pages e)) c)"
proof (cases "check_pages {} (ex_Pages e)")
  case (Inl err)
  then have "\<nexists>r. check_pages {} (ex_Pages e) = Inr r" by simp
  then have "\<not> ((\<forall>p \<in> set (ex_Pages e). 1 \<le> page_Number p) \<and> distinct (map page_Number (ex_Pages e)))"
    by (simp add: check_pages_Inr)
  with Inl show ?thesis by (auto simp: extraction_validate_def)
next
  case (Inr pages)
  then show ?thesis
    using check_pages_Inr [of "{}" "ex_Pages e" pages]
    by (auto simp: extraction_validate_def check_claims_None)
qed

lemma check_positions_None:
  "check_positions i ps = None \<longleftrightarrow>
     map cp_Rank ps = [i + 1..i + int (length ps)]
     \<and> (\<forall>p \<in> set ps. cp_Symbol p \<noteq> [] \<and> \<not> fleq (cp_Weight p) fzero)"
proof (induction ps arbitrary: i)
  case (Cons p ps)
  have "[i + 1..i + int (length (p # ps))] = (i + 1) # [i + 1 + 1..i + 1 + int (length ps)]"
    by (simp add: upto_rec1 algebra_simps)
  with Cons.IH [of "i + 1"] show ?case by auto
qed simp

text \<open>
  A candidate set passes \<open>CandidateSet.Validate\<close> exactly when it is empty, or has an as-of date
  and its positions carry the ranks 1, 2, 3, ... in order, a symbol each, and no weight that is
  zero or negative.
\<close>

lemma candidate_set_validate_iff:
  "candidate_set_validate s = None \<longleftrightarrow>
     cs_Positions s = [] \<or>
     (cs_AsOf s \<noteq> 0 \<and> map cp_Rank (cs_Positions s) = [1..int (length (cs_Positions s))]
      \<and> (\<forall>p \<in> set (cs_Positions s). cp_Symbol p \<noteq> [] \<and> \<not> fleq (cp_Weight p) fzero))"
  by (simp add: candidate_set_validate_def check_positions_None is_zero_time_def)

lemma candidate_set_validate_ranks:
  "candidate_set_validate s = None \<Longrightarrow> map cp_Rank (cs_Positions s) = [1..int (length (cs_Positions s))]"
  by (auto simp: candidate_set_validate_def check_positions_None split: if_splits)

text \<open>
  \<open>CandidateFilter.Normalized\<close> always leaves a limit between 1 and the maximum, keeps a limit
  that already was, replaces a missing one by the default, and touches nothing else.
\<close>

lemma normalized_limit:
  "cf_Limit (normalized f) =
     (if cf_Limit f \<le> 0 then DefaultCandidateLimit else min (cf_Limit f) MaxCandidateLimit)
   \<and> 1 \<le> cf_Limit (normalized f) \<and> cf_Limit (normalized f) \<le> MaxCandidateLimit
   \<and> cf_StrategyID (normalized f) = cf_StrategyID f \<and> cf_BacktestID (normalized f) = cf_BacktestID f"
  by (auto simp: normalized_def Let_def DefaultCandidateLimit_def MaxCandidateLimit_def)

lemma normalized_bound: "cf_Limit (normalized f) \<le> MaxCandidateLimit"
  by (simp add: normalized_def Let_def DefaultCandidateLimit_def MaxCandidateLimit_def)

lemma valid_extraction_pages:
  "extraction_validate e = None \<Longrightarrow> distinct (map page_Number (ex_Pages e))
     \<and> (\<forall>c \<in> set (ex_Claims e). cl_PageNumber c \<in> page_Number ` set (ex_Pages e))"
proof -
  assume ok: "extraction_validate e = None"
  then obtain pages where pages: "check_pages {} (ex_Pages e) = Inr pages"
    and claims: "check_claims pages 0 (ex_Claims e) = None"
    by (auto simp: extraction_validate_def split: if_splits sum.splits)
  have "distinct (map page_Number (ex_Pages e)) \<and> pages = page_Number ` set (ex_Pages e)"
    using pages by (simp add: check_pages_Inr)
  then show ?thesis using claims by (simp add: check_claims_None claim_ok_def)
qed

section \<open>A concrete text\<close>

lemma trim_space_note: "trim_space ''Up.'' = ''Up.''"
  by (rule trim_space_printing) (simp add: printing_def byte_in_def)

end
