(* ===== verification/StrategySpec.thy ===== *)
theory StrategySpec
  imports Domain
begin

text \<open>
  \<open>internal/strategies/spec.go\<close>: the strategy specification, its validation, and the two questions
  about symbols the pipeline asks. The two regular expressions are matched bytewise: their
  character classes are ASCII, so a byte outside ASCII never matches.
\<close>

text \<open>A filter's value is Go's \<open>any\<close>: what a literal of the program or a JSON decode can put there.\<close>

datatype filter_value = VFloat float64 | VInt int | VString string | VBool bool | VNil | VOther json

record spec_filter =
  flt_Field :: string
  flt_Operator :: string
  flt_Value :: filter_value

record universe =
  uni_Name :: string
  uni_AssetClass :: string
  uni_Symbols :: "string list"

text \<open>The filters are a slice that JSON can leave nil, which encodes back as \<open>null\<close>.\<close>

record selection =
  sel_Template :: string
  sel_Filters :: "spec_filter list option"

record rebalance =
  reb_Schedule :: string

record risk =
  risk_MaxPositionWeight :: float64
  risk_TransactionCostBps :: float64
  risk_StopLossPct :: "float64 option"

record spec =
  spec_Slug :: string
  spec_Version :: int
  spec_Name :: string
  spec_Universe :: universe
  spec_Selection :: selection
  spec_Rebalance :: rebalance
  spec_Risk :: risk

section \<open>Patterns\<close>

definition slug_char :: "char \<Rightarrow> bool" where
  "slug_char c \<longleftrightarrow> byte_in 97 122 c \<or> byte_in 48 57 c \<or> c = CHR ''-''"

definition slug_pattern :: "string \<Rightarrow> bool" where
  "slug_pattern s =
     (case s of [] \<Rightarrow> False
      | c # r \<Rightarrow> byte_in 97 122 c \<and> 2 \<le> length r \<and> length r \<le> 63 \<and> list_all slug_char r)"

definition symbol_pattern :: "string \<Rightarrow> bool" where
  "symbol_pattern s \<longleftrightarrow>
     1 \<le> length s \<and> length s \<le> 10 \<and> list_all (\<lambda>c. byte_in 65 90 c \<or> c = CHR ''.'') s"

definition valid_template :: "string \<Rightarrow> bool" where
  "valid_template template \<longleftrightarrow>
     template \<in> set [''research-supported-momentum'', ''quality-trend'', ''macro-theme-etf'']"

definition filter_fields :: "string list" where
  "filter_fields =
     [''lookback_months'', ''top_n'', ''momentum'', ''claim_confidence'', ''claim_signal_weight'',
      ''claim_horizon_days'', ''require_claim_support'', ''execution_lag_days'', ''cash_policy'',
      ''risk_free_rate'', ''benchmark_symbol'']"

definition filter_operators :: "string list" where
  "filter_operators = [''gt'', ''gte'', ''lt'', ''lte'', ''eq'']"

section \<open>Validate\<close>

fun scalar_value :: "filter_value \<Rightarrow> bool" where
  "scalar_value (VFloat _) = True"
| "scalar_value (VInt _) = True"
| "scalar_value (VString _) = True"
| "scalar_value (VBool _) = True"
| "scalar_value _ = False"

fun check_symbols :: "string list \<Rightarrow> err option" where
  "check_symbols [] = None"
| "check_symbols (s # ss) =
     (if \<not> symbol_pattern s then Some (Errorf ''invalid universe symbol %q'' [AQ s]) else check_symbols ss)"

fun check_filters :: "int \<Rightarrow> spec_filter list \<Rightarrow> err option" where
  "check_filters index [] = None"
| "check_filters index (f # fs) =
     (if flt_Field f \<notin> set filter_fields then
        Some (Errorf ''filter %d has unknown field %q'' [AD index, AQ (flt_Field f)])
      else if flt_Operator f \<notin> set filter_operators then
        Some (Errorf ''filter %d has invalid operator %q'' [AD index, AQ (flt_Operator f)])
      else if \<not> scalar_value (flt_Value f) then
        Some (Errorf ''filter %d value must be a number, string, or boolean'' [AD index])
      else check_filters (index + 1) fs)"

definition spec_filters :: "spec \<Rightarrow> spec_filter list" where
  "spec_filters s = (case sel_Filters (spec_Selection s) of None \<Rightarrow> [] | Some fs \<Rightarrow> fs)"

definition check_risk :: "risk \<Rightarrow> err option" where
  "check_risk r =
     (if fleq (risk_MaxPositionWeight r) fzero \<or> fless (Fin 1) (risk_MaxPositionWeight r) then
        Some (Errorf ''max_position_weight must be in (0, 1]'' [])
      else if fless (risk_TransactionCostBps r) fzero \<or> fless (Fin 1000) (risk_TransactionCostBps r) then
        Some (Errorf ''transaction_cost_bps must be in [0, 1000]'' [])
      else if (case risk_StopLossPct r of None \<Rightarrow> False
               | Some p \<Rightarrow> fleq p fzero \<or> fless (Fin 1) p) then
        Some (Errorf ''stop_loss_pct must be in (0, 1]'' [])
      else None)"

definition spec_validate :: "spec \<Rightarrow> err option" where
  "spec_validate s =
     (if \<not> slug_pattern (spec_Slug s) then
        Some (Errorf ''slug must match %s'' [AS ''^[a-z][a-z0-9-]{2,63}$''])
      else if spec_Version s < 1 then Some (Errorf ''version must be at least 1'' [])
      else if length (trim_space (spec_Name s)) < 3 \<or> 120 < length (trim_space (spec_Name s)) then
        Some (Errorf ''name must be between 3 and 120 characters'' [])
      else if trim_space (uni_Name (spec_Universe s)) = [] then
        Some (Errorf ''universe name is required'' [])
      else if uni_AssetClass (spec_Universe s) \<notin> set [''equity'', ''etf''] then
        Some (Errorf ''universe asset_class must be equity or etf'' [])
      else if uni_Symbols (spec_Universe s) = [] then
        Some (Errorf ''universe must list at least one symbol'' [])
      else case check_symbols (uni_Symbols (spec_Universe s)) of Some e \<Rightarrow> Some e
      | None \<Rightarrow>
      if \<not> valid_template (sel_Template (spec_Selection s)) then
        Some (Errorf ''invalid selection template %q'' [AQ (sel_Template (spec_Selection s))])
      else case check_filters 0 (spec_filters s) of Some e \<Rightarrow> Some e
      | None \<Rightarrow>
      if reb_Schedule (spec_Rebalance s) \<notin> set [''weekly'', ''monthly'', ''quarterly''] then
        Some (Errorf ''rebalance schedule must be weekly, monthly, or quarterly'' [])
      else check_risk (spec_Risk s))"

section \<open>MissingSymbols\<close>

text \<open>The loop keeps the set of symbols already reported beside the ones available.\<close>

fun missing_loop :: "string set \<Rightarrow> string set \<Rightarrow> string list \<Rightarrow> string list" where
  "missing_loop present seen [] = []"
| "missing_loop present seen (s # ss) =
     (if s \<in> present then missing_loop present seen ss
      else if s \<in> seen then missing_loop present seen ss
      else s # missing_loop present (insert s seen) ss)"

definition missing_symbols :: "string list \<Rightarrow> string list \<Rightarrow> string list" where
  "missing_symbols required available = missing_loop (set available) {} required"

lemma set_missing_loop: "set (missing_loop P S ss) = set ss - P - S"
  by (induction ss arbitrary: S) auto

lemma missing_loop_Nil: "missing_loop P {} ss = [] \<longleftrightarrow> set ss \<subseteq> P"
  by (metis Diff_empty Diff_eq_empty_iff set_empty set_missing_loop)

lemma distinct_missing_loop: "distinct (missing_loop P S ss) \<and> set (missing_loop P S ss) \<inter> S = {}"
  by (induction ss arbitrary: S) auto

lemma subseq_missing_loop: "subseq (missing_loop P S ss) ss"
  by (induction ss arbitrary: S) (auto intro: list_emb_Cons)

text \<open>
  \<open>MissingSymbols\<close> reports each required symbol that is not available exactly once, nothing else,
  and in the order the required list has them; it reports nothing exactly when every required
  symbol is available.
\<close>

lemma missing_symbols_spec:
  "set (missing_symbols required available) = set required - set available
   \<and> distinct (missing_symbols required available)
   \<and> subseq (missing_symbols required available) required
   \<and> (missing_symbols required available = [] \<longleftrightarrow> set required \<subseteq> set available)"
  using distinct_missing_loop [of "set available" "{}" required]
    subseq_missing_loop [of "set available" "{}" required]
  by (simp add: missing_symbols_def set_missing_loop missing_loop_Nil)

lemma missing_symbols_Nil: "missing_symbols required available = [] \<longleftrightarrow> set required \<subseteq> set available"
  by (simp add: missing_symbols_def missing_loop_Nil)

section \<open>What validation accepts\<close>

lemma check_symbols_None: "check_symbols ss = None \<longleftrightarrow> (\<forall>s \<in> set ss. symbol_pattern s)"
  by (induction ss) auto

lemma check_filters_None:
  "check_filters i fs = None \<longleftrightarrow>
     (\<forall>f \<in> set fs. flt_Field f \<in> set filter_fields \<and> flt_Operator f \<in> set filter_operators
        \<and> scalar_value (flt_Value f))"
  by (induction fs arbitrary: i) auto

text \<open>The bounds on risk, with NaN let through, since every comparison with it is false.\<close>

definition risk_ok :: "risk \<Rightarrow> bool" where
  "risk_ok r \<longleftrightarrow>
     \<not> fleq (risk_MaxPositionWeight r) fzero \<and> \<not> fless (Fin 1) (risk_MaxPositionWeight r)
     \<and> \<not> fless (risk_TransactionCostBps r) fzero \<and> \<not> fless (Fin 1000) (risk_TransactionCostBps r)
     \<and> (\<forall>p. risk_StopLossPct r = Some p \<longrightarrow> \<not> fleq p fzero \<and> \<not> fless (Fin 1) p)"

lemma check_risk_None: "check_risk r = None \<longleftrightarrow> risk_ok r"
  by (auto simp: check_risk_def risk_ok_def split: option.splits)

text \<open>
  \<open>Spec.Validate\<close> accepts exactly the specs with a slug of the committed form, a positive
  version, a name of 3 to 120 bytes once trimmed, a named universe of a known asset class with at
  least one symbol and only well-formed ones, a known template, filters that each set a knob of
  the closed list with a known operator and a scalar value, a known schedule, and risk limits
  within their bounds.
\<close>

definition spec_ok :: "spec \<Rightarrow> bool" where
  "spec_ok s \<longleftrightarrow>
     slug_pattern (spec_Slug s) \<and> 1 \<le> spec_Version s
     \<and> 3 \<le> length (trim_space (spec_Name s)) \<and> length (trim_space (spec_Name s)) \<le> 120
     \<and> trim_space (uni_Name (spec_Universe s)) \<noteq> []
     \<and> uni_AssetClass (spec_Universe s) \<in> {''equity'', ''etf''}
     \<and> uni_Symbols (spec_Universe s) \<noteq> [] \<and> (\<forall>y \<in> set (uni_Symbols (spec_Universe s)). symbol_pattern y)
     \<and> valid_template (sel_Template (spec_Selection s))
     \<and> (\<forall>f \<in> set (spec_filters s). flt_Field f \<in> set filter_fields
          \<and> flt_Operator f \<in> set filter_operators \<and> scalar_value (flt_Value f))
     \<and> reb_Schedule (spec_Rebalance s) \<in> {''weekly'', ''monthly'', ''quarterly''}
     \<and> risk_ok (spec_Risk s)"

lemma spec_validate_None: "spec_validate s = None \<longleftrightarrow> spec_ok s"
  by (simp add: spec_validate_def spec_ok_def check_symbols_None [symmetric]
      check_filters_None [where i = 0, symmetric] check_risk_None [symmetric] not_less not_le split: option.splits)

definition sample_spec :: spec where
  "sample_spec =
     \<lparr>spec_Slug = ''momentum'', spec_Version = 1, spec_Name = ''Momentum'',
      spec_Universe = \<lparr>uni_Name = ''core'', uni_AssetClass = ''etf'', uni_Symbols = [''SPY'', ''IEF'']\<rparr>,
      spec_Selection = \<lparr>sel_Template = ''quality-trend'', sel_Filters = None\<rparr>,
      spec_Rebalance = \<lparr>reb_Schedule = ''weekly''\<rparr>,
      spec_Risk = \<lparr>risk_MaxPositionWeight = Fin (1 / 2), risk_TransactionCostBps = Fin 0, risk_StopLossPct = None\<rparr>\<rparr>"

lemma trim_space_sample: "trim_space ''Momentum'' = ''Momentum''" "trim_space ''core'' = ''core''"
  by (rule trim_space_printing; simp add: printing_def byte_in_def)+

end
