(* ===== verification/GoSort.thy ===== *)
theory GoSort
  imports Prelude "HOL-Library.Multiset" "HOL-Library.Product_Lexorder"
begin

text \<open>
  \<open>sort.Slice\<close> and \<open>sort.Strings\<close>. What callers may rely on is a contract: the result is a
  permutation, in order with respect to a strict weak order, and not necessarily stable. The
  locale states the contract and derives what it implies when no two elements compare equal; the
  definition is the insertion sort Go runs on short slices, and it meets the contract at every
  length, so under such a key no other implementation can return anything else.
\<close>

definition strict_weak :: "('a \<Rightarrow> 'a \<Rightarrow> bool) \<Rightarrow> bool" where
  "strict_weak lt \<longleftrightarrow>
     (\<forall>a b. lt a b \<longrightarrow> \<not> lt b a) \<and> (\<forall>a b c. \<not> lt a b \<longrightarrow> \<not> lt b c \<longrightarrow> \<not> lt a c)"

lemma strict_weak_key: "strict_weak (\<lambda>a b. (k a :: 'k :: linorder) < k b)"
  by (auto simp: strict_weak_def)

locale slice_sort =
  fixes srt :: "('a \<Rightarrow> 'a \<Rightarrow> bool) \<Rightarrow> 'a list \<Rightarrow> 'a list"
  assumes srt_mset: "mset (srt lt xs) = mset xs"
    and srt_ordered: "strict_weak lt \<Longrightarrow> sorted_wrt (\<lambda>x y. \<not> lt y x) (srt lt xs)"
begin

lemma srt_set: "set (srt lt xs) = set xs"
  by (metis set_mset_mset srt_mset)

lemma srt_length: "length (srt lt xs) = length xs"
  by (metis size_mset srt_mset)

lemma srt_sorted_key:
  fixes k :: "'a \<Rightarrow> 'k :: linorder"
  shows "sorted (map k (srt (\<lambda>a b. k a < k b) xs))"
  using srt_ordered [OF strict_weak_key, of k xs] by (simp add: sorted_map not_less)

lemma srt_distinct_key: "distinct (map k (srt lt xs)) \<longleftrightarrow> distinct (map k xs)"
  by (metis mset_eq_imp_distinct_iff mset_map srt_mset)

lemma srt_unique:
  fixes k :: "'a \<Rightarrow> 'k :: linorder"
  assumes "distinct (map k xs)" and "set ys = set xs" and "distinct (map k ys)" and "sorted (map k ys)"
  shows "srt (\<lambda>a b. k a < k b) xs = ys"
proof (rule map_sorted_distinct_set_unique)
  show "inj_on k (set (srt (\<lambda>a b. k a < k b) xs) \<union> set ys)"
    using assms(1,2) by (simp add: srt_set distinct_map)
  show "sorted (map k (srt (\<lambda>a b. k a < k b) xs))" by (rule srt_sorted_key)
  show "distinct (map k (srt (\<lambda>a b. k a < k b) xs))" using assms(1) by (simp add: srt_distinct_key)
  show "set (srt (\<lambda>a b. k a < k b) xs) = set ys" using assms(2) by (simp add: srt_set)
qed (use assms in simp_all)

lemma srt_canonical:
  fixes k :: "'a \<Rightarrow> 'k :: linorder"
  assumes "distinct (map k xs)" and "distinct (map k ys)" and "set xs = set ys"
  shows "srt (\<lambda>a b. k a < k b) xs = srt (\<lambda>a b. k a < k b) ys"
  by (rule srt_unique) (use assms in \<open>simp_all add: srt_set srt_distinct_key srt_sorted_key\<close>)

end

text \<open>One element walks left past the larger ones; the sorted part is kept reversed.\<close>

fun walk_left :: "('a \<Rightarrow> 'a \<Rightarrow> bool) \<Rightarrow> 'a \<Rightarrow> 'a list \<Rightarrow> 'a list" where
  "walk_left lt x [] = [x]"
| "walk_left lt x (y # ys) = (if lt x y then y # walk_left lt x ys else x # y # ys)"

definition sort_slice :: "('a \<Rightarrow> 'a \<Rightarrow> bool) \<Rightarrow> 'a list \<Rightarrow> 'a list" where
  "sort_slice lt xs = rev (fold (walk_left lt) xs [])"

definition sort_strings :: "string list \<Rightarrow> string list" where
  "sort_strings xs = sort_slice (\<lambda>a b. a < b) xs"

lemma mset_walk_left: "mset (walk_left lt x ys) = add_mset x (mset ys)"
  by (induction ys) auto

lemma set_walk_left: "set (walk_left lt x ys) = insert x (set ys)"
  by (metis mset_walk_left set_mset_add_mset_insert set_mset_mset)

lemma ordered_walk_left:
  assumes "strict_weak lt" and "sorted_wrt (\<lambda>x y. \<not> lt x y) ys"
  shows "sorted_wrt (\<lambda>x y. \<not> lt x y) (walk_left lt x ys)"
  using assms(2)
proof (induction ys)
  case (Cons y ys)
  have asym: "lt x y \<Longrightarrow> \<not> lt y x"
    using assms(1) unfolding strict_weak_def by blast
  have neg_trans: "\<not> lt x y \<Longrightarrow> \<not> lt y z \<Longrightarrow> \<not> lt x z" for z
    using assms(1) unfolding strict_weak_def by blast
  show ?case
  proof (cases "lt x y")
    case True
    with Cons asym show ?thesis by (simp add: set_walk_left)
  next
    case False
    with Cons.prems have "\<forall>z \<in> set ys. \<not> lt x z" using neg_trans by simp
    with False Cons.prems show ?thesis by simp
  qed
qed simp

lemma mset_fold_walk_left: "mset (fold (walk_left lt) xs ys) = mset xs + mset ys"
  by (induction xs arbitrary: ys) (auto simp: mset_walk_left)

lemma ordered_fold_walk_left:
  assumes "strict_weak lt" and "sorted_wrt (\<lambda>x y. \<not> lt x y) ys"
  shows "sorted_wrt (\<lambda>x y. \<not> lt x y) (fold (walk_left lt) xs ys)"
  using assms(2) by (induction xs arbitrary: ys) (simp_all add: ordered_walk_left [OF assms(1)])

interpretation go_sort: slice_sort sort_slice
  by unfold_locales (simp_all add: sort_slice_def mset_fold_walk_left sorted_wrt_rev ordered_fold_walk_left)

lemma sort_strings_set: "set (sort_strings xs) = set xs"
  by (simp add: sort_strings_def go_sort.srt_set)

lemma sort_strings_sorted: "sorted (sort_strings xs)"
  using go_sort.srt_sorted_key [of "\<lambda>x. x" xs] by (simp add: sort_strings_def)

lemma sort_strings_distinct: "distinct (sort_strings xs) \<longleftrightarrow> distinct xs"
  using go_sort.srt_distinct_key [of "\<lambda>x. x" _ xs] by (simp add: sort_strings_def)

end
