(* ===== verification/ClaimSignals.thy ===== *)
theory ClaimSignals
  imports Domain GoSort
begin

text \<open>
  \<open>internal/strategies/signals.go\<close>, with the table of macro themes from \<open>builder.go\<close>: how a stored
  claim becomes a trading signal of a backtest. \<open>ul\<close> is the Unicode lower-casing of a rune outside
  ASCII (see theory \<open>GoStrings\<close>).
\<close>

record macro_theme =
  th_name :: string
  th_keywords :: "string list"
  th_symbols :: "string list"

definition macro_themes :: "macro_theme list" where
  "macro_themes =
     [\<lparr>th_name = ''rates'', th_keywords = [''rate'', ''treasur'', ''yield'', ''duration'', ''fed'', ''bond''],
       th_symbols = [''IEF'', ''TLT'']\<rparr>,
      \<lparr>th_name = ''oil'', th_keywords = [''oil'', ''crude'', ''opec'', ''brent'', ''wti'', ''energy''],
       th_symbols = [''USO'', ''XLE'']\<rparr>,
      \<lparr>th_name = ''dollar'', th_keywords = [''dollar'', ''currency'', ''fx'', ''euro'', ''yen''],
       th_symbols = [''UUP'']\<rparr>,
      \<lparr>th_name = ''credit'', th_keywords = [''credit'', ''spread'', ''high yield'', ''investment grade'', ''hybrid''],
       th_symbols = [''LQD'', ''HYG'']\<rparr>,
      \<lparr>th_name = ''equities'', th_keywords = [''equit'', ''stock'', ''s&p'', ''earnings''],
       th_symbols = [''SPY'']\<rparr>]"

definition claim_themes :: "(string \<Rightarrow> string) \<Rightarrow> stored_claim \<Rightarrow> macro_theme list" where
  "claim_themes ul c =
     (let lower = to_lower ul (sc_Text c @ '' '' @ sc_EvidenceQuote c)
      in filter (\<lambda>th. list_ex (contains lower) (th_keywords th)) macro_themes)"

definition claim_symbols :: "(string \<Rightarrow> string) \<Rightarrow> stored_claim \<Rightarrow> string list" where
  "claim_symbols ul c =
     (let proxies = concat (map th_symbols (claim_themes ul c)) in
      case sc_Ticker c of
        Some t \<Rightarrow> if trim_space t \<noteq> [] then [trim_space t] else proxies
      | None \<Rightarrow> proxies)"

section \<open>BuildSignals\<close>

definition signal_of :: "stored_claim \<Rightarrow> string \<Rightarrow> claim_signal" where
  "signal_of c symbol =
     \<lparr>sig_ClaimID = sc_ID c, sig_Symbol = symbol, sig_Direction = sc_Direction c,
      sig_Confidence = sc_Confidence c, sig_EffectiveAt = sc_EffectiveAt c,
      sig_HorizonDays = sc_HorizonDays c\<rparr>"

type_synonym signal_acc = "(string \<times> string) set \<times> claim_signal list"

text \<open>The inner loop over a claim's symbols, with \<open>seen\<close> and the signals appended so far.\<close>

fun symbol_loop :: "string set \<Rightarrow> stored_claim \<Rightarrow> string list \<Rightarrow> signal_acc \<Rightarrow> signal_acc" where
  "symbol_loop tradable c [] acc = acc"
| "symbol_loop tradable c (s # ss) (seen, sigs) =
     (if s \<notin> tradable then symbol_loop tradable c ss (seen, sigs)
      else if (sc_ID c, s) \<in> seen then symbol_loop tradable c ss (seen, sigs)
      else symbol_loop tradable c ss (insert (sc_ID c, s) seen, sigs @ [signal_of c s]))"

fun claim_loop ::
    "(string \<Rightarrow> string) \<Rightarrow> string set \<Rightarrow> time \<Rightarrow> stored_claim list \<Rightarrow> signal_acc \<Rightarrow> signal_acc" where
  "claim_loop ul tradable cutoff [] acc = acc"
| "claim_loop ul tradable cutoff (c # cs) acc =
     (if sc_ValidationStatus c \<noteq> ''accepted'' \<or> sc_Direction c = ''neutral'' then
        claim_loop ul tradable cutoff cs acc
      else if cutoff < sc_EffectiveAt c then claim_loop ul tradable cutoff cs acc
      else claim_loop ul tradable cutoff cs (symbol_loop tradable c (claim_symbols ul c) acc))"

definition signal_less :: "claim_signal \<Rightarrow> claim_signal \<Rightarrow> bool" where
  "signal_less left right =
     (if sig_Symbol left \<noteq> sig_Symbol right then sig_Symbol left < sig_Symbol right
      else if sig_EffectiveAt left \<noteq> sig_EffectiveAt right then
        sig_EffectiveAt left < sig_EffectiveAt right
      else sig_ClaimID left < sig_ClaimID right)"

definition build_signals ::
    "(string \<Rightarrow> string) \<Rightarrow> stored_claim list \<Rightarrow> string list \<Rightarrow> time \<Rightarrow> claim_signal list" where
  "build_signals ul claims universe cutoff =
     sort_slice signal_less (snd (claim_loop ul (set universe) cutoff claims ({}, [])))"

section \<open>The pairs that become signals\<close>

text \<open>The three gates, as a condition on one claim and one symbol.\<close>

definition admitted :: "(string \<Rightarrow> string) \<Rightarrow> string set \<Rightarrow> time \<Rightarrow> stored_claim \<Rightarrow> string \<Rightarrow> bool" where
  "admitted ul tradable cutoff c s \<longleftrightarrow>
     sc_ValidationStatus c = ''accepted'' \<and> sc_Direction c \<noteq> ''neutral''
     \<and> sc_EffectiveAt c \<le> cutoff \<and> s \<in> set (claim_symbols ul c) \<and> s \<in> tradable"

abbreviation sig_pair :: "claim_signal \<Rightarrow> string \<times> string" where
  "sig_pair s \<equiv> (sig_ClaimID s, sig_Symbol s)"

abbreviation sig_key :: "claim_signal \<Rightarrow> string \<times> time \<times> string" where
  "sig_key s \<equiv> (sig_Symbol s, sig_EffectiveAt s, sig_ClaimID s)"

lemma signal_of_simps [simp]:
  "sig_ClaimID (signal_of c s) = sc_ID c" "sig_Symbol (signal_of c s) = s"
  "sig_EffectiveAt (signal_of c s) = sc_EffectiveAt c"
  "sig_Direction (signal_of c s) = sc_Direction c"
  by (simp_all add: signal_of_def)

text \<open>\<open>seen\<close> always holds exactly the pairs already turned into signals, each once.\<close>

definition acc_ok :: "signal_acc \<Rightarrow> bool" where
  "acc_ok acc \<longleftrightarrow> fst acc = sig_pair ` set (snd acc) \<and> distinct (map sig_pair (snd acc))"

lemma symbol_loop_ok: "acc_ok acc \<Longrightarrow> acc_ok (symbol_loop tradable c ss acc)"
  by (induction tradable c ss acc rule: symbol_loop.induct) (auto simp: acc_ok_def)

lemma claim_loop_ok: "acc_ok acc \<Longrightarrow> acc_ok (claim_loop ul tradable cutoff cs acc)"
  by (induction ul tradable cutoff cs acc rule: claim_loop.induct) (auto intro: symbol_loop_ok)

lemma symbol_loop_pairs:
  "acc_ok acc \<Longrightarrow>
   sig_pair ` set (snd (symbol_loop tradable c ss acc)) =
     sig_pair ` set (snd acc) \<union> {(sc_ID c, s) | s. s \<in> set ss \<and> s \<in> tradable}"
  by (induction tradable c ss acc rule: symbol_loop.induct) (auto simp: acc_ok_def)

lemma claim_loop_pairs:
  "acc_ok acc \<Longrightarrow>
   sig_pair ` set (snd (claim_loop ul tradable cutoff cs acc)) =
     sig_pair ` set (snd acc) \<union> {(sc_ID c, s) | c s. c \<in> set cs \<and> admitted ul tradable cutoff c s}"
proof (induction ul tradable cutoff cs acc rule: claim_loop.induct)
  case (2 ul tradable cutoff c cs acc)
  have split: "{(sc_ID d, s) | d s. d \<in> set (c # cs) \<and> admitted ul tradable cutoff d s} =
    {(sc_ID c, s) | s. admitted ul tradable cutoff c s}
    \<union> {(sc_ID d, s) | d s. d \<in> set cs \<and> admitted ul tradable cutoff d s}"
    by auto
  show ?case
  proof (cases "sc_ValidationStatus c \<noteq> ''accepted'' \<or> sc_Direction c = ''neutral'' \<or> cutoff < sc_EffectiveAt c")
    case True
    then have "{(sc_ID c, s) | s. admitted ul tradable cutoff c s} = {}"
      by (auto simp: admitted_def)
    with True "2.prems" show ?thesis
      unfolding split by (auto simp: "2.IH"(1,2))
  next
    case False
    then have "{(sc_ID c, s) | s. admitted ul tradable cutoff c s} =
      {(sc_ID c, s) | s. s \<in> set (claim_symbols ul c) \<and> s \<in> tradable}"
      by (auto simp: admitted_def)
    with False "2.prems" show ?thesis
      unfolding split by (simp add: "2.IH"(3) symbol_loop_ok symbol_loop_pairs Un_assoc)
  qed
qed auto

lemma symbol_loop_sources:
  "s \<in> set (snd (symbol_loop tradable c ss acc)) \<Longrightarrow>
     s \<in> set (snd acc) \<or> (\<exists>y \<in> set ss. y \<in> tradable \<and> s = signal_of c y)"
  by (induction tradable c ss acc rule: symbol_loop.induct) (auto split: if_splits)

lemma claim_loop_sources:
  "s \<in> set (snd (claim_loop ul tradable cutoff cs acc)) \<Longrightarrow>
     s \<in> set (snd acc) \<or> (\<exists>c \<in> set cs. \<exists>y. admitted ul tradable cutoff c y \<and> s = signal_of c y)"
proof (induction ul tradable cutoff cs acc rule: claim_loop.induct)
  case (2 ul tradable cutoff c cs acc)
  then show ?case
    by (force simp: admitted_def split: if_splits dest: symbol_loop_sources)
qed auto

section \<open>The list that is sent\<close>

abbreviation raw_signals ::
    "(string \<Rightarrow> string) \<Rightarrow> stored_claim list \<Rightarrow> string list \<Rightarrow> time \<Rightarrow> claim_signal list" where
  "raw_signals ul claims universe cutoff \<equiv>
     snd (claim_loop ul (set universe) cutoff claims ({}, []))"

lemma acc_ok_empty [simp]: "acc_ok ({}, [])"
  by (simp add: acc_ok_def)

lemma raw_distinct: "distinct (map sig_pair (raw_signals ul claims universe cutoff))"
  using claim_loop_ok [OF acc_ok_empty] by (simp add: acc_ok_def)

lemma distinct_sig_key: "distinct (map sig_pair ss) \<Longrightarrow> distinct (map sig_key ss)"
  by (auto simp: distinct_map inj_on_def)

text \<open>The comparison is the lexicographic order on symbol, effective time and claim id.\<close>

lemma signal_less_key: "signal_less = (\<lambda>l r. sig_key l < sig_key r)"
  by (intro ext) (auto simp: signal_less_def less_prod_def)

lemma build_signals_key:
  "build_signals ul claims universe cutoff =
     sort_slice (\<lambda>l r. sig_key l < sig_key r) (raw_signals ul claims universe cutoff)"
  by (simp add: build_signals_def signal_less_key)

lemma set_build_signals:
  "set (build_signals ul claims universe cutoff) = set (raw_signals ul claims universe cutoff)"
  by (simp add: build_signals_def go_sort.srt_set)

lemma build_signals_sources:
  assumes "s \<in> set (build_signals ul claims universe cutoff)"
  shows "\<exists>c \<in> set claims. admitted ul (set universe) cutoff c (sig_Symbol s) \<and> s = signal_of c (sig_Symbol s)"
  using assms claim_loop_sources [of s ul "set universe" cutoff claims "({}, [])"]
  by (auto simp: set_build_signals)

lemma build_signals_pairs:
  "sig_pair ` set (build_signals ul claims universe cutoff) =
     {(sc_ID c, s) | c s. c \<in> set claims \<and> admitted ul (set universe) cutoff c s}"
  using claim_loop_pairs [OF acc_ok_empty, of ul "set universe" cutoff claims]
  by (simp add: set_build_signals)

lemma build_signals_distinct: "distinct (map sig_pair (build_signals ul claims universe cutoff))"
  by (simp add: build_signals_def go_sort.srt_distinct_key raw_distinct)

lemma build_signals_sorted: "sorted (map sig_key (build_signals ul claims universe cutoff))"
  unfolding build_signals_key by (rule go_sort.srt_sorted_key)

text \<open>Claims as the database holds them have ids of their own; then the list is determined.\<close>

lemma build_signals_exact:
  assumes "distinct (map sc_ID claims)"
  shows "set (build_signals ul claims universe cutoff) =
    {signal_of c s | c s. c \<in> set claims \<and> admitted ul (set universe) cutoff c s}"
    (is "?L = ?R")
proof
  show "?L \<subseteq> ?R" using build_signals_sources by fast
  show "?R \<subseteq> ?L"
  proof
    fix t assume "t \<in> ?R"
    then obtain c s where t: "t = signal_of c s" and c: "c \<in> set claims" "admitted ul (set universe) cutoff c s"
      by blast
    then have "(sc_ID c, s) \<in> sig_pair ` ?L" unfolding build_signals_pairs by blast
    then obtain u where u: "u \<in> ?L" "sig_ClaimID u = sc_ID c" "sig_Symbol u = s" by auto
    from build_signals_sources [OF u(1)] u(3) obtain d
      where d: "d \<in> set claims" "u = signal_of d s" by blast
    then have "sc_ID d = sc_ID c" using u(2) by simp
    then have "d = c" using assms c(1) d(1) by (metis distinct_map inj_onD)
    with d(2) u(1) t show "t \<in> ?L" by simp
  qed
qed

text \<open>
  C33 No look-ahead and no unreviewed research: every signal \<open>BuildSignals\<close> hands to the engine
  comes from a claim that a human accepted, that is not neutral, that was effective at or before
  the document cutoff, and whose symbols include one the universe trades; the signal carries that
  claim's id, direction, confidence, effective time and horizon unchanged. No claim is counted
  twice for one symbol.
\<close>

theorem build_signals_sound:
  "(\<forall>s \<in> set (build_signals ul claims universe cutoff).
      \<exists>c \<in> set claims. sc_ValidationStatus c = ''accepted'' \<and> sc_Direction c \<noteq> ''neutral''
        \<and> sc_EffectiveAt c \<le> cutoff \<and> sig_Symbol s \<in> set universe
        \<and> sig_Symbol s \<in> set (claim_symbols ul c) \<and> s = signal_of c (sig_Symbol s))
   \<and> distinct (map sig_pair (build_signals ul claims universe cutoff))"
  using build_signals_sources build_signals_distinct unfolding admitted_def by blast

text \<open>
  C34 Completeness: every accepted, directional claim effective by the cutoff reaches the engine
  once for each universe symbol it speaks to.
\<close>

theorem build_signals_complete:
  assumes "c \<in> set claims" and "sc_ValidationStatus c = ''accepted''" and "sc_Direction c \<noteq> ''neutral''"
    and "sc_EffectiveAt c \<le> cutoff" and "y \<in> set (claim_symbols ul c)" and "y \<in> set universe"
  shows "length (filter (\<lambda>s. sig_ClaimID s = sc_ID c \<and> sig_Symbol s = y)
           (build_signals ul claims universe cutoff)) = 1"
proof -
  let ?ss = "build_signals ul claims universe cutoff"
  have "(sc_ID c, y) \<in> sig_pair ` set ?ss"
    unfolding build_signals_pairs using assms by (auto simp: admitted_def)
  then obtain s where s: "s \<in> set ?ss" "sig_pair s = (sc_ID c, y)" by auto
  have "filter (\<lambda>t. sig_pair t = sig_pair s) ?ss = [s]"
    by (rule filter_key_unique [OF build_signals_distinct s(1)])
  with s(2) show ?thesis by simp
qed

text \<open>
  C35 The payload is deterministic: over claims with distinct ids, the list of signals depends
  neither on the order of the claims nor on the order or repetition of the universe's symbols.
\<close>

theorem build_signals_deterministic:
  assumes "distinct (map sc_ID claims)" and "mset claims' = mset claims"
    and "set universe' = set universe"
  shows "build_signals ul claims' universe' cutoff = build_signals ul claims universe cutoff"
proof -
  have ids: "distinct (map sc_ID claims')"
    using assms(1,2) by (metis mset_eq_imp_distinct_iff mset_map)
  have "set claims' = set claims" using assms(2) by (rule mset_eq_setD)
  then have "set (raw_signals ul claims' universe' cutoff) = set (raw_signals ul claims universe cutoff)"
    using build_signals_exact [OF assms(1)] build_signals_exact [OF ids] assms(3)
    by (simp add: set_build_signals)
  then show ?thesis
    unfolding build_signals_key
    by (intro go_sort.srt_canonical) (simp_all add: distinct_sig_key raw_distinct)
qed

text \<open>
  C36 Moving the cutoff back only withholds research: with an earlier cutoff the engine gets the
  same list with the claims effective after it left out, nothing added and nothing reordered, so
  what was published later cannot change what an earlier run is told.
\<close>

theorem build_signals_cutoff:
  assumes "distinct (map sc_ID claims)" and "earlier \<le> cutoff"
  shows "build_signals ul claims universe earlier =
    filter (\<lambda>s. sig_EffectiveAt s \<le> earlier) (build_signals ul claims universe cutoff)"
proof -
  let ?later = "filter (\<lambda>s. sig_EffectiveAt s \<le> earlier) (build_signals ul claims universe cutoff)"
  have admitted_earlier: "admitted ul U earlier c s \<longleftrightarrow> admitted ul U cutoff c s \<and> sc_EffectiveAt c \<le> earlier"
    for U c s using assms(2) by (auto simp: admitted_def)
  have "set (build_signals ul claims universe earlier) = set ?later"
    unfolding set_filter build_signals_exact [OF assms(1)] admitted_earlier by force
  then have "set ?later = set (raw_signals ul claims universe earlier)"
    by (simp add: set_build_signals)
  moreover have "distinct (map sig_key ?later)"
    using build_signals_distinct [of ul claims universe cutoff]
    by (intro distinct_sig_key) (simp add: distinct_map_filter)
  moreover have "sorted (map sig_key ?later)"
    by (rule sorted_filter [OF build_signals_sorted])
  ultimately show ?thesis
    unfolding build_signals_key [of _ _ _ earlier]
    by (intro go_sort.srt_unique [OF distinct_sig_key [OF raw_distinct]])
qed

section \<open>Instances\<close>

text \<open>An accepted claim on a ticker, and one on a macro theme, published one after the other.\<close>

definition sample_claim :: "string \<Rightarrow> string option \<Rightarrow> string \<Rightarrow> time \<Rightarrow> stored_claim" where
  "sample_claim i ticker quote effective =
     \<lparr>sc_ID = i, sc_DocumentID = ''doc'', sc_PageNumber = 1, sc_Ticker = ticker, sc_Kind = ''macro'',
      sc_Direction = ''positive'', sc_Text = quote, sc_EvidenceQuote = quote, sc_HorizonDays = None,
      sc_Confidence = Fin (1 / 2), sc_EffectiveAt = effective, sc_ValidationStatus = ''accepted'',
      sc_CreatedAt = effective\<rparr>"

definition keep_rune :: "string \<Rightarrow> string" where "keep_rune r = r"

lemma trim_space_SPY: "trim_space ''SPY'' = ''SPY''"
  by (rule trim_space_printing) (simp add: printing_def byte_in_def)

lemma claim_symbols_SPY: "claim_symbols ul (sample_claim i (Some ''SPY'') t e) = [''SPY'']"
  by (simp add: claim_symbols_def sample_claim_def trim_space_SPY)

theorem build_signals_complete_witness:
  "length (filter (\<lambda>s. sig_ClaimID s = ''a'' \<and> sig_Symbol s = ''SPY'')
     (build_signals keep_rune [sample_claim ''a'' (Some ''SPY'') ''Earnings beat.'' 5] [''IEF'', ''SPY''] 7)) = 1"
  using build_signals_complete [of "sample_claim ''a'' (Some ''SPY'') ''Earnings beat.'' 5"
      "[sample_claim ''a'' (Some ''SPY'') ''Earnings beat.'' 5]" 7 "''SPY''" keep_rune "[''IEF'', ''SPY'']"]
  by (simp add: claim_symbols_SPY) (simp add: sample_claim_def)

theorem build_signals_deterministic_witness:
  "build_signals keep_rune
     [sample_claim ''b'' None ''Yields rise.'' 6, sample_claim ''a'' (Some ''SPY'') ''Earnings beat.'' 5]
     [''SPY'', ''IEF'', ''SPY''] 7 =
   build_signals keep_rune
     [sample_claim ''a'' (Some ''SPY'') ''Earnings beat.'' 5, sample_claim ''b'' None ''Yields rise.'' 6]
     [''IEF'', ''SPY''] 7"
  by (rule build_signals_deterministic) (auto simp: sample_claim_def)

theorem build_signals_cutoff_witness:
  "build_signals keep_rune
     [sample_claim ''a'' (Some ''SPY'') ''Earnings beat.'' 5, sample_claim ''b'' (Some ''SPY'') ''Beat again.'' 9]
     [''SPY''] 7 =
   filter (\<lambda>s. sig_EffectiveAt s \<le> 7) (build_signals keep_rune
     [sample_claim ''a'' (Some ''SPY'') ''Earnings beat.'' 5, sample_claim ''b'' (Some ''SPY'') ''Beat again.'' 9]
     [''SPY''] 12)"
  by (rule build_signals_cutoff) (auto simp: sample_claim_def)

theorem build_signals_sound_witness:
  "build_signals keep_rune [sample_claim ''a'' (Some ''SPY'') ''Earnings beat.'' 9] [''SPY''] 7 = []"
  using build_signals_sound [of keep_rune "[sample_claim ''a'' (Some ''SPY'') ''Earnings beat.'' 9]" "[''SPY'']" 7]
  by (cases "build_signals keep_rune [sample_claim ''a'' (Some ''SPY'') ''Earnings beat.'' 9] [''SPY''] 7")
    (simp_all add: sample_claim_def)

end
