(* ===== verification/Float64Rounding.thy ===== *)
theory Float64Rounding
  imports Float64
begin

text \<open>
  What rounding to binary64 guarantees: representable values are kept, the order is kept, and a
  rounded value is within half a unit of the exact one.
\<close>

section \<open>Binades\<close>

lemma two_pow_powi: "two_pow e = 2 powi e"
  by (simp add: two_pow_def power_int_def field_simps)

lemma two_pow_add: "two_pow (a + b) = two_pow a * two_pow b"
  by (simp add: two_pow_powi power_int_add)

lemma two_pow_Suc: "two_pow (e + 1) = 2 * two_pow e"
  by (simp add: two_pow_add) (simp add: two_pow_def)

lemma two_pow_mono: "a \<le> b \<Longrightarrow> two_pow a \<le> two_pow b"
  by (simp add: two_pow_powi power_int_increasing)

lemma two_pow_nat: "two_pow (int n) = 2 ^ n"
  by (simp add: two_pow_def)

lemma bit_length_bounds: "0 < n \<Longrightarrow> 2 ^ (bit_length n - 1) \<le> n \<and> n < 2 ^ bit_length n \<and> 0 < bit_length n"
proof (induction n rule: bit_length.induct)
  case (1 n)
  show ?case
  proof (cases "n div 2 = 0")
    case True
    with 1 have "n = 1" by linarith
    then show ?thesis by (simp add: bit_length.simps)
  next
    case False
    with 1 have b: "2 ^ (bit_length (n div 2) - 1) \<le> n div 2" "n div 2 < 2 ^ bit_length (n div 2)"
      "0 < bit_length (n div 2)" by auto
    have s: "bit_length n = Suc (bit_length (n div 2))" using 1 by (subst bit_length.simps) simp
    obtain k where k: "bit_length (n div 2) = Suc k" using b(3) gr0_implies_Suc by blast
    show ?thesis using b unfolding s k by simp linarith
  qed
qed

lemma bit_length_Suc:
  assumes "0 < m"
  shows "\<exists>a. bit_length (nat m) = Suc a \<and> 2 ^ a \<le> nat m \<and> nat m < 2 ^ Suc a"
proof -
  have b: "2 ^ (bit_length (nat m) - 1) \<le> nat m \<and> nat m < 2 ^ bit_length (nat m) \<and> 0 < bit_length (nat m)"
    using assms by (intro bit_length_bounds) simp
  then show ?thesis by (intro exI [of _ "bit_length (nat m) - 1"]) simp
qed

lemma nat_bounds_rat:
  assumes "0 < m" and "2 ^ a \<le> nat m" and "nat m < 2 ^ b"
  shows "(2::rat) ^ a \<le> of_int m \<and> of_int m < (2::rat) ^ b"
proof -
  obtain k where k: "m = int k" using assms(1) zero_less_imp_eq_int by blast
  have "of_nat (2 ^ a) \<le> (of_nat k :: rat)" "of_nat k < (of_nat (2 ^ b) :: rat)"
    using assms k by (simp_all only: of_nat_le_iff of_nat_less_iff nat_int)
  then show ?thesis using k by simp
qed

lemma exponent_of_bounds:
  assumes "0 < x"
  shows "two_pow (exponent_of x) \<le> x \<and> x < two_pow (exponent_of x + 1)"
proof -
  obtain n d where nd: "quotient_of x = (n, d)" by fastforce
  have d: "0 < d" using nd quotient_of_denom_pos by blast
  have x: "x = of_int n / of_int d" using nd quotient_of_div by blast
  have n: "0 < n" using assms x d by (simp add: zero_less_divide_iff)
  obtain a where a: "bit_length (nat n) = Suc a" "2 ^ a \<le> nat n" "nat n < 2 ^ Suc a"
    using bit_length_Suc [OF n] by blast
  obtain b where b: "bit_length (nat d) = Suc b" "2 ^ b \<le> nat d" "nat d < 2 ^ Suc b"
    using bit_length_Suc [OF d] by blast
  have na: "(2::rat) ^ a \<le> of_int n" "of_int n < (2::rat) ^ Suc a"
    using nat_bounds_rat [OF n a(2,3)] by simp_all
  have nb: "(2::rat) ^ b \<le> of_int d" "of_int d < (2::rat) ^ Suc b"
    using nat_bounds_rat [OF d b(2,3)] by simp_all
  let ?e = "int (Suc a) - int (Suc b)"
  have dpos: "(0::rat) < of_int d" using d by simp
  have "x < 2 ^ Suc a / 2 ^ b"
    unfolding x using na nb n dpos by (intro frac_less) auto
  also have "\<dots> = two_pow (?e + 1)"
    by (simp add: two_pow_powi power_int_diff power_int_add)
  finally have up: "x < two_pow (?e + 1)" .
  have "2 ^ a / 2 ^ Suc b < x"
    unfolding x using na nb n dpos by (intro frac_less2) auto
  moreover have "two_pow (?e - 1) = 2 ^ a / 2 ^ Suc b"
    by (simp add: two_pow_powi power_int_diff)
  ultimately have low: "two_pow (?e - 1) < x" by simp
  have "exponent_of x = (if two_pow ?e \<le> x then ?e else ?e - 1)"
    by (simp add: exponent_of_def nd a b Let_def)
  then show ?thesis using up low by auto
qed

lemma exponent_of_eq:
  assumes "two_pow e \<le> x" and "x < two_pow (e + 1)"
  shows "exponent_of x = e"
proof -
  have "0 < x" using assms(1) two_pow_pos [of e] by linarith
  note b = exponent_of_bounds [OF this]
  have "\<not> exponent_of x + 1 \<le> e" using two_pow_mono [of "exponent_of x + 1" e] b assms by linarith
  moreover have "\<not> e + 1 \<le> exponent_of x" using two_pow_mono [of "e + 1" "exponent_of x"] b assms by linarith
  ultimately show ?thesis by linarith
qed

section \<open>Rounding to an integer number of units\<close>

lemma round_even_of_int [simp]: "round_even (of_int m) = m"
  by (simp add: round_even_def)

lemma round_even_error: "\<bar>of_int (round_even x) - x\<bar> \<le> 1 / 2"
  unfolding round_even_def Let_def by (auto simp: abs_if; linarith)

lemma round_even_mono: "x \<le> y \<Longrightarrow> round_even x \<le> round_even y"
proof -
  assume le: "x \<le> y"
  have "\<lfloor>x\<rfloor> = \<lfloor>y\<rfloor> \<or> \<lfloor>x\<rfloor> + 1 \<le> \<lfloor>y\<rfloor>" using floor_mono [OF le] by linarith
  then show ?thesis
    using le unfolding round_even_def Let_def by (auto split: if_splits; linarith)
qed

text \<open>The unit in the last place at a magnitude.\<close>

definition ulp :: "rat \<Rightarrow> rat" where
  "ulp x = two_pow (max (exponent_of x) (-1022) - 52)"

lemma ulp_pos [simp]: "0 < ulp x"
  by (simp add: ulp_def)

lemma ulp_nonzero [simp]: "ulp x \<noteq> 0"
  using ulp_pos [of x] by linarith

definition grid :: "rat \<Rightarrow> rat" where
  "grid x = of_int (round_even (x / ulp x)) * ulp x"

lemma round_pos_grid: "round_pos x = (if 2 ^ 1024 \<le> grid x then PosInf else Fin (grid x))"
  by (simp only: round_pos_def grid_def ulp_def Let_def)

lemma grid_exact: "x = of_int m * ulp x \<Longrightarrow> grid x = x"
proof -
  assume "x = of_int m * ulp x"
  then have "x / ulp x = of_int m * ulp x / ulp x" by (rule arg_cong)
  then have "x / ulp x = of_int m" by simp
  then show ?thesis using \<open>x = of_int m * ulp x\<close> by (simp add: grid_def)
qed

lemma grid_error: "\<bar>grid x - x\<bar> \<le> ulp x / 2"
proof -
  have "grid x - x = (of_int (round_even (x / ulp x)) - x / ulp x) * ulp x"
    by (simp add: grid_def left_diff_distrib)
  then have "\<bar>grid x - x\<bar> = \<bar>of_int (round_even (x / ulp x)) - x / ulp x\<bar> * ulp x"
    by (simp add: abs_mult abs_of_pos)
  also have "\<dots> \<le> (1 / 2) * ulp x"
    by (intro mult_right_mono round_even_error) (simp add: less_imp_le)
  finally show ?thesis by simp
qed

lemma ulp_mono: "0 < x \<Longrightarrow> x \<le> y \<Longrightarrow> ulp x \<le> ulp y"
proof -
  assume "0 < x" "x \<le> y"
  then have "exponent_of x \<le> exponent_of y"
    using exponent_of_bounds [of x] exponent_of_bounds [of y]
      two_pow_mono [of "exponent_of y + 1" "exponent_of x"] by fastforce
  then show ?thesis by (simp add: ulp_def two_pow_mono)
qed

text \<open>A larger binade starts at a multiple of the smaller unit.\<close>

lemma grid_below: 
  assumes "0 < x" and "x \<le> of_int m * ulp x"
  shows "grid x \<le> of_int m * ulp x"
proof -
  have "x / ulp x \<le> of_int m" using assms ulp_pos [of x] by (simp add: field_simps)
  then have "round_even (x / ulp x) \<le> m" using round_even_mono [of "x / ulp x" "of_int m"] by simp
  then show ?thesis by (simp add: grid_def)
qed

lemma grid_above: 
  assumes "0 < x" and "of_int m * ulp x \<le> x"
  shows "of_int m * ulp x \<le> grid x"
proof -
  have "of_int m \<le> x / ulp x" using assms ulp_pos [of x] by (simp add: field_simps)
  then have "m \<le> round_even (x / ulp x)" using round_even_mono [of "of_int m" "x / ulp x"] by simp
  then show ?thesis by (simp add: grid_def)
qed

lemma grid_mono:
  assumes "0 < x" and "x \<le> y"
  shows "grid x \<le> grid y"
proof (cases "ulp x = ulp y")
  case True
  have "x / ulp y \<le> y / ulp y" using assms by (simp add: divide_right_mono less_imp_le)
  then have "round_even (x / ulp y) \<le> round_even (y / ulp y)" by (rule round_even_mono)
  then show ?thesis by (simp add: grid_def True)
next
  case False
  define e where "e = exponent_of y"
  have "ulp x < ulp y" using False ulp_mono [OF assms] by simp
  then have "\<not> max e (- 1022) \<le> max (exponent_of x) (- 1022)"
    using two_pow_mono [of "max e (- 1022) - 52" "max (exponent_of x) (- 1022) - 52"]
    unfolding ulp_def e_def by linarith
  then have e: "exponent_of x + 1 \<le> e" "- 1022 < e" and m: "max (exponent_of x) (- 1022) \<le> e - 1" by auto
  have ux: "\<exists>m. two_pow e = of_int m * ulp x"
  proof -
    define k where "k = e - (max (exponent_of x) (- 1022) - 52)"
    have "two_pow e = two_pow k * ulp x" by (simp add: ulp_def k_def flip: two_pow_add)
    moreover have "0 \<le> k" using m unfolding k_def by linarith
    then have "two_pow k = of_int (2 ^ nat k)" by (simp add: two_pow_def)
    ultimately show ?thesis by metis
  qed
  have uy: "\<exists>m. two_pow e = of_int m * ulp y"
  proof -
    have "two_pow e = two_pow 52 * ulp y" using e(2) by (simp add: ulp_def e_def flip: two_pow_add)
    moreover have "two_pow 52 = of_int (2 ^ 52)" by (simp add: two_pow_def)
    ultimately show ?thesis by metis
  qed
  have y: "0 < y" using assms by linarith
  have "x \<le> two_pow e" "two_pow e \<le> y"
    using exponent_of_bounds [OF assms(1)] two_pow_mono [OF e(1)] exponent_of_bounds [of y] assms
    by (auto simp: e_def)
  then have "grid x \<le> two_pow e" "two_pow e \<le> grid y"
    using grid_below [OF assms(1)] grid_above [OF y] ux uy by metis+
  then show ?thesis by linarith
qed

section \<open>Rounding as a whole\<close>

text \<open>Representable values are kept.\<close>

lemma round64_exact:
  assumes "two_pow e \<le> x" and "x < two_pow (e + 1)" and "- 1022 \<le> e" and "e < 1024"
    and "x = of_int m * two_pow (e - 52)"
  shows "round64 x = Fin x"
proof -
  have x: "0 < x" using assms(1) two_pow_pos [of e] by linarith
  have "exponent_of x = e" by (rule exponent_of_eq) fact+
  then have u: "ulp x = two_pow (e - 52)" using assms(3) by (simp add: ulp_def)
  then have "grid x = x" using assms(5) by (intro grid_exact [of x m]) simp
  moreover have "x < 2 ^ 1024"
    using assms(2) two_pow_mono [of "e + 1" 1024] assms(4) two_pow_nat [of 1024] by auto
  ultimately show ?thesis using x by (simp add: round64_def round_pos_grid)
qed

text \<open>The order is kept.\<close>

lemma grid_nonneg: "0 < x \<Longrightarrow> 0 \<le> grid x"
  by (simp add: grid_def round_even_nonneg less_imp_le)

lemma fleq_zero_round64: "0 \<le> x \<Longrightarrow> fleq fzero (round64 x)"
  by (auto simp: round64_def round_pos_grid fleq_def grid_nonneg)

lemma round64_mono:
  assumes "0 \<le> x" and "x \<le> y"
  shows "fleq (round64 x) (round64 y)"
proof (cases "x = 0")
  case True
  then show ?thesis using fleq_zero_round64 [of y] assms by (simp add: round64_def)
next
  case False
  then have "0 < x" "0 < y" using assms by auto
  then show ?thesis
    using grid_mono [of x y] assms by (auto simp: round64_def round_pos_grid fleq_def)
qed

text \<open>Within a binade the error is half a unit.\<close>

lemma round64_near:
  assumes "0 < x" and "x < two_pow (e + 1)" and "- 1022 \<le> e" and "e < 1000"
  shows "\<exists>q. round64 x = Fin q \<and> 0 \<le> q \<and> \<bar>q - x\<bar> \<le> two_pow (e - 52) / 2"
proof -
  have "exponent_of x \<le> e"
    using exponent_of_bounds [OF assms(1)] assms(2) two_pow_mono [of "e + 1" "exponent_of x"] by fastforce
  then have u: "ulp x \<le> two_pow (e - 52)" using assms(3) by (simp add: ulp_def two_pow_mono)
  have err: "\<bar>grid x - x\<bar> \<le> two_pow (e - 52) / 2" using grid_error [of x] u by linarith
  have "two_pow (e - 52) \<le> two_pow (e + 1)" by (intro two_pow_mono) simp
  then have "grid x < two_pow (e + 1) + two_pow (e + 1)"
    using err assms(2) two_pow_pos [of "e - 52"] by linarith
  also have "\<dots> = two_pow (e + 2)" using two_pow_Suc [of "e + 1"] by (simp add: add.commute)
  also have "\<dots> \<le> two_pow (int 1024)" using assms(4) by (intro two_pow_mono) simp
  finally have "grid x < 2 ^ 1024" by (simp only: two_pow_nat)
  then show ?thesis using err assms(1) grid_nonneg by (auto simp: round64_def round_pos_grid)
qed

lemma fleq_trans: "fleq x y \<Longrightarrow> fleq y z \<Longrightarrow> fleq x z"
  by (auto simp: fleq_def split: option.splits)

section \<open>Three decimals\<close>

text \<open>What a \<open>NUMERIC(4,3)\<close> column with a check between 0 and 1 yields as a \<open>float64\<close>.\<close>

definition stored_confidence :: "float64 \<Rightarrow> bool" where
  "stored_confidence c \<longleftrightarrow> (\<exists>k \<in> set [0..1000]. c = round64 (of_int k / 1000))"

lemma round64_1: "round64 1 = Fin 1"
  by (rule round64_exact [of 0 1 "2 ^ 52"]) (simp_all add: two_pow_def)

lemma round64_half: "round64 (1 / 2) = Fin (1 / 2)"
  by (rule round64_exact [of "-1" _ "2 ^ 52"]) (simp_all add: two_pow_def)

end
