(* ===== verification/DraftBuilder.thy ===== *)
theory DraftBuilder
  imports StrategySpec ClaimSignals Float64Rounding
begin

text \<open>
  \<open>internal/strategies/builder.go\<close>: from accepted claims to a draft specification. A Go map from
  names to running sums is an association list; ranging over it has no order the result could
  depend on, since the symbols are sorted afterwards. Sums are binary64 sums in claim order.
\<close>

record draft =
  dr_Spec :: spec
  dr_Claims :: "stored_claim list"

section \<open>Netting\<close>

definition signed_confidence :: "stored_claim \<Rightarrow> float64" where
  "signed_confidence c =
     (if sc_Direction c = ''positive'' then sc_Confidence c
      else if sc_Direction c = ''negative'' then fneg (sc_Confidence c)
      else fzero)"

type_synonym net = "(string \<times> float64) list"

text \<open>\<open>net[key] += value\<close>, where a missing key counts as zero.\<close>

fun net_add :: "string \<Rightarrow> float64 \<Rightarrow> net \<Rightarrow> net" where
  "net_add k v [] = [(k, fadd fzero v)]"
| "net_add k v ((k', x) # m) = (if k = k' then (k', fadd x v) # m else (k', x) # net_add k v m)"

definition net_get :: "net \<Rightarrow> string \<Rightarrow> float64" where
  "net_get m k = (case map_of m k of None \<Rightarrow> fzero | Some x \<Rightarrow> x)"

fun ticker_net :: "stored_claim list \<Rightarrow> net \<Rightarrow> net" where
  "ticker_net [] m = m"
| "ticker_net (c # cs) m =
     (case sc_Ticker c of
        None \<Rightarrow> ticker_net cs m
      | Some t \<Rightarrow> ticker_net cs (net_add t (signed_confidence c) m))"

definition net_ticker_symbols :: "stored_claim list \<Rightarrow> string list" where
  "net_ticker_symbols claims =
     sort_strings (map fst (filter (\<lambda>(symbol, score). fpos score) (ticker_net claims [])))"

fun theme_net :: "(string \<Rightarrow> string) \<Rightarrow> stored_claim list \<Rightarrow> net \<Rightarrow> net" where
  "theme_net ul [] m = m"
| "theme_net ul (c # cs) m =
     theme_net ul cs (fold (\<lambda>th. net_add (th_name th) (signed_confidence c)) (claim_themes ul c) m)"

definition net_macro_themes ::
    "(string \<Rightarrow> string) \<Rightarrow> stored_claim list \<Rightarrow> string list \<times> string list" where
  "net_macro_themes ul claims =
     (let net = theme_net ul claims [];
          chosen = filter (\<lambda>th. fpos (net_get net (th_name th))) macro_themes
      in (map th_name chosen, concat (map th_symbols chosen)))"

section \<open>The proposed specification\<close>

definition draft_slug :: "(string \<Rightarrow> string) \<Rightarrow> string \<Rightarrow> string list \<Rightarrow> string" where
  "draft_slug ul pre parts =
     (let joined = to_lower ul (pre @ ''-'' @ join ''-'' parts);
          sanitized = concat (map (\<lambda>r. case r of [c] \<Rightarrow> if slug_char c then [c] else ''-'' | _ \<Rightarrow> ''-'')
                                  (runes joined));
          cut = (if 64 < length sanitized then take 64 sanitized else sanitized)
      in trim_char (CHR ''-'') cut)"

definition minimum_confidence :: "stored_claim list \<Rightarrow> float64" where
  "minimum_confidence claims =
     foldl (\<lambda>m c. if fless (sc_Confidence c) m then sc_Confidence c else m) (Fin 1) claims"

text \<open>\<open>defaultSignalWeight\<close> is 0.25, exact in binary.\<close>

definition default_filters :: "stored_claim list \<Rightarrow> spec_filter list" where
  "default_filters claims =
     [\<lparr>flt_Field = ''claim_confidence'', flt_Operator = ''gte'',
       flt_Value = VFloat (fdiv (ffloor (fmul (minimum_confidence claims) (Fin 100))) (Fin 100))\<rparr>,
      \<lparr>flt_Field = ''claim_signal_weight'', flt_Operator = ''eq'', flt_Value = VFloat (Fin (1 / 4))\<rparr>,
      \<lparr>flt_Field = ''cash_policy'', flt_Operator = ''eq'', flt_Value = VString ''extend''\<rparr>]"

text \<open>The literal 0.2 is the nearest binary64 value, 3602879701896397 / 2^54.\<close>

definition default_risk :: risk where
  "default_risk =
     \<lparr>risk_MaxPositionWeight = Fin (3602879701896397 / 18014398509481984),
      risk_TransactionCostBps = Fin 5, risk_StopLossPct = None\<rparr>"

definition equity_draft :: "(string \<Rightarrow> string) \<Rightarrow> string list \<Rightarrow> stored_claim list \<Rightarrow> draft" where
  "equity_draft ul symbols claims =
     \<lparr>dr_Spec =
        \<lparr>spec_Slug = draft_slug ul ''research-momentum'' symbols, spec_Version = 1,
         spec_Name = ''Research draft: '' @ join '', '' symbols,
         spec_Universe = \<lparr>uni_Name = ''research-cited-equities'', uni_AssetClass = ''equity'',
                          uni_Symbols = symbols\<rparr>,
         spec_Selection = \<lparr>sel_Template = ''research-supported-momentum'',
                           sel_Filters = Some (default_filters claims)\<rparr>,
         spec_Rebalance = \<lparr>reb_Schedule = ''monthly''\<rparr>, spec_Risk = default_risk\<rparr>,
      dr_Claims = claims\<rparr>"

definition macro_draft ::
    "(string \<Rightarrow> string) \<Rightarrow> string list \<Rightarrow> string list \<Rightarrow> stored_claim list \<Rightarrow> draft" where
  "macro_draft ul themes symbols claims =
     \<lparr>dr_Spec =
        \<lparr>spec_Slug = draft_slug ul ''macro'' themes, spec_Version = 1,
         spec_Name = ''Macro theme draft: '' @ join '', '' themes,
         spec_Universe = \<lparr>uni_Name = ''macro-theme-etf-proxies'', uni_AssetClass = ''etf'',
                          uni_Symbols = symbols\<rparr>,
         spec_Selection = \<lparr>sel_Template = ''macro-theme-etf'',
                           sel_Filters = Some (default_filters claims)\<rparr>,
         spec_Rebalance = \<lparr>reb_Schedule = ''monthly''\<rparr>, spec_Risk = default_risk\<rparr>,
      dr_Claims = claims\<rparr>"

abbreviation accepted_claims :: "stored_claim list \<Rightarrow> stored_claim list" where
  "accepted_claims claims \<equiv> filter (\<lambda>c. sc_ValidationStatus c = ''accepted'') claims"

definition build_draft :: "(string \<Rightarrow> string) \<Rightarrow> stored_claim list \<Rightarrow> draft result" where
  "build_draft ul claims =
     (let accepted = accepted_claims claims in
      if accepted = [] then Inl (Errorf ''no accepted claims to build from'' [])
      else let ticker_symbols = net_ticker_symbols accepted in
        if ticker_symbols \<noteq> [] then Inr (equity_draft ul ticker_symbols accepted)
        else let (theme_names, theme_symbols) = net_macro_themes ul accepted in
          if theme_symbols = [] then
            Inl (Errorf ''accepted claims have no net-positive ticker or macro theme'' [])
          else Inr (macro_draft ul theme_names theme_symbols accepted))"

section \<open>Netting is long only\<close>

lemma map_of_net_add:
  "map_of (net_add k v m) = (map_of m)(k \<mapsto> fadd (net_get m k) v)"
  by (induction m) (auto simp: net_get_def fun_eq_iff)

lemma keys_net_add: "map fst (net_add k v m) = (if k \<in> fst ` set m then map fst m else map fst m @ [k])"
proof (induction m)
  case (Cons a m)
  then show ?case by (cases a) (simp add: if_distrib)
qed simp

lemma distinct_net_add: "distinct (map fst m) \<Longrightarrow> distinct (map fst (net_add k v m))"
  by (simp add: keys_net_add)

text \<open>A sum is positive only if it was already, or the term added is.\<close>

lemma fpos_net_add: "fpos (net_get (net_add k v m) j) \<Longrightarrow> fpos (net_get m j) \<or> (j = k \<and> fpos v)"
  by (auto simp: net_get_def map_of_net_add split: if_splits dest: fpos_fadd)

lemma distinct_ticker_net: "distinct (map fst m) \<Longrightarrow> distinct (map fst (ticker_net cs m))"
  by (induction cs arbitrary: m) (auto split: option.split intro: distinct_net_add)

lemma fpos_ticker_net:
  "fpos (net_get (ticker_net cs m) s) \<Longrightarrow>
     fpos (net_get m s) \<or> (\<exists>c \<in> set cs. sc_Ticker c = Some s \<and> fpos (signed_confidence c))"
  by (induction cs arbitrary: m) (auto split: option.splits dest!: fpos_net_add)

lemma fpos_fold_themes:
  "fpos (net_get (fold (\<lambda>th. net_add (th_name th) v) ths m) n) \<Longrightarrow>
     fpos (net_get m n) \<or> (n \<in> th_name ` set ths \<and> fpos v)"
  by (induction ths arbitrary: m) (auto dest!: fpos_net_add)

lemma fpos_theme_net:
  "fpos (net_get (theme_net ul cs m) n) \<Longrightarrow>
     fpos (net_get m n) \<or> (\<exists>c \<in> set cs. n \<in> th_name ` set (claim_themes ul c) \<and> fpos (signed_confidence c))"
proof (induction cs arbitrary: m)
  case (Cons c cs)
  then show ?case by (fastforce dest: fpos_fold_themes)
qed simp

lemma net_get_empty [simp]: "net_get [] k = fzero"
  by (simp add: net_get_def)

lemma net_ticker_symbols_iff:
  "s \<in> set (net_ticker_symbols cs) \<longleftrightarrow> fpos (net_get (ticker_net cs []) s)"
proof -
  have d: "distinct (map fst (ticker_net cs []))" by (simp add: distinct_ticker_net)
  then have "(s, x) \<in> set (ticker_net cs []) \<longleftrightarrow> map_of (ticker_net cs []) s = Some x" for x
    by simp
  then show ?thesis
    by (auto simp: net_ticker_symbols_def sort_strings_set net_get_def image_iff split: option.split)
qed

lemma net_ticker_symbols_distinct: "distinct (net_ticker_symbols cs)"
  using distinct_ticker_net [of "[]" cs]
  by (simp add: net_ticker_symbols_def sort_strings_distinct distinct_map_filter)

text \<open>
  A draft is long only and evidence-backed: the symbols \<open>netTickerSymbols\<close> proposes are sorted
  and pairwise different, each has a strictly positive net confidence over the claims given, and
  so at least one of those claims names it with a positive signed confidence; a ticker whose net
  is zero or negative is left out.
\<close>

lemma net_ticker_symbols_spec:
  "sorted (net_ticker_symbols cs) \<and> distinct (net_ticker_symbols cs)
   \<and> (\<forall>s. s \<in> set (net_ticker_symbols cs) \<longleftrightarrow> fpos (net_get (ticker_net cs []) s))
   \<and> (\<forall>s \<in> set (net_ticker_symbols cs). \<exists>c \<in> set cs. sc_Ticker c = Some s \<and> fpos (signed_confidence c))"
proof (intro conjI allI ballI)
  show "sorted (net_ticker_symbols cs)"
    by (simp add: net_ticker_symbols_def sort_strings_sorted)
next
  fix s assume "s \<in> set (net_ticker_symbols cs)"
  then show "\<exists>c \<in> set cs. sc_Ticker c = Some s \<and> fpos (signed_confidence c)"
    using fpos_ticker_net [of cs "[]" s] by (simp add: net_ticker_symbols_iff)
qed (simp_all add: net_ticker_symbols_distinct net_ticker_symbols_iff)

section \<open>Which drafts can be committed\<close>

text \<open>A slug built on a lower-case prefix is well formed, whatever the parts are.\<close>

lemma length_dropWhile_rev: "s = p @ r \<Longrightarrow> p \<noteq> [] \<Longrightarrow> last p \<noteq> c \<Longrightarrow>
    \<exists>t. trim_right_char c s = p @ t \<and> length t \<le> length r \<and> set t \<subseteq> set r"
proof -
  assume s: "s = p @ r" and p: "p \<noteq> []" "last p \<noteq> c"
  let ?d = "\<lambda>x. x = c"
  have "dropWhile ?d (rev s) = dropWhile ?d (rev r) @ rev p"
  proof (cases "\<exists>x \<in> set (rev r). x \<noteq> c")
    case True
    then show ?thesis using s by (auto simp: dropWhile_append1)
  next
    case False
    then have all: "\<And>x. x \<in> set (rev r) \<Longrightarrow> x = c" by blast
    then have "dropWhile ?d (rev r @ rev p) = dropWhile ?d (rev p)"
      by (rule dropWhile_append2)
    moreover have "dropWhile ?d (rev r) = []"
      using all by (subst dropWhile_eq_Nil_conv) auto
    ultimately have "dropWhile ?d (rev s) = dropWhile ?d (rev p)" and "dropWhile ?d (rev r) = []"
      using s by simp_all
    moreover have "dropWhile ?d (rev p) = rev p"
      using p by (cases p rule: rev_cases) auto
    ultimately show ?thesis by simp
  qed
  then have "trim_right_char c s = p @ rev (dropWhile ?d (rev r))"
    by (simp add: trim_right_char_def)
  moreover have "length (dropWhile ?d (rev r)) \<le> length r" "set (dropWhile ?d (rev r)) \<subseteq> set r"
    using length_dropWhile_le [of ?d "rev r"] set_dropWhileD [of _ ?d "rev r"] by auto
  ultimately show ?thesis by (intro exI [of _ "rev (dropWhile ?d (rev r))"]) simp
qed

lemma ascii_lower_id: "byte_in 97 122 c \<Longrightarrow> ascii_lower c = c"
  by (simp add: ascii_lower_def byte_in_def)

lemma slug_char_letter: "byte_in 97 122 c \<Longrightarrow> slug_char c \<and> code c < 128"
  by (simp add: slug_char_def byte_in_def)

abbreviation slug_rune :: "string \<Rightarrow> string" where
  "slug_rune r \<equiv> (case r of [c] \<Rightarrow> if slug_char c then [c] else ''-'' | _ \<Rightarrow> ''-'')"

lemma slug_rune_chars: "list_all slug_char (slug_rune r)"
  by (auto simp: slug_char_def split: list.splits)

lemma draft_slug_form:
  assumes "list_all (\<lambda>c. byte_in 97 122 c \<or> c = CHR ''-'') pre" and "byte_in 97 122 (hd pre)"
    and "byte_in 97 122 (last pre)" and "3 \<le> length pre" and "length pre \<le> 64"
  shows "\<exists>t. draft_slug ul pre parts = pre @ t \<and> length (pre @ t) \<le> 64 \<and> list_all slug_char t"
proof -
  have pre: "is_ascii pre" "map ascii_lower pre = pre" "list_all slug_char pre"
    using assms(1) by (auto simp: is_ascii_def list_all_iff slug_char_def byte_in_def ascii_lower_def
        intro!: map_idI)
  let ?low = "to_lower ul (''-'' @ join ''-'' parts)"
  have joined: "to_lower ul (pre @ ''-'' @ join ''-'' parts) = pre @ ?low"
    using to_lower_ascii_append [OF pre(1)] pre(2) by simp
  let ?rest = "concat (map slug_rune (runes ?low))"
  have same: "concat (map slug_rune (map (\<lambda>c. [c]) pre)) = pre"
    using pre(3) by (induction pre) auto
  have san: "concat (map slug_rune (runes (pre @ ?low))) = pre @ ?rest"
    using same by (simp add: runes_ascii_append [OF pre(1)])
  have rest: "list_all slug_char ?rest"
    using slug_rune_chars by (auto simp: list_all_iff)
  define cut where "cut = (if 64 < length (pre @ ?rest) then take 64 (pre @ ?rest) else pre @ ?rest)"
  obtain r where r: "cut = pre @ r" "list_all slug_char r" "length (pre @ r) \<le> 64"
  proof
    show "cut = pre @ take (64 - length pre) ?rest"
      using assms(5) by (auto simp: cut_def)
    show "list_all slug_char (take (64 - length pre) ?rest)"
      using rest unfolding list_all_iff by (blast dest: in_set_takeD)
  qed (use assms(5) in auto)
  have hd: "dropWhile (\<lambda>x. x = CHR ''-'') cut = cut"
    using assms(2,4) r(1) by (cases pre) (auto simp: byte_in_def)
  have "pre \<noteq> []" "last pre \<noteq> CHR ''-''"
    using assms(3,4) by (auto simp: byte_in_def)
  from length_dropWhile_rev [OF r(1) this] obtain t
    where t: "trim_right_char (CHR ''-'') cut = pre @ t" "length t \<le> length r" "set t \<subseteq> set r"
    by blast
  have "draft_slug ul pre parts = pre @ t"
    unfolding draft_slug_def Let_def joined san using hd t(1)
    by (simp add: trim_char_def cut_def)
  with t(2,3) r(2,3) show ?thesis by (auto simp: list_all_iff)
qed

lemma slug_pattern_form:
  assumes "byte_in 97 122 (hd s)" and "3 \<le> length s" and "length s \<le> 64" and "list_all slug_char s"
  shows "slug_pattern s"
  using assms by (cases s) (auto simp: slug_pattern_def)

lemma equity_slug: "slug_pattern (draft_slug ul ''research-momentum'' parts)"
  using draft_slug_form [of "''research-momentum''" ul parts]
  by (auto simp: byte_in_def slug_char_def intro!: slug_pattern_form)

lemma macro_slug: "slug_pattern (draft_slug ul ''macro'' parts)"
  using draft_slug_form [of "''macro''" ul parts]
  by (auto simp: byte_in_def slug_char_def intro!: slug_pattern_form)

lemma default_filters_ok:
  "\<forall>f \<in> set (default_filters cs). flt_Field f \<in> set filter_fields
     \<and> flt_Operator f \<in> set filter_operators \<and> scalar_value (flt_Value f)"
  by (simp add: default_filters_def filter_fields_def filter_operators_def)

lemma default_risk_ok: "risk_ok default_risk"
  by (simp add: risk_ok_def default_risk_def fless_def fleq_def)

lemma trim_space_literals:
  "trim_space ''research-cited-equities'' = ''research-cited-equities''"
  "trim_space ''macro-theme-etf-proxies'' = ''macro-theme-etf-proxies''"
  by (rule trim_space_printing; simp add: printing_def byte_in_def)+

lemma last_join: "ss \<noteq> [] \<Longrightarrow> last ss \<noteq> [] \<Longrightarrow> last (join sep ss) = last (last ss) \<and> join sep ss \<noteq> []"
  by (induction sep ss rule: join.induct) auto

text \<open>The name a draft proposes is never trimmed when it ends in a printing character.\<close>

lemma trim_space_name:
  assumes "p \<noteq> []" "printing (hd p)" and "ss \<noteq> []" "last ss \<noteq> []" "printing (last (last ss))"
  shows "trim_space (p @ join sep ss) = p @ join sep ss"
  using assms last_join [OF assms(3,4), of sep] by (intro trim_space_printing) (simp add: hd_append)

text \<open>
  C37 An equity draft passes \<open>Spec.Validate\<close> exactly when its symbols are well formed and the name
  it composes from them stays within 120 bytes: slug, filters and risk limits are always
  acceptable, so only the tickers the claims carry decide whether the draft can be committed.
\<close>

theorem equity_draft_committable:
  assumes "symbols \<noteq> []"
  shows "spec_validate (dr_Spec (equity_draft ul symbols claims)) = None \<longleftrightarrow>
    (\<forall>s \<in> set symbols. symbol_pattern s) \<and> length (''Research draft: '' @ join '', '' symbols) \<le> 120"
proof (cases "\<forall>s \<in> set symbols. symbol_pattern s")
  case True
  then have "symbol_pattern (last symbols)" using assms by simp
  then have "last symbols \<noteq> []" and "last (last symbols) \<in> set (last symbols)"
      and "list_all (\<lambda>c. byte_in 65 90 c \<or> c = CHR ''.'') (last symbols)"
    by (auto simp: symbol_pattern_def intro: last_in_set split: list.splits)
  moreover from this have "byte_in 65 90 (last (last symbols)) \<or> last (last symbols) = CHR ''.''"
    by (simp add: list_all_iff)
  ultimately have "last symbols \<noteq> []" "printing (last (last symbols))"
    by (auto simp: printing_def byte_in_def)
  then have "trim_space (''Research draft: '' @ join '', '' symbols) = ''Research draft: '' @ join '', '' symbols"
    using assms by (intro trim_space_name) (auto simp: printing_def byte_in_def)
  with True assms show ?thesis
    unfolding spec_validate_None spec_ok_def
    by (simp add: equity_draft_def equity_slug trim_space_literals valid_template_def spec_filters_def
        default_filters_ok default_risk_ok)
next
  case False
  then show ?thesis unfolding spec_validate_None spec_ok_def by (auto simp: equity_draft_def)
qed

text \<open>
  C38 A macro draft always passes \<open>Spec.Validate\<close>: whatever the claims, the themes that net
  positive give a well-formed slug, a name of acceptable length, and a universe drawn from the
  fixed table of ETF proxies.
\<close>

theorem macro_draft_committable:
  assumes "net_macro_themes ul claims = (names, symbols)" and "symbols \<noteq> []"
  shows "spec_validate (dr_Spec (macro_draft ul names symbols claims)) = None
    \<and> (\<forall>s \<in> set symbols. \<exists>th \<in> set macro_themes. s \<in> set (th_symbols th) \<and> th_name th \<in> set names)"
proof -
  define P where "P = (\<lambda>th :: macro_theme. fpos (net_get (theme_net ul claims []) (th_name th)))"
  have ns: "names = map th_name (filter P macro_themes)" "symbols = concat (map th_symbols (filter P macro_themes))"
    using assms(1) by (simp_all add: net_macro_themes_def Let_def P_def)
  have ne: "filter P macro_themes \<noteq> []"
  proof
    assume "filter P macro_themes = []"
    then show False using assms(2) unfolding ns(2) by simp
  qed
  have sym: "\<forall>s \<in> set symbols. symbol_pattern s"
    unfolding ns by (auto simp: macro_themes_def symbol_pattern_def byte_in_def split: if_splits)
  have "\<forall>n \<in> set (map th_name macro_themes). n \<noteq> [] \<and> printing (last n)"
    by (simp add: macro_themes_def printing_def byte_in_def)
  then have "\<forall>n \<in> set names. n \<noteq> [] \<and> printing (last n)"
    unfolding ns by auto
  moreover have "names \<noteq> []" using ne ns(1) by simp
  ultimately have "last names \<noteq> []" "printing (last (last names))" "names \<noteq> []"
    by simp_all
  then have "trim_space (''Macro theme draft: '' @ join '', '' names) = ''Macro theme draft: '' @ join '', '' names"
    by (intro trim_space_name) (auto simp: printing_def byte_in_def)
  moreover have "length (join '', '' names) \<le> 101"
    unfolding ns by (simp add: macro_themes_def)
  ultimately have "spec_validate (dr_Spec (macro_draft ul names symbols claims)) = None"
    unfolding spec_validate_None spec_ok_def using sym assms(2)
    by (simp add: macro_draft_def macro_slug trim_space_literals valid_template_def spec_filters_def
        default_filters_ok default_risk_ok)
  moreover have "\<forall>s \<in> set symbols. \<exists>th \<in> set macro_themes. s \<in> set (th_symbols th) \<and> th_name th \<in> set names"
    unfolding ns by auto
  ultimately show ?thesis by blast
qed

text \<open>
  \<open>BuildDraft\<close> uses accepted claims only. It fails exactly when no claim is accepted, or when no
  ticker and no macro theme nets positive; otherwise the draft's universe is the net-positive
  tickers when there are any and the proxies of the net-positive themes when there are none, and
  it is never empty.
\<close>

lemma build_draft_cases:
  "case build_draft ul claims of
     Inl e \<Rightarrow> accepted_claims claims = []
         \<or> net_ticker_symbols (accepted_claims claims) = []
           \<and> snd (net_macro_themes ul (accepted_claims claims)) = []
   | Inr d \<Rightarrow> dr_Claims d = accepted_claims claims
       \<and> uni_Symbols (spec_Universe (dr_Spec d)) \<noteq> []
       \<and> uni_Symbols (spec_Universe (dr_Spec d)) =
          (if net_ticker_symbols (accepted_claims claims) \<noteq> []
           then net_ticker_symbols (accepted_claims claims)
           else snd (net_macro_themes ul (accepted_claims claims)))"
  by (auto simp: build_draft_def Let_def equity_draft_def macro_draft_def
      split: if_splits prod.splits)

section \<open>The confidence threshold\<close>

definition threshold :: "float64 \<Rightarrow> float64" where
  "threshold m = fdiv (ffloor (fmul m (Fin 100))) (Fin 100)"

lemma two_pow_ulp: "two_pow (- 52) = 1 / 4503599627370496" "two_pow (- 46) = 1 / 70368744177664"
  by (simp_all add: two_pow_def)

lemma stored_confidence_1: "stored_confidence (Fin 1)"
  unfolding stored_confidence_def by (intro bexI [of _ 1000]) (simp_all add: round64_1)

lemma threshold_le_stored:
  assumes "stored_confidence c"
  shows "fleq (threshold c) c"
proof -
  obtain k where k: "0 \<le> k" "k \<le> 1000" "c = round64 (of_int k / 1000)"
    using assms by (auto simp: stored_confidence_def)
  show ?thesis
  proof (cases "k = 0")
    case True
    then show ?thesis using k
      by (simp add: threshold_def round64_def fmul_def fdiv_def fleq_def signed_def)
  next
    case False
    define x :: rat where "x = of_int k / 1000"
    have x: "0 < x" "x \<le> 1" using k False by (simp_all add: x_def)
    have "x < two_pow (0 + 1)" using x by (simp add: two_pow_def)
    from round64_near [OF x(1) this] obtain m
      where m: "round64 x = Fin m" "0 \<le> m" "\<bar>m - x\<bar> \<le> 1 / 9007199254740992"
      by (auto simp: two_pow_ulp)
    have "1 / 1000 \<le> x" using k False by (simp add: x_def)
    moreover have "m - x \<le> 1 / 9007199254740992" "x - m \<le> 1 / 9007199254740992"
      using m(3) unfolding abs_le_iff by linarith+
    ultimately have mb: "0 < m" "m < 128 / 100" using x by linarith+
    then have "100 * m < two_pow (6 + 1)" by (simp add: two_pow_def)
    moreover have "0 < 100 * m" using mb by simp
    ultimately obtain p where p: "round64 (100 * m) = Fin p" "0 \<le> p" "\<bar>p - 100 * m\<bar> \<le> 1 / 140737488355328"
      using round64_near [of "100 * m" 6] by (auto simp: two_pow_ulp)
    define j where "j = \<lfloor>p\<rfloor>"
    have j: "0 \<le> j" "of_int j \<le> p" using p(2) by (simp_all add: j_def)
    have "p - 100 * m \<le> 1 / 140737488355328" "m - x \<le> 1 / 9007199254740992"
      using p(3) m(3) unfolding abs_le_iff by linarith+
    then have "10 * of_int j < 1000 * x + 1" using j(2) by linarith
    then have "of_int (10 * j) < (of_int (k + 1) :: rat)" by (simp add: x_def)
    then have "10 * j \<le> k" by (simp only: of_int_less_iff)
    then have "of_int (10 * j) \<le> (of_int k :: rat)" by (simp only: of_int_le_iff)
    then have jx: "of_int j / 100 \<le> x" by (simp add: x_def)
    have th: "threshold c = (if j = 0 then fzero else round64 (of_int j / 100))"
      using m(1) mb p(1) j(1) k(3)
      by (simp add: threshold_def fmul_def fdiv_def signed_def j_def x_def mult.commute)
    have "fleq (threshold c) (round64 x)"
      using round64_mono [OF _ jx] fleq_zero_round64 [of x] j(1) x by (simp add: th)
    then show ?thesis using k(3) by (simp add: x_def)
  qed
qed

lemma stored_confidence_finite:
  assumes "stored_confidence z"
  shows "\<exists>q. z = Fin q"
proof -
  obtain k where k: "0 \<le> k" "k \<le> 1000" "z = round64 (of_int k / 1000)"
    using assms by (auto simp: stored_confidence_def)
  show ?thesis
  proof (cases "k = 0")
    case False
    then have "(0::rat) < of_int k / 1000" "of_int k / 1000 < two_pow (0 + 1)"
      using k by (simp_all add: two_pow_def)
    then show ?thesis using round64_near [of "of_int k / 1000" 0] k(3) by auto
  qed (use k in \<open>simp add: round64_def\<close>)
qed

lemma minimum_confidence_least:
  assumes "\<forall>c \<in> set claims. stored_confidence (sc_Confidence c)"
  shows "stored_confidence (minimum_confidence claims)
    \<and> (\<forall>c \<in> set claims. fleq (minimum_confidence claims) (sc_Confidence c))"
proof -
  have total: "stored_confidence x \<Longrightarrow> stored_confidence y \<Longrightarrow> \<not> fless x y \<Longrightarrow> fleq y x" for x y
    using stored_confidence_finite [of x] stored_confidence_finite [of y]
    by (auto simp: fless_def fleq_def)
  have refl: "stored_confidence x \<Longrightarrow> fleq x x" for x
    using total [of x x] by (cases x) (auto simp: fless_def fleq_def)
  let ?step = "\<lambda>m c. if fless (sc_Confidence c) m then sc_Confidence c else m"
  have "stored_confidence m \<Longrightarrow> \<forall>c \<in> set cs. stored_confidence (sc_Confidence c) \<Longrightarrow>
      stored_confidence (foldl ?step m cs) \<and> fleq (foldl ?step m cs) m
      \<and> (\<forall>c \<in> set cs. fleq (foldl ?step m cs) (sc_Confidence c))" for m :: float64 and cs :: "stored_claim list"
  proof (induction cs arbitrary: m)
    case Nil
    then show ?case using refl by simp
  next
    case (Cons c cs)
    let ?m = "?step m c"
    have "stored_confidence ?m" "fleq ?m m" "fleq ?m (sc_Confidence c)"
      using Cons.prems refl total [of "sc_Confidence c" m]
      by (auto simp: fless_def fleq_def split: option.splits)
    then show ?case using Cons.IH [of ?m] Cons.prems(2) by (auto intro: fleq_trans)
  qed
  then show ?thesis using assms stored_confidence_1 by (simp add: minimum_confidence_def)
qed

text \<open>
  C39 The \<open>claim_confidence\<close> filter a draft proposes never excludes a claim it was built from: for
  confidences as the database stores them (three decimals between 0 and 1, read as binary64), the
  threshold \<open>math.Floor(minimumConfidence(claims)*100) / 100\<close>, computed with every rounding of
  the machine, is at most the confidence of each claim.
\<close>

theorem draft_threshold:
  assumes "\<forall>c \<in> set claims. stored_confidence (sc_Confidence c)" and "c \<in> set claims"
  shows "\<exists>v. VFloat v = flt_Value (hd (default_filters claims)) \<and> fleq v (sc_Confidence c)"
proof -
  have "fleq (threshold (minimum_confidence claims)) (sc_Confidence c)"
    using minimum_confidence_least [OF assms(1)] assms(2) threshold_le_stored fleq_trans by blast
  then show ?thesis by (simp add: default_filters_def threshold_def)
qed

section \<open>The properties at concrete claims\<close>

lemma stored_confidence_half: "stored_confidence (Fin (1 / 2))"
  unfolding stored_confidence_def by (intro bexI [of _ 500]) (simp_all add: round64_half)

theorem draft_threshold_witness:
  "\<exists>v. VFloat v = flt_Value (hd (default_filters [sample_claim ''a'' None ''Yields rise.'' 6]))
     \<and> fleq v (sc_Confidence (sample_claim ''a'' None ''Yields rise.'' 6))"
  by (rule draft_threshold) (simp_all add: sample_claim_def stored_confidence_half)

theorem equity_draft_committable_witness:
  "spec_validate (dr_Spec (equity_draft keep_rune [''AAA'', ''BRK.B''] [])) = None
   \<and> spec_validate (dr_Spec (equity_draft keep_rune [''aaa''] [])) \<noteq> None"
  using equity_draft_committable [of "[''AAA'', ''BRK.B'']" keep_rune "[]"]
    equity_draft_committable [of "[''aaa'']" keep_rune "[]"]
  by (simp add: symbol_pattern_def byte_in_def)

lemma claim_themes_oil:
  "claim_themes keep_rune (sample_claim i t ''Oil'' e) =
     [\<lparr>th_name = ''oil'', th_keywords = [''oil'', ''crude'', ''opec'', ''brent'', ''wti'', ''energy''],
       th_symbols = [''USO'', ''XLE'']\<rparr>]"
proof -
  have "is_ascii ''Oil Oil''" "map ascii_lower ''Oil Oil'' = ''oil oil''" by code_simp+
  then have "to_lower keep_rune ''Oil Oil'' = ''oil oil''" by (simp only: to_lower_ascii)
  moreover have "filter (\<lambda>th. list_ex (contains ''oil oil'') (th_keywords th)) macro_themes =
     [\<lparr>th_name = ''oil'', th_keywords = [''oil'', ''crude'', ''opec'', ''brent'', ''wti'', ''energy''],
       th_symbols = [''USO'', ''XLE'']\<rparr>]" by code_simp
  ultimately show ?thesis by (simp add: claim_themes_def sample_claim_def)
qed

theorem macro_draft_committable_witness:
  "spec_validate (dr_Spec (macro_draft keep_rune [''oil''] [''USO'', ''XLE'']
     [sample_claim ''a'' None ''Oil'' 6])) = None"
proof -
  have "theme_net keep_rune [sample_claim ''a'' None ''Oil'' 6] [] = [(''oil'', Fin (1 / 2))]"
    unfolding theme_net.simps claim_themes_oil
    by (simp add: sample_claim_def signed_confidence_def round64_half)
  then have "net_macro_themes keep_rune [sample_claim ''a'' None ''Oil'' 6] = ([''oil''], [''USO'', ''XLE''])"
    by (simp add: net_macro_themes_def net_get_def macro_themes_def)
  from macro_draft_committable [OF this] show ?thesis by simp
qed

end
