(* ===== verification/Sql.thy ===== *)
theory Sql
  imports Domain Float64Rounding
begin

text \<open>
  The value conversions of the SQL the store's statements are written in, as PostgreSQL documents
  its types: a conversion gives the stored value, or the error that makes the statement fail.
  Instants are kept in microseconds, integers in 32 bits, text is UTF-8 without NUL, \<open>uuid\<close> has one
  canonical spelling, \<open>char(64)\<close> is padded with blanks, \<open>jsonb\<close> forgets duplicate keys and the order
  of keys, and \<open>numeric(4,3)\<close> rounds to three decimals.
\<close>

definition pg_error :: "string \<Rightarrow> err" where
  "pg_error what = External what"

section \<open>Text, instants, integers\<close>

text \<open>A rune of one byte is valid exactly when it is ASCII.\<close>

definition utf8_valid :: "string \<Rightarrow> bool" where
  "utf8_valid s \<longleftrightarrow> list_all (\<lambda>r. case r of [c] \<Rightarrow> code c < 128 | _ \<Rightarrow> True) (runes s)"

definition text_in :: "string \<Rightarrow> string result" where
  "text_in s =
     (if utf8_valid s \<and> list_all (\<lambda>c. code c \<noteq> 0) s then Inr s
      else Inl (pg_error ''invalid byte sequence for encoding UTF8''))"

definition ts_in :: "time \<Rightarrow> time" where
  "ts_in t = t - t mod 1000"

definition int4_in :: "int \<Rightarrow> int result" where
  "int4_in n =
     (if - 2147483648 \<le> n \<and> n \<le> 2147483647 then Inr n else Inl (pg_error ''integer out of range''))"

definition blank_padded :: "string \<Rightarrow> string" where
  "blank_padded s = s @ replicate (64 - length (runes s)) (CHR '' '')"

definition char64_in :: "string \<Rightarrow> string result" where
  "char64_in s =
     (case text_in s of
        Inl e \<Rightarrow> Inl e
      | Inr t \<Rightarrow>
          if length (runes t) \<le> 64 then Inr (blank_padded t)
          else if list_all (\<lambda>r. r = '' '') (drop 64 (runes t)) then Inr (concat (take 64 (runes t)))
          else Inl (pg_error ''value too long for type character(64)''))"

section \<open>uuid\<close>

definition hex_digit :: "char \<Rightarrow> bool" where
  "hex_digit c \<longleftrightarrow> byte_in 48 57 c \<or> byte_in 97 102 c \<or> byte_in 65 70 c"

text \<open>
  Sixteen pairs of hexadecimal digits; a hyphen may follow every second pair but the last.
  \<open>uuid_digits k s\<close> reads the pairs from number \<open>k\<close> on and returns the digits with the rest.
\<close>

fun uuid_digits :: "nat \<Rightarrow> string \<Rightarrow> (string \<times> string) option" where
  "uuid_digits 0 s = Some ([], s)"
| "uuid_digits (Suc left) (a # b # s) =
     (if hex_digit a \<and> hex_digit b then
        let s1 = (case s of c # r \<Rightarrow> if c = CHR ''-'' \<and> even left \<and> 0 < left then r else s | [] \<Rightarrow> s)
        in case uuid_digits left s1 of
             None \<Rightarrow> None
           | Some (ds, r) \<Rightarrow> Some (ascii_lower a # ascii_lower b # ds, r)
      else None)"
| "uuid_digits (Suc left) s = None"

definition uuid_text :: "string \<Rightarrow> string" where
  "uuid_text ds = take 8 ds @ ''-'' @ take 4 (drop 8 ds) @ ''-'' @ take 4 (drop 12 ds) @ ''-''
     @ take 4 (drop 16 ds) @ ''-'' @ drop 20 ds"

definition uuid_in :: "string \<Rightarrow> string result" where
  "uuid_in s =
     (let (braced, body) = (case s of c # r \<Rightarrow> if c = CHR ''{'' then (True, r) else (False, s) | [] \<Rightarrow> (False, s))
      in case uuid_digits 16 body of
           Some (ds, rest) \<Rightarrow>
             if rest = (if braced then ''}'' else []) then Inr (uuid_text ds)
             else Inl (pg_error ''invalid input syntax for type uuid'')
         | None \<Rightarrow> Inl (pg_error ''invalid input syntax for type uuid''))"

text \<open>Every element of an array parameter is converted.\<close>

fun all_in :: "('a \<Rightarrow> 'b result) \<Rightarrow> 'a list \<Rightarrow> 'b list result" where
  "all_in f [] = Inr []"
| "all_in f (x # xs) =
     (case f x of Inl e \<Rightarrow> Inl e
      | Inr y \<Rightarrow> (case all_in f xs of Inl e \<Rightarrow> Inl e | Inr ys \<Rightarrow> Inr (y # ys)))"

fun opt_in :: "('a \<Rightarrow> 'b result) \<Rightarrow> 'a option \<Rightarrow> 'b option result" where
  "opt_in f None = Inr None"
| "opt_in f (Some x) = (case f x of Inl e \<Rightarrow> Inl e | Inr y \<Rightarrow> Inr (Some y))"

lemma all_in_Inr: "all_in f xs = Inr ys \<longleftrightarrow> list_all2 (\<lambda>x y. f x = Inr y) xs ys"
  by (induction f xs arbitrary: ys rule: all_in.induct)
    (auto simp: list_all2_Cons1 split: sum.splits)

lemma all_in_length: "all_in f xs = Inr ys \<Longrightarrow> length ys = length xs"
  unfolding all_in_Inr by (simp add: list_all2_lengthD)

lemma all_in_fix: "\<forall>x \<in> set xs. f x = Inr x \<Longrightarrow> all_in f xs = Inr xs"
  by (induction xs) auto

section \<open>jsonb\<close>

definition key_before :: "string \<Rightarrow> string \<Rightarrow> bool" where
  "key_before a b \<longleftrightarrow> length a < length b \<or> (length a = length b \<and> a < b)"

fun jsonb_put :: "string \<Rightarrow> json \<Rightarrow> (string \<times> json) list \<Rightarrow> (string \<times> json) list" where
  "jsonb_put k v [] = [(k, v)]"
| "jsonb_put k v ((k', v') # m) =
     (if k = k' then (k, v) # m
      else if key_before k k' then (k, v) # (k', v') # m
      else (k', v') # jsonb_put k v m)"

fun jsonb_of :: "json \<Rightarrow> json" and
    jsonb_items :: "json list \<Rightarrow> json list" and
    jsonb_fields :: "(string \<times> json) list \<Rightarrow> (string \<times> json) list \<Rightarrow> (string \<times> json) list" where
  "jsonb_of (JArray js) = JArray (jsonb_items js)"
| "jsonb_of (JObject kvs) = JObject (jsonb_fields [] kvs)"
| "jsonb_of (JInt n) = JInt n"
| "jsonb_of (JFloat q) = JFloat q"
| "jsonb_of (JString s) = JString s"
| "jsonb_of (JBool b) = JBool b"
| "jsonb_of JNull = JNull"
| "jsonb_items [] = []"
| "jsonb_items (j # js) = jsonb_of j # jsonb_items js"
| "jsonb_fields m [] = m"
| "jsonb_fields m ((k, j) # kvs) = jsonb_fields (jsonb_put k (jsonb_of j) m) kvs"

fun text_free_of_nul :: "json \<Rightarrow> bool" and
    items_free_of_nul :: "json list \<Rightarrow> bool" and
    fields_free_of_nul :: "(string \<times> json) list \<Rightarrow> bool" where
  "text_free_of_nul (JString s) = (list_all (\<lambda>c. code c \<noteq> 0) s \<and> utf8_valid s)"
| "text_free_of_nul (JArray js) = items_free_of_nul js"
| "text_free_of_nul (JObject kvs) = fields_free_of_nul kvs"
| "text_free_of_nul j = True"
| "items_free_of_nul [] = True"
| "items_free_of_nul (j # js) = (text_free_of_nul j \<and> items_free_of_nul js)"
| "fields_free_of_nul [] = True"
| "fields_free_of_nul ((k, j) # kvs) =
     (list_all (\<lambda>c. code c \<noteq> 0) k \<and> utf8_valid k \<and> text_free_of_nul j \<and> fields_free_of_nul kvs)"

definition jsonb_in :: "raw_message \<Rightarrow> raw_message result" where
  "jsonb_in r =
     (case r of
        Raw j \<Rightarrow> if text_free_of_nul j then Inr (Raw (jsonb_of j))
                 else Inl (pg_error ''unsupported Unicode escape sequence'')
      | _ \<Rightarrow> Inl (pg_error ''invalid input syntax for type json''))"

text \<open>\<open>jsonb_set(j, '{key}', v)\<close> on an object; on a scalar it is an error, on an array a bad index.\<close>

definition jsonb_set :: "raw_message \<Rightarrow> string \<Rightarrow> json \<Rightarrow> raw_message result" where
  "jsonb_set r k v =
     (case r of
        Raw (JObject kvs) \<Rightarrow> Inr (Raw (JObject (jsonb_put k v kvs)))
      | Raw (JArray js) \<Rightarrow> Inl (pg_error ''path element is not an integer'')
      | _ \<Rightarrow> Inl (pg_error ''cannot set path in scalar''))"

lemma map_of_jsonb_put: "map_of (jsonb_put k v m) = (map_of m)(k \<mapsto> v)"
  by (induction m) (auto simp: fun_eq_iff)

lemma jsonb_put_keys: "fst ` set (jsonb_put k v m) = insert k (fst ` set m)"
  using map_of_jsonb_put [of k v m] by (metis dom_fun_upd dom_map_of_conv_image_fst option.distinct(1))

lemma key_before_irrefl [simp]: "\<not> key_before k k"
  by (simp add: key_before_def)

lemma key_before_trans: "key_before a b \<Longrightarrow> key_before b c \<Longrightarrow> key_before a c"
  by (auto simp: key_before_def)

lemma key_before_total: "a \<noteq> b \<Longrightarrow> \<not> key_before a b \<Longrightarrow> key_before b a"
  by (auto simp: key_before_def)

text \<open>A \<open>jsonb\<close> object: keys ascending in \<open>key_before\<close>, hence pairwise different.\<close>

definition ordered_keys :: "(string \<times> json) list \<Rightarrow> bool" where
  "ordered_keys m \<longleftrightarrow> sorted_wrt key_before (map fst m)"

lemma ordered_keys_put: "ordered_keys m \<Longrightarrow> ordered_keys (jsonb_put k v m)"
proof (induction m)
  case (Cons a m)
  obtain k' v' where a: "a = (k', v')" by fastforce
  have ks: "set (map fst (jsonb_put k v m)) = insert k (set (map fst m))"
    using jsonb_put_keys by simp
  show ?case
    using Cons ks unfolding a ordered_keys_def
    by (auto simp: image_iff intro: key_before_trans key_before_total)
qed (simp add: ordered_keys_def)

lemma ordered_keys_fields: "ordered_keys m \<Longrightarrow> ordered_keys (jsonb_fields m kvs)"
proof (induction kvs arbitrary: m)
  case (Cons a kvs)
  then show ?case by (cases a) (simp add: ordered_keys_put)
qed simp

lemma map_of_jsonb_fields:
  "map_of (jsonb_fields m kvs) k =
     (case map_of (rev kvs) k of Some j \<Rightarrow> Some (jsonb_of j) | None \<Rightarrow> map_of m k)"
  by (induction kvs arbitrary: m) (auto simp: map_of_jsonb_put map_add_def split: option.splits)

section \<open>numeric(4,3)\<close>

text \<open>
  The shortest decimal that reads back as the same number, as \<open>strconv.FormatFloat\<close> with precision
  -1 finds it: the fewest decimals (fewer than none are trailing zeros) at which one of the two
  decimals around the number reads back, the nearer one where both do. No number has its last digit
  above its integer part, and a binary64 value is itself a decimal of at most 1074 places.
\<close>

definition ten_pow :: "int \<Rightarrow> rat" where
  "ten_pow e = (if 0 \<le> e then 10 ^ nat e else 1 / 10 ^ nat (- e))"

definition decimal_at :: "int \<Rightarrow> rat \<Rightarrow> rat option" where
  "decimal_at places q =
     (let s = q * ten_pow places; near = round_even s; other = (if of_int near \<le> s then near + 1 else near - 1)
      in if round64 (of_int near / ten_pow places) = Fin q then Some (of_int near / ten_pow places)
         else if round64 (of_int other / ten_pow places) = Fin q then Some (of_int other / ten_pow places)
         else None)"

fun shortest_from :: "nat \<Rightarrow> int \<Rightarrow> rat \<Rightarrow> rat" where
  "shortest_from 0 places q = q"
| "shortest_from (Suc n) places q =
     (case decimal_at places q of Some d \<Rightarrow> d | None \<Rightarrow> shortest_from n (places + 1) q)"

definition shortest_decimal :: "rat \<Rightarrow> rat" where
  "shortest_decimal q = shortest_from 1100 (- int (length (digits_of (nat \<lfloor>\<bar>q\<bar>\<rfloor>)))) q"

lemma decimal_at_reads_back: "decimal_at p q = Some d \<Longrightarrow> round64 d = Fin q"
  by (auto simp: decimal_at_def Let_def split: if_splits)

lemma shortest_from_reads_back: "round64 q = Fin q \<Longrightarrow> round64 (shortest_from n p q) = Fin q"
  by (induction n p q rule: shortest_from.induct) (auto split: option.split dest: decimal_at_reads_back)

lemma shortest_decimal_reads_back: "round64 q = Fin q \<Longrightarrow> round64 (shortest_decimal q) = Fin q"
  by (simp only: shortest_decimal_def shortest_from_reads_back)

lemma shortest_units: "shortest_decimal 0 = 0" "shortest_decimal 1 = 1"
proof -
  obtain m :: nat where m: "1100 = Suc (Suc m)" using that [of 1098] by simp
  have round64_0: "round64 0 = Fin 0" by (simp add: round64_def)
  have ten: "round64 10 = Fin 10"
    by (rule round64_exact [of 3 10 "10 * 2 ^ 49"]) (simp_all add: two_pow_def)
  have "decimal_at p 0 = Some 0" for p
    by (simp add: decimal_at_def round64_def round_even_def)
  then show "shortest_decimal 0 = 0"
    unfolding shortest_decimal_def m by simp
  have near: "round_even (1 / 10) = 0" by (simp add: round_even_def Let_def) linarith
  have "decimal_at (- 1) 1 = None" "decimal_at 0 1 = Some 1"
    using round_even_of_int [of 1] by (simp_all add: decimal_at_def ten_pow_def near ten round64_1 round64_0 Let_def)
  moreover have "length (digits_of 1) = 1" by (simp add: digits_of.simps)
  ultimately show "shortest_decimal 1 = 1"
    unfolding shortest_decimal_def m by simp
qed

text \<open>The driver sends a \<open>float64\<close> to \<open>numeric(4,3)\<close> as that decimal.\<close>

definition round_half_away :: "rat \<Rightarrow> int" where
  "round_half_away x = (if 0 \<le> x then \<lfloor>x + 1 / 2\<rfloor> else - \<lfloor>- x + 1 / 2\<rfloor>)"

text \<open>With the column's check that the value is between 0 and 1.\<close>

definition confidence_in :: "float64 \<Rightarrow> float64 result" where
  "confidence_in c =
     (case finite_val c of
        None \<Rightarrow> Inl (pg_error ''numeric field overflow'')
      | Some q \<Rightarrow>
          let k = round_half_away (shortest_decimal q * 1000) in
          if 0 \<le> k \<and> k \<le> 1000 then Inr (round64 (of_int k / 1000))
          else Inl (pg_error ''violates check constraint research_claims_confidence_check''))"

lemma confidence_in_stored: "confidence_in c = Inr x \<Longrightarrow> stored_confidence x"
  by (auto simp: confidence_in_def stored_confidence_def Let_def split: option.splits if_splits)

section \<open>date and double precision\<close>

definition nanos_per_day :: int where "nanos_per_day = 86400 * 1000000000"

text \<open>The day of an instant, as the instant at its midnight.\<close>

definition date_of_time :: "time \<Rightarrow> time" where
  "date_of_time t = t - t mod nanos_per_day"

text \<open>\<open>weight > 0\<close> on \<open>double precision\<close>, where NaN is above every number.\<close>

definition pg_positive :: "float64 \<Rightarrow> bool" where
  "pg_positive x \<longleftrightarrow> x = NaN \<or> fpos x"

end
