(* ===== verification/Dates.thy ===== *)
theory Dates
  imports Sql
begin

text \<open>
  Calendar dates: \<open>time.Parse("2006-01-02", s)\<close> gives midnight UTC of the day, as nanoseconds since
  the zero time 0001-01-01. The layout wants four digits, two and two; the day must exist.
\<close>

definition digit :: "char \<Rightarrow> int option" where
  "digit c = (if byte_in 48 57 c then Some (int (code c) - 48) else None)"

fun number :: "int \<Rightarrow> string \<Rightarrow> int option" where
  "number acc [] = Some acc"
| "number acc (c # cs) = (case digit c of None \<Rightarrow> None | Some d \<Rightarrow> number (10 * acc + d) cs)"

definition leap_year :: "int \<Rightarrow> bool" where
  "leap_year y \<longleftrightarrow> y mod 4 = 0 \<and> (y mod 100 \<noteq> 0 \<or> y mod 400 = 0)"

definition days_in_month :: "int \<Rightarrow> int \<Rightarrow> int" where
  "days_in_month y m =
     (if m = 2 then (if leap_year y then 29 else 28)
      else if m \<in> {4, 6, 9, 11} then 30 else 31)"

definition days_before_year :: "int \<Rightarrow> int" where
  "days_before_year y = 365 * (y - 1) + (y - 1) div 4 - (y - 1) div 100 + (y - 1) div 400"

definition days_before_month :: "int \<Rightarrow> int \<Rightarrow> int" where
  "days_before_month y m = sum_list (map (days_in_month y) [1..m - 1])"

definition midnight :: "int \<Rightarrow> int \<Rightarrow> int \<Rightarrow> time" where
  "midnight y m d = (days_before_year y + days_before_month y m + (d - 1)) * nanos_per_day"

definition date_fields :: "string \<Rightarrow> (int \<times> int \<times> int) option" where
  "date_fields s =
     (if length s = 10 \<and> s ! 4 = CHR ''-'' \<and> s ! 7 = CHR ''-'' then
        case (number 0 (take 4 s), number 0 (take 2 (drop 5 s)), number 0 (drop 8 s)) of
          (Some y, Some m, Some d) \<Rightarrow>
            if 1 \<le> m \<and> m \<le> 12 \<and> 1 \<le> d \<and> d \<le> days_in_month y m then Some (y, m, d) else None
        | _ \<Rightarrow> None
      else None)"

definition parse_date :: "string \<Rightarrow> time option" where
  "parse_date s = map_option (\<lambda>(y, m, d). midnight y m d) (date_fields s)"

text \<open>
  The \<open>date\<close> column: \<open>text::date\<close> of a date in this layout, and the column's text again. PostgreSQL
  reads more layouts; the dates the program sends have passed \<open>time.Parse\<close>. It has no year 0.
\<close>

definition date_in :: "string \<Rightarrow> string result" where
  "date_in s =
     (case date_fields s of
        Some (y, m, d) \<Rightarrow> if 1 \<le> y then Inr s else Inl (pg_error ''date/time field value out of range'')
      | None \<Rightarrow> Inl (pg_error ''invalid input syntax for type date''))"

section \<open>Dates are ordered as their text\<close>

text \<open>Within a year, an earlier month or day comes earlier.\<close>

lemma days_before_month_Suc: "1 \<le> m \<Longrightarrow> days_before_month y (m + 1) = days_before_month y m + days_in_month y m"
proof -
  assume "1 \<le> m"
  then have "[1..m] = [1..m - 1] @ [m]" using upto_rec2 [of 1 m] by simp
  then show ?thesis by (simp add: days_before_month_def)
qed

lemma days_in_month_bounds: "28 \<le> days_in_month y m \<and> days_in_month y m \<le> 31"
  by (simp add: days_in_month_def)

lemma days_before_month_mono:
  assumes "1 \<le> m" and "m < m'"
  shows "days_before_month y m + days_in_month y m \<le> days_before_month y m'"
  using assms(2)
proof (induction m' rule: int_gr_induct)
  case base
  then show ?case using days_before_month_Suc [OF assms(1)] by simp
next
  case (step i)
  then show ?case
    using days_before_month_Suc [of i y] assms(1) days_in_month_bounds [of y i] by simp
qed

lemma days_before_month_13: "days_before_month y 13 = (if leap_year y then 366 else 365)"
proof -
  have "[1..12::int] = [1, 2, 3, 4, 5, 6, 7, 8, 9, 10, 11, 12]" by (simp add: upto.simps)
  then show ?thesis by (simp add: days_before_month_def days_in_month_def)
qed

lemma year_sum:
  fixes y :: int
  assumes "q4 = p4 + (if A then 1 else 0)" and "q100 = p100 + (if B then 1 else 0)"
    and "q400 = p400 + (if C then 1 else 0)" and "B \<longrightarrow> A" and "C \<longrightarrow> B"
  shows "365 * y + q4 - q100 + q400 = 365 * (y - 1) + p4 - p100 + p400 + (if A \<and> (\<not> B \<or> C) then 366 else 365)"
  using assms by (cases A; cases B; cases C) simp_all

lemma days_before_year_Suc: "days_before_year (y + 1) = days_before_year y + (if leap_year y then 366 else 365)"
proof -
  have "y div n = (y - 1) div n + (if y mod n = 0 then 1 else 0)" if "0 < n" for n :: int
  proof (cases "y mod n = 0")
    case True
    then obtain k where k: "y = n * k" by auto
    then have "(n * k - 1) div n = k - 1"
      using that by (intro int_div_pos_eq [where r = "n - 1"]) (auto simp: algebra_simps)
    with k that True show ?thesis by simp
  next
    case False
    then have "1 \<le> y mod n" "y mod n < n"
      using that pos_mod_sign [of n y] pos_mod_bound [of n y] by linarith+
    then have "(y - 1) div n = y div n"
      by (intro int_div_pos_eq [where r = "y mod n - 1"]) (simp_all add: algebra_simps)
    with False show ?thesis by simp
  qed
  note step = this
  have sub: "y mod 100 = 0 \<longrightarrow> y mod 4 = 0" "y mod 400 = 0 \<longrightarrow> y mod 100 = 0" by presburger+
  have "365 * y + y div 4 - y div 100 + y div 400 = 365 * (y - 1) + (y - 1) div 4 - (y - 1) div 100 + (y - 1) div 400
      + (if y mod 4 = 0 \<and> (y mod 100 \<noteq> 0 \<or> y mod 400 = 0) then 366 else 365)"
    by (rule year_sum [OF step step step sub]) simp_all
  then show ?thesis by (simp only: days_before_year_def leap_year_def add_diff_cancel_right')
qed

lemma days_before_year_mono:
  assumes "y < y'"
  shows "days_before_year y + days_before_month y 13 \<le> days_before_year y'"
  using assms
proof (induction y' rule: int_gr_induct)
  case base
  then show ?case by (simp add: days_before_year_Suc days_before_month_13)
next
  case (step i)
  then show ?case using days_before_year_Suc [of i] by (simp split: if_splits)
qed

lemma midnight_less:
  assumes "y < y' \<or> (y = y' \<and> (m < m' \<or> (m = m' \<and> d < d')))" and "1 \<le> m" "m \<le> 12" "1 \<le> d" "d \<le> days_in_month y m"
    and "1 \<le> m'" "1 \<le> d'"
  shows "midnight y m d < midnight y' m' d'"
proof -
  have ym: "days_before_month y m + d \<le> days_before_month y 13"
    using days_before_month_mono [of m 13 y] assms by simp
  have "0 \<le> days_before_month y' m'"
    unfolding days_before_month_def by (rule sum_list_nonneg) (auto simp: days_in_month_def)
  then have "days_before_year y + days_before_month y m + (d - 1)
      < days_before_year y' + days_before_month y' m' + (d' - 1)"
    using assms(1) ym days_before_year_mono [of y y'] days_before_month_mono [OF assms(2), of m' y] assms
    by (cases "y < y'"; cases "m < m'") auto
  then show ?thesis by (simp add: midnight_def nanos_per_day_def)
qed

end
