(* ===== verification/JsonCodec.thy ===== *)
theory JsonCodec
  imports Dates
begin

text \<open>
  \<open>encoding/json\<close> as the program uses it: decoding a value into a struct field by field, encoding
  floats, and \<open>time.Time\<close> in RFC 3339. A key that occurs twice is decoded twice into the same field;
  a slice is decoded afresh. A timestamp is taken to be spelled without escapes.
\<close>

section \<open>RFC 3339\<close>

text \<open>
  \<open>time.Parse(time.RFC3339, s)\<close>, which is also what \<open>Time.UnmarshalJSON\<close> accepts: one digit is
  enough for the hour, a comma may stand for the point, fractions are cut to nanoseconds.
\<close>

definition lit :: "char \<Rightarrow> string \<Rightarrow> string option" where
  "lit c s = (case s of [] \<Rightarrow> None | d # r \<Rightarrow> if d = c then Some r else None)"

definition digits_at :: "nat \<Rightarrow> string \<Rightarrow> (int \<times> string) option" where
  "digits_at n s =
     (if length s < n then None
      else case number 0 (take n s) of None \<Rightarrow> None | Some k \<Rightarrow> Some (k, drop n s))"

definition hour_at :: "string \<Rightarrow> (int \<times> string) option" where
  "hour_at s = (case digits_at 2 s of Some r \<Rightarrow> Some r | None \<Rightarrow> digits_at 1 s)"

definition digit_char :: "char \<Rightarrow> bool" where
  "digit_char c \<longleftrightarrow> digit c \<noteq> None"

definition fraction_at :: "string \<Rightarrow> int \<times> string" where
  "fraction_at s =
     (case s of
        c # r \<Rightarrow>
          if (c = CHR ''.'' \<or> c = CHR '','') \<and> takeWhile digit_char r \<noteq> [] then
            let ds = take 9 (takeWhile digit_char r)
            in (case number 0 ds of Some k \<Rightarrow> k * 10 ^ (9 - length ds) | None \<Rightarrow> 0, dropWhile digit_char r)
          else (0, s)
      | [] \<Rightarrow> (0, s))"

text \<open>The offset from UTC in seconds; nothing may follow it.\<close>

definition zone_at :: "string \<Rightarrow> int option" where
  "zone_at s =
     (if s = ''Z'' then Some 0
      else if length s = 6 \<and> s ! 0 \<in> {CHR ''+'', CHR ''-''} \<and> s ! 3 = CHR '':'' then
        (case (number 0 (take 2 (drop 1 s)), number 0 (drop 4 s)) of
           (Some h, Some m) \<Rightarrow>
             if h \<le> 24 \<and> m \<le> 60 then Some ((if s ! 0 = CHR ''-'' then -1 else 1) * (h * 3600 + m * 60)) else None
         | _ \<Rightarrow> None)
      else None)"

definition clock_at :: "string \<Rightarrow> int option" where
  "clock_at s =
     (case hour_at s of None \<Rightarrow> None | Some (h, s1) \<Rightarrow>
      case lit (CHR '':'') s1 of None \<Rightarrow> None | Some s2 \<Rightarrow>
      case digits_at 2 s2 of None \<Rightarrow> None | Some (mi, s3) \<Rightarrow>
      case lit (CHR '':'') s3 of None \<Rightarrow> None | Some s4 \<Rightarrow>
      case digits_at 2 s4 of None \<Rightarrow> None | Some (se, s5) \<Rightarrow>
      case fraction_at s5 of (ns, s6) \<Rightarrow>
      case zone_at s6 of None \<Rightarrow> None | Some off \<Rightarrow>
        if h < 24 \<and> mi < 60 \<and> se < 60 then Some ((h * 3600 + mi * 60 + se - off) * 1000000000 + ns) else None)"

definition parse_rfc3339 :: "string \<Rightarrow> time option" where
  "parse_rfc3339 s =
     (case parse_date (take 10 s) of None \<Rightarrow> None | Some day \<Rightarrow>
      case lit (CHR ''T'') (drop 10 s) of None \<Rightarrow> None | Some s1 \<Rightarrow>
      map_option (\<lambda>t. day + t) (clock_at s1))"

section \<open>Field names\<close>

text \<open>A key matches a field by its exact name, or else by its case-folded name.\<close>

definition ascii_upper :: "char \<Rightarrow> char" where
  "ascii_upper c = (if byte_in 97 122 c then char_of (code c - 32) else c)"

definition fold_rune :: "string \<Rightarrow> string" where
  "fold_rune r =
     (if r = map char_of [197, 191 :: nat] then ''S''
      else if r = map char_of [226, 132, 170 :: nat] then ''K''
      else map ascii_upper r)"

definition fold_name :: "string \<Rightarrow> string" where
  "fold_name s = concat (map fold_rune (runes s))"

definition find_field :: "(string \<times> 'f) list \<Rightarrow> string \<Rightarrow> 'f option" where
  "find_field fs k =
     (case map_of fs k of
        Some f \<Rightarrow> Some f
      | None \<Rightarrow> map_of (map (\<lambda>(n, f). (fold_name n, f)) fs) (fold_name k))"

section \<open>Decoding\<close>

definition json_error :: err where
  "json_error = External ''json''"

text \<open>A field reads a value into the struct; \<open>null\<close> leaves a field of a plain type as it is.\<close>

type_synonym 'r field = "json \<Rightarrow> 'r \<Rightarrow> 'r result"

definition dec_string :: "(string \<Rightarrow> 'r \<Rightarrow> 'r) \<Rightarrow> 'r field" where
  "dec_string put j r = (case j of JString s \<Rightarrow> Inr (put s r) | JNull \<Rightarrow> Inr r | _ \<Rightarrow> Inl json_error)"

definition int64_range :: "int \<Rightarrow> bool" where
  "int64_range n \<longleftrightarrow> - 9223372036854775808 \<le> n \<and> n \<le> 9223372036854775807"

definition dec_int :: "(int \<Rightarrow> 'r \<Rightarrow> 'r) \<Rightarrow> 'r field" where
  "dec_int put j r =
     (case j of
        JInt n \<Rightarrow> if int64_range n then Inr (put n r) else Inl json_error
      | JNull \<Rightarrow> Inr r
      | _ \<Rightarrow> Inl json_error)"

definition float_of_json :: "json \<Rightarrow> float64 result" where
  "float_of_json j =
     (case (case j of JInt n \<Rightarrow> Some (of_int n) | JFloat q \<Rightarrow> Some q | _ \<Rightarrow> None) of
        None \<Rightarrow> Inl json_error
      | Some q \<Rightarrow> if finite_val (round64 q) = None then Inl json_error else Inr (round64 q))"

definition dec_float :: "(float64 \<Rightarrow> 'r \<Rightarrow> 'r) \<Rightarrow> 'r field" where
  "dec_float put j r =
     (if j = JNull then Inr r
      else case float_of_json j of Inl e \<Rightarrow> Inl e | Inr x \<Rightarrow> Inr (put x r))"

definition dec_time :: "(time \<Rightarrow> 'r \<Rightarrow> 'r) \<Rightarrow> 'r field" where
  "dec_time put j r =
     (case j of
        JString s \<Rightarrow> (case parse_rfc3339 s of Some t \<Rightarrow> Inr (put t r) | None \<Rightarrow> Inl json_error)
      | JNull \<Rightarrow> Inr r
      | _ \<Rightarrow> Inl json_error)"

text \<open>A pointer field becomes nil on \<open>null\<close>.\<close>

definition dec_pointer :: "(('a \<Rightarrow> 'a option \<Rightarrow> 'a option) \<Rightarrow> 'a option field) \<Rightarrow> ('a option \<Rightarrow> 'r \<Rightarrow> 'r) \<Rightarrow> 'r field" where
  "dec_pointer dec put j r =
     (if j = JNull then Inr (put None r)
      else case dec (\<lambda>x _. Some x) j None of Inl e \<Rightarrow> Inl e | Inr x \<Rightarrow> Inr (put x r))"

definition dec_raw :: "(raw_message \<Rightarrow> 'r \<Rightarrow> 'r) \<Rightarrow> 'r field" where
  "dec_raw put j r = Inr (put (Raw j) r)"

text \<open>A slice becomes nil on \<open>null\<close>; \<open>elem\<close> reads an element from its zero value.\<close>

definition dec_slice :: "(json \<Rightarrow> 'a result) \<Rightarrow> ('a list option \<Rightarrow> 'r \<Rightarrow> 'r) \<Rightarrow> 'r field" where
  "dec_slice elem put j r =
     (case j of
        JArray js \<Rightarrow> (case all_in elem js of Inl e \<Rightarrow> Inl e | Inr xs \<Rightarrow> Inr (put (Some xs) r))
      | JNull \<Rightarrow> Inr (put None r)
      | _ \<Rightarrow> Inl json_error)"

text \<open>Where nil and the empty slice are not told apart.\<close>

definition items :: "'a list option \<Rightarrow> 'a list" where
  "items xs = (case xs of None \<Rightarrow> [] | Some ys \<Rightarrow> ys)"

definition string_elem :: "json \<Rightarrow> string result" where
  "string_elem j = dec_string (\<lambda>s _. s) j []"

text \<open>A struct; \<open>strict\<close> is \<open>DisallowUnknownFields\<close>.\<close>

fun dec_fields :: "bool \<Rightarrow> (string \<times> 'r field) list \<Rightarrow> (string \<times> json) list \<Rightarrow> 'r \<Rightarrow> 'r result" where
  "dec_fields strict fs [] r = Inr r"
| "dec_fields strict fs ((k, j) # kvs) r =
     (case find_field fs k of
        None \<Rightarrow> if strict then Inl json_error else dec_fields strict fs kvs r
      | Some dec \<Rightarrow> (case dec j r of Inl e \<Rightarrow> Inl e | Inr r1 \<Rightarrow> dec_fields strict fs kvs r1))"

definition dec_struct :: "bool \<Rightarrow> (string \<times> 'r field) list \<Rightarrow> 'r field" where
  "dec_struct strict fs j r =
     (case j of JObject kvs \<Rightarrow> dec_fields strict fs kvs r | JNull \<Rightarrow> Inr r | _ \<Rightarrow> Inl json_error)"

definition dec_within :: "'s field \<Rightarrow> ('r \<Rightarrow> 's) \<Rightarrow> ('s \<Rightarrow> 'r \<Rightarrow> 'r) \<Rightarrow> 'r field" where
  "dec_within dec get put j r = (case dec j (get r) of Inl e \<Rightarrow> Inl e | Inr s \<Rightarrow> Inr (put s r))"

definition dec_elem :: "'s field \<Rightarrow> 's \<Rightarrow> json \<Rightarrow> 's result" where
  "dec_elem dec zero j = dec j zero"

text \<open>\<open>json.Unmarshal\<close> of bytes into a zero value.\<close>

definition unmarshal :: "'r field \<Rightarrow> 'r \<Rightarrow> raw_message \<Rightarrow> 'r result" where
  "unmarshal dec zero m = (case m of Raw j \<Rightarrow> dec j zero | _ \<Rightarrow> Inl json_error)"

section \<open>Encoding floats\<close>

text \<open>
  The shortest decimal that reads back as the number, without a point where it is an integer below
  \<open>1e21\<close>; a NaN or an infinity cannot be encoded. Minus zero is the literal \<open>-0\<close>, the integer 0.
\<close>

definition json_float :: "float64 \<Rightarrow> json result" where
  "json_float x =
     (case finite_val x of
        None \<Rightarrow> Inl (External ''json: unsupported value'')
      | Some q \<Rightarrow>
          Inr (if of_int \<lfloor>shortest_decimal q\<rfloor> = shortest_decimal q \<and> \<bar>q\<bar> < 10 ^ 21 then JInt \<lfloor>shortest_decimal q\<rfloor> else JFloat (shortest_decimal q)))"

section \<open>What is read back\<close>

text \<open>A value the format holds exactly.\<close>

definition canonical :: "float64 \<Rightarrow> bool" where
  "canonical x \<longleftrightarrow> (case x of Fin q \<Rightarrow> round64 q = Fin q | NegZero \<Rightarrow> True | _ \<Rightarrow> False)"

lemma float_roundtrip:
  assumes "canonical x" and "json_float x = Inr j"
  shows "float_of_json j = Inr (if x = NegZero then Fin 0 else x) \<and> j \<noteq> JNull"
proof (cases x)
  case (Fin q)
  then have "round64 (shortest_decimal q) = Fin q"
    using assms(1) by (intro shortest_decimal_reads_back) (simp add: canonical_def)
  then show ?thesis
    using assms(2) Fin by (auto simp: json_float_def float_of_json_def split: if_splits)
next
  case NegZero
  then show ?thesis
    using assms(2) by (auto simp: json_float_def float_of_json_def round64_def shortest_units)
qed (use assms in \<open>simp_all add: canonical_def\<close>)

lemma json_string_ascii: "is_ascii s \<Longrightarrow> json_string s = JString s"
proof -
  assume a: "is_ascii s"
  have "concat (map (\<lambda>r. case r of [c] \<Rightarrow> if code c < 128 then [c] else map char_of [239, 191, 189 :: nat] | _ \<Rightarrow> r)
      (map (\<lambda>c. [c]) s)) = s" if "is_ascii s" for s
    using that by (induction s) (auto simp: is_ascii_def)
  then show ?thesis using a by (simp add: json_string_def runes_ascii)
qed

text \<open>A key that is a field's own name finds that field.\<close>

lemma find_field_exact [simp]: "map_of fs k = Some f \<Longrightarrow> find_field fs k = Some f"
  by (simp add: find_field_def)

end
