(* ===== verification/SpecJson.thy ===== *)
theory SpecJson
  imports JsonCodec StrategySpec
begin

text \<open>
  The JSON of a strategy specification: \<open>json.Marshal(spec)\<close> as the service commits it, and the
  decoding by which \<open>UniverseSymbols\<close> and the API read it.
\<close>

definition chain :: "'a result \<Rightarrow> ('a \<Rightarrow> 'b result) \<Rightarrow> 'b result" where
  "chain r f = (case r of Inl e \<Rightarrow> Inl e | Inr x \<Rightarrow> f x)"

lemma chain_Inr: "chain r f = Inr y \<longleftrightarrow> (\<exists>x. r = Inr x \<and> f x = Inr y)"
  by (auto simp: chain_def split: sum.splits)

lemma chain_simps [simp]: "chain (Inr x) f = f x" "chain (Inl e) f = Inl e"
  by (simp_all add: chain_def)

section \<open>Encoding\<close>

text \<open>A composite filter value cannot be committed, as validation refuses it; it is left as it is.\<close>

definition value_json :: "filter_value \<Rightarrow> json result" where
  "value_json v =
     (case v of
        VFloat x \<Rightarrow> json_float x
      | VInt n \<Rightarrow> Inr (JInt n)
      | VString s \<Rightarrow> Inr (json_string s)
      | VBool b \<Rightarrow> Inr (JBool b)
      | VNil \<Rightarrow> Inr JNull
      | VOther j \<Rightarrow> Inr j)"

definition filter_json :: "spec_filter \<Rightarrow> json result" where
  "filter_json f =
     chain (value_json (flt_Value f)) (\<lambda>v.
     Inr (JObject [(''field'', json_string (flt_Field f)), (''operator'', json_string (flt_Operator f)), (''value'', v)]))"

definition universe_json :: "universe \<Rightarrow> json" where
  "universe_json u =
     JObject ([(''name'', json_string (uni_Name u)), (''asset_class'', json_string (uni_AssetClass u))]
       @ (if uni_Symbols u = [] then [] else [(''symbols'', JArray (map json_string (uni_Symbols u)))]))"

definition selection_json :: "selection \<Rightarrow> json result" where
  "selection_json s =
     chain (case sel_Filters s of
              None \<Rightarrow> Inr JNull
            | Some fs \<Rightarrow> chain (all_in filter_json fs) (\<lambda>js. Inr (JArray js))) (\<lambda>filters.
     Inr (JObject [(''template'', json_string (sel_Template s)), (''filters'', filters)]))"

definition risk_json :: "risk \<Rightarrow> json result" where
  "risk_json r =
     chain (json_float (risk_MaxPositionWeight r)) (\<lambda>weight.
     chain (json_float (risk_TransactionCostBps r)) (\<lambda>cost.
     chain (opt_in json_float (risk_StopLossPct r)) (\<lambda>stop.
     Inr (JObject ([(''max_position_weight'', weight), (''transaction_cost_bps'', cost)]
       @ (case stop of None \<Rightarrow> [] | Some p \<Rightarrow> [(''stop_loss_pct'', p)]))))))"

definition spec_json :: "spec \<Rightarrow> json result" where
  "spec_json s =
     chain (selection_json (spec_Selection s)) (\<lambda>selection.
     chain (risk_json (spec_Risk s)) (\<lambda>risk.
     Inr (JObject [(''slug'', json_string (spec_Slug s)), (''version'', JInt (spec_Version s)),
       (''name'', json_string (spec_Name s)), (''universe'', universe_json (spec_Universe s)),
       (''selection'', selection),
       (''rebalance'', JObject [(''schedule'', json_string (reb_Schedule (spec_Rebalance s)))]),
       (''risk'', risk)])))"

section \<open>Decoding\<close>

text \<open>Every number below an \<open>any\<close> has to be a \<open>float64\<close>.\<close>

fun numbers_fit :: "json \<Rightarrow> bool" and
    items_fit :: "json list \<Rightarrow> bool" and
    fields_fit :: "(string \<times> json) list \<Rightarrow> bool" where
  "numbers_fit (JInt n) = (finite_val (round64 (of_int n)) \<noteq> None)"
| "numbers_fit (JFloat q) = (finite_val (round64 q) \<noteq> None)"
| "numbers_fit (JArray js) = items_fit js"
| "numbers_fit (JObject kvs) = fields_fit kvs"
| "numbers_fit j = True"
| "items_fit [] = True"
| "items_fit (j # js) = (numbers_fit j \<and> items_fit js)"
| "fields_fit [] = True"
| "fields_fit ((k, j) # kvs) = (numbers_fit j \<and> fields_fit kvs)"

definition dec_value :: "spec_filter field" where
  "dec_value j f =
     (case j of
        JNull \<Rightarrow> Inr (f\<lparr>flt_Value := VNil\<rparr>)
      | JBool b \<Rightarrow> Inr (f\<lparr>flt_Value := VBool b\<rparr>)
      | JString s \<Rightarrow> Inr (f\<lparr>flt_Value := VString s\<rparr>)
      | JInt n \<Rightarrow> chain (float_of_json j) (\<lambda>x. Inr (f\<lparr>flt_Value := VFloat x\<rparr>))
      | JFloat q \<Rightarrow> chain (float_of_json j) (\<lambda>x. Inr (f\<lparr>flt_Value := VFloat x\<rparr>))
      | _ \<Rightarrow> if numbers_fit j then Inr (f\<lparr>flt_Value := VOther j\<rparr>) else Inl json_error)"

definition filter_fields_dec :: "(string \<times> spec_filter field) list" where
  "filter_fields_dec =
     [(''field'', dec_string (\<lambda>s f. f\<lparr>flt_Field := s\<rparr>)), (''operator'', dec_string (\<lambda>s f. f\<lparr>flt_Operator := s\<rparr>)),
      (''value'', dec_value)]"

definition zero_filter :: spec_filter where
  "zero_filter = \<lparr>flt_Field = [], flt_Operator = [], flt_Value = VNil\<rparr>"

definition universe_dec :: "(string \<times> universe field) list" where
  "universe_dec =
     [(''name'', dec_string (\<lambda>s u. u\<lparr>uni_Name := s\<rparr>)), (''asset_class'', dec_string (\<lambda>s u. u\<lparr>uni_AssetClass := s\<rparr>)),
      (''symbols'', dec_slice string_elem (\<lambda>xs u. u\<lparr>uni_Symbols := items xs\<rparr>))]"

definition selection_dec :: "bool \<Rightarrow> (string \<times> selection field) list" where
  "selection_dec strict =
     [(''template'', dec_string (\<lambda>s x. x\<lparr>sel_Template := s\<rparr>)),
      (''filters'', dec_slice (dec_elem (dec_struct strict filter_fields_dec) zero_filter) (\<lambda>fs x. x\<lparr>sel_Filters := fs\<rparr>))]"

definition rebalance_dec :: "(string \<times> rebalance field) list" where
  "rebalance_dec = [(''schedule'', dec_string (\<lambda>s x. x\<lparr>reb_Schedule := s\<rparr>))]"

definition risk_dec :: "(string \<times> risk field) list" where
  "risk_dec =
     [(''max_position_weight'', dec_float (\<lambda>v r. r\<lparr>risk_MaxPositionWeight := v\<rparr>)),
      (''transaction_cost_bps'', dec_float (\<lambda>v r. r\<lparr>risk_TransactionCostBps := v\<rparr>)),
      (''stop_loss_pct'', dec_pointer dec_float (\<lambda>v r. r\<lparr>risk_StopLossPct := v\<rparr>))]"

definition spec_dec :: "bool \<Rightarrow> (string \<times> spec field) list" where
  "spec_dec strict =
     [(''slug'', dec_string (\<lambda>s x. x\<lparr>spec_Slug := s\<rparr>)), (''version'', dec_int (\<lambda>n x. x\<lparr>spec_Version := n\<rparr>)),
      (''name'', dec_string (\<lambda>s x. x\<lparr>spec_Name := s\<rparr>)),
      (''universe'', dec_within (dec_struct strict universe_dec) spec_Universe (\<lambda>u x. x\<lparr>spec_Universe := u\<rparr>)),
      (''selection'', dec_within (dec_struct strict (selection_dec strict)) spec_Selection (\<lambda>v x. x\<lparr>spec_Selection := v\<rparr>)),
      (''rebalance'', dec_within (dec_struct strict rebalance_dec) spec_Rebalance (\<lambda>v x. x\<lparr>spec_Rebalance := v\<rparr>)),
      (''risk'', dec_within (dec_struct strict risk_dec) spec_Risk (\<lambda>v x. x\<lparr>spec_Risk := v\<rparr>))]"

definition zero_spec :: spec where
  "zero_spec =
     \<lparr>spec_Slug = [], spec_Version = 0, spec_Name = [],
      spec_Universe = \<lparr>uni_Name = [], uni_AssetClass = [], uni_Symbols = []\<rparr>,
      spec_Selection = \<lparr>sel_Template = [], sel_Filters = None\<rparr>, spec_Rebalance = \<lparr>reb_Schedule = []\<rparr>,
      spec_Risk = \<lparr>risk_MaxPositionWeight = fzero, risk_TransactionCostBps = fzero, risk_StopLossPct = None\<rparr>\<rparr>"

definition universe_symbols :: "raw_message \<Rightarrow> string list result" where
  "universe_symbols raw_spec =
     (case unmarshal (dec_struct False (spec_dec False)) zero_spec raw_spec of
        Inl e \<Rightarrow> Inl (Errorf ''decode strategy spec: %w'' [AW e])
      | Inr spec \<Rightarrow> Inr (uni_Symbols (spec_Universe spec)))"

section \<open>What a committed spec reads reads as\<close>

text \<open>
  A spec whose strings are UTF-8 and whose numbers JSON keeps: what decoding a request body yields,
  but for a minus zero, which reads reads as zero.
\<close>

definition json_text :: "string \<Rightarrow> bool" where
  "json_text s \<longleftrightarrow> json_string s = JString s"

definition json_number :: "float64 \<Rightarrow> bool" where
  "json_number x \<longleftrightarrow> canonical x \<and> x \<noteq> NegZero"

definition plain_value :: "filter_value \<Rightarrow> bool" where
  "plain_value v \<longleftrightarrow>
     (case v of VFloat x \<Rightarrow> json_number x | VString s \<Rightarrow> json_text s | VBool b \<Rightarrow> True | _ \<Rightarrow> False)"

definition plain_filter :: "spec_filter \<Rightarrow> bool" where
  "plain_filter f \<longleftrightarrow> json_text (flt_Field f) \<and> json_text (flt_Operator f) \<and> plain_value (flt_Value f)"

definition plain_risk :: "risk \<Rightarrow> bool" where
  "plain_risk r \<longleftrightarrow>
     json_number (risk_MaxPositionWeight r) \<and> json_number (risk_TransactionCostBps r)
     \<and> (\<forall>p. risk_StopLossPct r = Some p \<longrightarrow> json_number p)"

definition plain_spec :: "spec \<Rightarrow> bool" where
  "plain_spec s \<longleftrightarrow>
     json_text (spec_Slug s) \<and> json_text (spec_Name s)
     \<and> json_text (uni_Name (spec_Universe s)) \<and> json_text (uni_AssetClass (spec_Universe s))
     \<and> uni_Symbols (spec_Universe s) \<noteq> [] \<and> (\<forall>y \<in> set (uni_Symbols (spec_Universe s)). json_text y)
     \<and> json_text (sel_Template (spec_Selection s)) \<and> (\<forall>f \<in> set (spec_filters s). plain_filter f)
     \<and> json_text (reb_Schedule (spec_Rebalance s)) \<and> plain_risk (spec_Risk s)"

lemma jsonb_items_map: "jsonb_items js = map jsonb_of js"
  by (induction js) simp_all

lemma jsonb_float: "json_float x = Inr j \<Longrightarrow> jsonb_of j = j"
  by (auto simp: json_float_def split: option.splits if_splits)

lemma float_reads_back:
  assumes "json_number x" and "json_float x = Inr j"
  shows "float_of_json (jsonb_of j) = Inr x" and "jsonb_of j \<noteq> JNull"
  using float_roundtrip [of x j] assms jsonb_float [OF assms(2)] by (auto simp: json_number_def)

lemma dec_float_back: "json_number x \<Longrightarrow> json_float x = Inr j \<Longrightarrow> dec_float put (jsonb_of j) r = Inr (put x r)"
  using float_reads_back by (simp add: dec_float_def)

lemma value_reads_back:
  assumes "plain_value v" and "value_json v = Inr j"
  shows "dec_value (jsonb_of j) f = Inr (f\<lparr>flt_Value := v\<rparr>)"
proof (cases v)
  case (VFloat x)
  then have x: "json_number x" "json_float x = Inr j" using assms by (simp_all add: plain_value_def value_json_def)
  have "jsonb_of j = j" using x(2) by (rule jsonb_float)
  moreover have "(\<exists>n. j = JInt n) \<or> (\<exists>q. j = JFloat q)"
    using x(2) by (auto simp: json_float_def split: option.splits if_splits)
  ultimately show ?thesis using float_reads_back(1) [OF x] VFloat by (auto simp: dec_value_def)
next
  case (VString s)
  then have "j = JString s" using assms by (simp add: plain_value_def value_json_def json_text_def)
  then show ?thesis using VString by (simp add: dec_value_def)
qed (use assms in \<open>auto simp: plain_value_def value_json_def dec_value_def\<close>)

lemma filter_reads_back:
  assumes "plain_filter f" and "filter_json f = Inr j"
  shows "dec_elem (dec_struct False filter_fields_dec) zero_filter (jsonb_of j) = Inr f"
proof -
  obtain v where v: "value_json (flt_Value f) = Inr v"
    and j: "j = JObject [(''field'', JString (flt_Field f)), (''operator'', JString (flt_Operator f)), (''value'', v)]"
    using assms by (auto simp: filter_json_def chain_Inr plain_filter_def json_text_def)
  have "plain_value (flt_Value f)" using assms(1) by (simp add: plain_filter_def)
  note reads = value_reads_back [OF this v]
  show ?thesis
    by (simp add: j key_before_def dec_elem_def dec_struct_def filter_fields_dec_def find_field_def dec_string_def
        zero_filter_def reads)
qed

lemma filters_read_back:
  assumes "\<forall>f \<in> set fs. plain_filter f" and "all_in filter_json fs = Inr js"
  shows "all_in (dec_elem (dec_struct False filter_fields_dec) zero_filter) (map jsonb_of js) = Inr fs"
  using assms
proof (induction fs arbitrary: js)
  case (Cons f fs)
  then show ?case using filter_reads_back by (fastforce split: sum.splits)
qed simp

lemma symbols_read_back: "\<forall>y \<in> set ys. json_text y \<Longrightarrow> all_in string_elem (map (\<lambda>y. jsonb_of (json_string y)) ys) = Inr ys"
  by (induction ys) (simp_all add: json_text_def string_elem_def dec_string_def)

lemma universe_reads_back:
  assumes "json_text (uni_Name u)" and "json_text (uni_AssetClass u)" and "uni_Symbols u \<noteq> []"
    and "\<forall>y \<in> set (uni_Symbols u). json_text y"
  shows "dec_struct False universe_dec (jsonb_of (universe_json u)) z = Inr u"
proof -
  have syms: "dec_slice string_elem put (JArray (map (\<lambda>y. jsonb_of (json_string y)) (uni_Symbols u))) x = Inr (put (Some (uni_Symbols u)) x)"
    for put and x :: universe
    using symbols_read_back [OF assms(4)] by (simp add: dec_slice_def)
  show ?thesis
    using assms(1-3)
    by (simp add: universe_json_def json_text_def key_before_def dec_struct_def universe_dec_def find_field_def
        dec_string_def jsonb_items_map comp_def syms items_def)
qed

lemma selection_reads_back:
  assumes "json_text (sel_Template s)" and "\<forall>f \<in> set (items (sel_Filters s)). plain_filter f"
    and "selection_json s = Inr j"
  shows "dec_struct False (selection_dec False) (jsonb_of j) \<lparr>sel_Template = t, sel_Filters = None\<rparr> = Inr s"
proof (cases "sel_Filters s")
  case None
  then have "j = JObject [(''template'', JString (sel_Template s)), (''filters'', JNull)]"
    using assms by (simp add: selection_json_def json_text_def)
  then show ?thesis
    using None by (simp add: key_before_def dec_struct_def selection_dec_def find_field_def dec_string_def dec_slice_def)
next
  case (Some fs)
  then obtain js where js: "all_in filter_json fs = Inr js"
    and j: "j = JObject [(''template'', JString (sel_Template s)), (''filters'', JArray js)]"
    using assms by (auto simp: selection_json_def json_text_def chain_Inr)
  have "all_in (dec_elem (dec_struct False filter_fields_dec) zero_filter) (map jsonb_of js) = Inr fs"
    by (rule filters_read_back [OF _ js]) (use assms(2) Some in \<open>simp add: items_def\<close>)
  then show ?thesis
    using Some by (simp add: j key_before_def dec_struct_def selection_dec_def find_field_def dec_string_def
        dec_slice_def jsonb_items_map)
qed

lemma risk_reads_back:
  assumes "plain_risk r" and "risk_json r = Inr j"
  shows "dec_struct False risk_dec (jsonb_of j) \<lparr>risk_MaxPositionWeight = a, risk_TransactionCostBps = b, risk_StopLossPct = None\<rparr> = Inr r"
proof -
  obtain w c st where j: "json_float (risk_MaxPositionWeight r) = Inr w" "json_float (risk_TransactionCostBps r) = Inr c"
    "opt_in json_float (risk_StopLossPct r) = Inr st"
    "j = JObject ([(''max_position_weight'', w), (''transaction_cost_bps'', c)]
       @ (case st of None \<Rightarrow> [] | Some p \<Rightarrow> [(''stop_loss_pct'', p)]))"
    using assms(2) by (auto simp: risk_json_def chain_Inr)
  have nums: "json_number (risk_MaxPositionWeight r)" "json_number (risk_TransactionCostBps r)"
    using assms(1) by (simp_all add: plain_risk_def)
  note reads = dec_float_back [OF nums(1) j(1)] dec_float_back [OF nums(2) j(2)]
  show ?thesis
  proof (cases "risk_StopLossPct r")
    case None
    then show ?thesis
      using j(3,4) by (simp add: key_before_def dec_struct_def risk_dec_def find_field_def reads)
  next
    case (Some p)
    then obtain q where q: "json_float p = Inr q" "st = Some q" using j(3) by (auto split: sum.splits)
    have "json_number p" using assms(1) Some by (simp add: plain_risk_def)
    note p = dec_float_back [OF this q(1)] float_reads_back(2) [OF this q(1)]
    show ?thesis
      using Some j(4) q(2)
      by (simp add: key_before_def dec_struct_def risk_dec_def find_field_def dec_pointer_def reads p)
  qed
qed

text \<open>
  A committed specification reads reads as it was: when a spec that JSON can hold is encoded, stored
  as \<open>jsonb\<close> and given its version, decoding the stored column yields the very same spec with that
  version, so the API, the worker and the engine are told the universe that was validated.
\<close>

lemma spec_reads_back:
  assumes "plain_spec s" and "spec_json s = Inr j" and "jsonb_in (Raw j) = Inr b"
    and "jsonb_set b ''version'' (JInt v) = Inr stored" and "int64_range v"
  shows "unmarshal (dec_struct False (spec_dec False)) zero_spec stored = Inr (s\<lparr>spec_Version := v\<rparr>)
    \<and> universe_symbols stored = Inr (uni_Symbols (spec_Universe s))"
proof -
  obtain sel rk where parts: "selection_json (spec_Selection s) = Inr sel" "risk_json (spec_Risk s) = Inr rk"
    and j: "j = JObject [(''slug'', JString (spec_Slug s)), (''version'', JInt (spec_Version s)),
       (''name'', JString (spec_Name s)), (''universe'', universe_json (spec_Universe s)), (''selection'', sel),
       (''rebalance'', JObject [(''schedule'', JString (reb_Schedule (spec_Rebalance s)))]), (''risk'', rk)]"
    using assms(1,2) by (auto simp: spec_json_def chain_Inr plain_spec_def json_text_def)
  have "b = Raw (jsonb_of j)" using assms(3) by (simp add: jsonb_in_def split: if_splits)
  then have stored: "stored = Raw (JObject [(''name'', JString (spec_Name s)), (''risk'', jsonb_of rk),
      (''slug'', JString (spec_Slug s)), (''version'', JInt v), (''universe'', jsonb_of (universe_json (spec_Universe s))),
      (''rebalance'', JObject [(''schedule'', JString (reb_Schedule (spec_Rebalance s)))]), (''selection'', jsonb_of sel)])"
    using assms(4) by (simp add: j key_before_def jsonb_set_def)
  have u: "dec_struct False universe_dec (jsonb_of (universe_json (spec_Universe s))) z = Inr (spec_Universe s)" for z
    using assms(1) by (intro universe_reads_back) (simp_all add: plain_spec_def)
  have sl: "dec_struct False (selection_dec False) (jsonb_of sel) \<lparr>sel_Template = [], sel_Filters = None\<rparr> = Inr (spec_Selection s)"
    by (rule selection_reads_back [OF _ _ parts(1)])
      (use assms(1) in \<open>simp_all add: plain_spec_def spec_filters_def items_def split: option.splits\<close>)
  have rk: "dec_struct False risk_dec (jsonb_of rk)
      \<lparr>risk_MaxPositionWeight = fzero, risk_TransactionCostBps = fzero, risk_StopLossPct = None\<rparr> = Inr (spec_Risk s)"
    by (rule risk_reads_back [OF _ parts(2)]) (use assms(1) in \<open>simp add: plain_spec_def\<close>)
  have rb: "dec_struct False rebalance_dec (JObject [(''schedule'', JString (reb_Schedule (spec_Rebalance s)))]) z = Inr (spec_Rebalance s)" for z
    by (simp add: dec_struct_def rebalance_dec_def find_field_def dec_string_def)
  have "unmarshal (dec_struct False (spec_dec False)) zero_spec stored = Inr (s\<lparr>spec_Version := v\<rparr>)"
    unfolding stored unmarshal_def spec_dec_def zero_spec_def
    by (simp add: dec_struct_def [of False "_ # _ # _ # _ # _ # _ # _ # []"] find_field_def dec_within_def u sl rk rb
        dec_string_def dec_int_def assms(5))
  then show ?thesis by (simp add: universe_symbols_def)
qed

end
