(* ===== verification/Database.thy ===== *)
theory Database
  imports Sql
begin

text \<open>
  The state behind \<open>internal/store\<close>: the tables of \<open>migrations/*.sql\<close> as lists of rows with their
  constraints, and how a statement or a transaction runs against a connection that may fail. A
  statement is an operation on the tables that either takes effect as a whole or fails and
  changes nothing; every round trip to the server consumes one entry of a script of faults, so a
  theorem quantified over the script covers every failure the code can meet.
\<close>

section \<open>Tables\<close>

record doc_row = document +
  dw_Metadata :: raw_message

record page_row =
  pg_ID :: string
  pg_DocumentID :: string
  pg_PageNumber :: int
  pg_Content :: string

record claim_row =
  cr_ID :: string
  cr_DocumentID :: string
  cr_PageID :: string
  cr_Ticker :: "string option"
  cr_Kind :: string
  cr_Direction :: string
  cr_Text :: string
  cr_EvidenceQuote :: string
  cr_HorizonDays :: "int option"
  cr_Confidence :: float64
  cr_EffectiveAt :: time
  cr_ValidationStatus :: string
  cr_CreatedAt :: time

record cand_row =
  cnd_ID :: string
  cnd_RunID :: string
  cnd_StrategyID :: string
  cnd_Symbol :: string
  cnd_Rank :: int
  cnd_Weight :: float64
  cnd_Score :: float64
  cnd_Momentum :: float64
  cnd_MomentumRank :: "float64 option"
  cnd_ClaimSupport :: float64
  cnd_AsOf :: time

record evidence_row =
  er_CandidateID :: string
  er_ClaimID :: string
  er_Contribution :: float64

record job_row = job +
  jr_State :: string
  jr_AvailableAt :: time
  jr_LeasedUntil :: "time option"
  jr_LeasedBy :: "string option"
  jr_LastError :: "string option"
  jr_CreatedAt :: time
  jr_UpdatedAt :: time

text \<open>
  The rows of \<open>strategies\<close>, \<open>market_data_snapshots\<close> and \<open>backtest_runs\<close> are the domain's own
  records (a run without a snapshot has the empty snapshot id, as \<open>GetBacktestRun\<close> reads it), and a
  citation of \<open>strategy_claims\<close> is a pair of ids. \<open>db_now\<close> is the server's clock at the start of a
  transaction, \<open>db_uuid\<close> what \<open>gen_random_uuid()\<close> yields at its \<open>db_next\<close>-th call, \<open>db_collation\<close> the
  order of text under the database's collation.
\<close>

record db =
  db_documents :: "doc_row list"
  db_pages :: "page_row list"
  db_claims :: "claim_row list"
  db_strategies :: "strategy list"
  db_citations :: "(string \<times> string) list"
  db_snapshots :: "market_data_snapshot list"
  db_runs :: "backtest_run list"
  db_candidates :: "cand_row list"
  db_evidence :: "evidence_row list"
  db_jobs :: "job_row list"
  db_now :: time
  db_uuid :: "nat \<Rightarrow> string"
  db_next :: nat
  db_collation :: "string \<Rightarrow> string \<Rightarrow> bool"

type_synonym 'a stmt = "(db, 'a) act"

definition gen_random_uuid :: "string stmt" where
  "gen_random_uuid d = (Inr (db_uuid d (db_next d)), d\<lparr>db_next := Suc (db_next d)\<rparr>)"

definition read_db :: "(db \<Rightarrow> 'a) \<Rightarrow> 'a stmt" where
  "read_db f d = (Inr (f d), d)"

definition write_db :: "(db \<Rightarrow> db) \<Rightarrow> unit stmt" where
  "write_db f d = (Inr (), f d)"

definition convert :: "'a result \<Rightarrow> ('w, 'a) act" where
  "convert r w = (r, w)"

text \<open>A constraint of the table: the statement fails when it is violated.\<close>

definition constraint :: "string \<Rightarrow> (db \<Rightarrow> bool) \<Rightarrow> unit stmt" where
  "constraint name p d =
     (if p d then (Inr (), d) else (Inl (pg_error (''violates constraint '' @ name)), d))"

lemmas [act_simps] = gen_random_uuid_def read_db_def write_db_def convert_def constraint_def

section \<open>Connections\<close>

text \<open>
  What can happen to one round trip: it goes through; it is refused and the server does nothing;
  or the server does it and the acknowledgement is lost, so the client sees an error all the same.
\<close>

datatype fault = Healthy | Refused | LostAck

definition connection_error :: err where
  "connection_error = External ''connection''"

text \<open>
  The part of the world the store sees; other components extend it. \<open>w_clock\<close> is the process's own
  \<open>time.Now()\<close>, which is not the server's.
\<close>

record world =
  w_db :: db
  w_faults :: "fault list"
  w_clock :: time

definition next_fault :: "'a world_scheme \<Rightarrow> fault \<times> 'a world_scheme" where
  "next_fault w =
     (case w_faults w of [] \<Rightarrow> (Healthy, w) | f # fs \<Rightarrow> (f, w\<lparr>w_faults := fs\<rparr>))"

text \<open>One statement on its own connection, which commits by itself.\<close>

definition pg_exec :: "'a stmt \<Rightarrow> ('x world_scheme, 'a) act" where
  "pg_exec s w =
     (case next_fault w of
        (Refused, w1) \<Rightarrow> (Inl connection_error, w1)
      | (Healthy, w1) \<Rightarrow>
          (case s (w_db w1) of
             (Inl e, d) \<Rightarrow> (Inl e, w1)
           | (Inr x, d) \<Rightarrow> (Inr x, w1\<lparr>w_db := d\<rparr>))
      | (LostAck, w1) \<Rightarrow>
          (case s (w_db w1) of
             (Inl e, d) \<Rightarrow> (Inl connection_error, w1)
           | (Inr x, d) \<Rightarrow> (Inl connection_error, w1\<lparr>w_db := d\<rparr>)))"

text \<open>
  \<open>BeginTx\<close>, the statements, \<open>Commit\<close>, with the deferred \<open>Rollback\<close>. The statements see and change
  a copy of the tables (\<open>pg_exec\<close> on it: an error ends the transaction whatever the fault was);
  they return a value and the message with which a failing commit is wrapped. The tables change
  only when the commit reaches the server, which it may do although the client sees an error.
\<close>

definition transaction ::
    "string \<Rightarrow> ('x world_scheme, string \<times> 'a) act \<Rightarrow> ('x world_scheme, 'a) act" where
  "transaction begin_msg body w =
     (case next_fault w of
        (Healthy, w1) \<Rightarrow>
          (case body w1 of
             (Inl e, w2) \<Rightarrow> (Inl e, w2\<lparr>w_db := w_db w\<rparr>)
           | (Inr (commit_msg, x), w2) \<Rightarrow>
               (case next_fault w2 of
                  (Healthy, w3) \<Rightarrow> (Inr x, w3)
                | (LostAck, w3) \<Rightarrow> (Inl (Errorf commit_msg [AW connection_error]), w3)
                | (Refused, w3) \<Rightarrow>
                    (Inl (Errorf commit_msg [AW connection_error]), w3\<lparr>w_db := w_db w\<rparr>)))
      | (_, w1) \<Rightarrow> (Inl (Errorf begin_msg [AW connection_error]), w1))"

text \<open>
  A query that reads rows. What the server reports, and a connection lost while the rows arrive, is
  found after the loop over the rows; a query that cannot be sent fails at once.
\<close>

definition pg_query :: "string \<Rightarrow> string \<Rightarrow> 'a stmt \<Rightarrow> ('x world_scheme, 'a) act" where
  "pg_query query_msg rows_msg s w =
     (case next_fault w of
        (Refused, w1) \<Rightarrow> (Inl (Errorf query_msg [AW connection_error]), w1)
      | (LostAck, w1) \<Rightarrow> (Inl (Errorf rows_msg [AW connection_error]), w1)
      | (Healthy, w1) \<Rightarrow>
          (case s (w_db w1) of
             (Inl e, d) \<Rightarrow> (Inl (Errorf rows_msg [AW e]), w1)
           | (Inr x, d) \<Rightarrow> (Inr x, w1)))"

definition go_now :: "('x world_scheme, time) act" where
  "go_now w = (Inr (w_clock w), w)"

lemma next_fault_same: "next_fault w = (f, w1) \<Longrightarrow> w_db w1 = w_db w \<and> w_clock w1 = w_clock w"
  by (auto simp: next_fault_def split: list.splits)

lemma go_now_then: "and_then go_now g w = g (w_clock w) w"
  by (simp add: and_then_def go_now_def)

text \<open>A statement that succeeds met no fault, and nothing else happened.\<close>

lemma pg_exec_Inr:
  "pg_exec s w = (Inr x, w') \<Longrightarrow>
     \<exists>w1 d. next_fault w = (Healthy, w1) \<and> s (w_db w) = (Inr x, d) \<and> w' = w1\<lparr>w_db := d\<rparr>"
  by (auto simp: pg_exec_def split: prod.splits fault.splits sum.splits dest!: next_fault_same)

lemma transaction_Inr:
  assumes "transaction b body w = (Inr x, w')"
  shows "\<exists>w1 m w2. next_fault w = (Healthy, w1) \<and> body w1 = (Inr (m, x), w2) \<and> next_fault w2 = (Healthy, w')
    \<and> w_db w1 = w_db w \<and> w_clock w1 = w_clock w \<and> w_db w' = w_db w2"
  using assms by (auto simp: transaction_def split: prod.splits fault.splits sum.splits dest: next_fault_same)

text \<open>
  A transaction changes the tables only as its statements did, all of them, and only when it
  reports success or the acknowledgement of the commit was lost.
\<close>

lemma transaction_cases:
  assumes "transaction b body w = (r, w')"
  obtains (unchanged) e where "r = Inl e" "w_db w' = w_db w"
  | (committed) m x w1 w2 where "next_fault w = (Healthy, w1)" "body w1 = (Inr (m, x), w2)"
      "w_db w' = w_db w2" "r = Inr x \<or> r = Inl (Errorf m [AW connection_error])"
proof -
  obtain f w1 where f: "next_fault w = (f, w1)" by fastforce
  obtain br w2 where body: "body w1 = (br, w2)" by fastforce
  obtain g w3 where g: "next_fault w2 = (g, w3)" by fastforce
  show thesis
    using assms f body g next_fault_same [OF f] next_fault_same [OF g] unchanged committed
    by (cases f; cases br; cases g) (auto simp: transaction_def split: prod.splits)
qed

lemma pg_query_db: "w_db (snd (pg_query q m s w)) = w_db w"
  by (auto simp: pg_query_def split: prod.splits fault.splits sum.splits dest: next_fault_same)

section \<open>Lifting facts about statements\<close>

text \<open>The relation on worlds that a relation on tables induces.\<close>

definition on_db :: "(db \<Rightarrow> db \<Rightarrow> bool) \<Rightarrow> 'x world_scheme \<Rightarrow> 'x world_scheme \<Rightarrow> bool" where
  "on_db R w w' \<longleftrightarrow> R (w_db w) (w_db w')"

text \<open>
  The interface between the store's operations and its statements: a preorder on tables that the
  statements stay within is one the operations stay within, whatever the faults are.
\<close>

locale db_preorder = state_preorder R for R :: "db \<Rightarrow> db \<Rightarrow> bool"
begin

lemma keeps_pg_exec:
  assumes "keeps R s"
  shows "keeps (on_db R) (pg_exec s)"
  unfolding keeps_def
proof
  fix w :: "'b world_scheme"
  obtain f w1 where f: "next_fault w = (f, w1)" by fastforce
  obtain r d where s: "s (w_db w1) = (r, d)" by fastforce
  then have "R (w_db w1) d" using assms by (rule keepsD [rotated])
  then show "on_db R w (snd (pg_exec s w))"
    using next_fault_same [OF f] f s by (cases f; cases r) (auto simp: pg_exec_def on_db_def R_refl)
qed

lemma keeps_transaction:
  fixes body :: "('b world_scheme, string \<times> 'a) act"
  assumes "keeps (on_db R) body"
  shows "keeps (on_db R) (transaction begin_msg body)"
  unfolding keeps_def
proof
  fix w :: "'b world_scheme"
  obtain f w1 where f: "next_fault w = (f, w1)" by fastforce
  obtain r w2 where b: "body w1 = (r, w2)" by fastforce
  obtain g w3 where g: "next_fault w2 = (g, w3)" by fastforce
  have "on_db R w1 w2" using b assms by (rule keepsD [rotated])
  then show "on_db R w (snd (transaction begin_msg body w))"
    using f b g next_fault_same [OF f] next_fault_same [OF g]
    by (cases f; cases r; cases g) (auto simp: transaction_def on_db_def R_refl split: prod.splits)
qed

lemma keeps_pg_query: "keeps (on_db R) (pg_query q m s)"
  by (simp add: keeps_def on_db_def pg_query_db R_refl)

lemma keeps_go_now: "keeps (on_db R) go_now"
  by (simp add: keeps_def go_now_def on_db_def R_refl)

lemma keeps_read_db: "keeps R (read_db f)"
  by (simp add: keeps_def read_db_def R_refl)

lemma keeps_convert: "keeps R (convert r)"
  by (simp add: keeps_def convert_def R_refl)

lemma keeps_constraint: "keeps R (constraint name p)"
  by (simp add: keeps_def constraint_def R_refl)

end

text \<open>The same preorder carries the operations of the world.\<close>

lemma state_preorder_on_db: "state_preorder R \<Longrightarrow> state_preorder (on_db R)"
  unfolding state_preorder_def on_db_def by blast

end
