(* ===== verification/JobQueue.thy ===== *)
theory JobQueue
  imports Database GoSort
begin

text \<open>
  The job queue of \<open>internal/store/store.go\<close>: inserting a job, leasing the next one, completing and
  failing it. Every operation is a single statement or transaction, so it is one step on the
  tables; operations of different processes interleave between steps.
\<close>

section \<open>Inserting a job\<close>

definition job_types :: "string list" where
  "job_types = [''extract_document'', ''fetch_market_data'', ''run_backtest'', ''rank_candidates'']"

text \<open>A row as the column defaults of the migration make it.\<close>

definition queued_row :: "string \<Rightarrow> string \<Rightarrow> raw_message \<Rightarrow> time \<Rightarrow> job_row" where
  "queued_row i job_type payload now =
     \<lparr>job_ID = i, job_Type = job_type, job_Payload = payload, job_Attempts = 0, job_MaxAttempts = 3,
      jr_State = ''queued'', jr_AvailableAt = now, jr_LeasedUntil = None, jr_LeasedBy = None,
      jr_LastError = None, jr_CreatedAt = now, jr_UpdatedAt = now\<rparr>"

definition insert_job_stmt :: "string \<Rightarrow> raw_message \<Rightarrow> job stmt" where
  "insert_job_stmt job_type payload =
     and_then (convert (jsonb_in payload)) (\<lambda>stored.
     and_then (constraint ''jobs_job_type_check'' (\<lambda>d. job_type \<in> set job_types)) (\<lambda>_.
     and_then gen_random_uuid (\<lambda>i.
     and_then (constraint ''jobs_pkey'' (\<lambda>d. i \<notin> job_ID ` set (db_jobs d))) (\<lambda>_.
     and_then (read_db db_now) (\<lambda>now.
     and_then (write_db (\<lambda>d. d\<lparr>db_jobs := db_jobs d @ [queued_row i job_type stored now]\<rparr>)) (\<lambda>_.
     ok (job.truncate (queued_row i job_type stored now))))))))"

text \<open>\<open>insertJob\<close>, inside the caller's transaction; \<open>CreateMarketDataJob\<close>, on its own.\<close>

definition insert_job :: "string \<Rightarrow> raw_message \<Rightarrow> ('x world_scheme, job) act" where
  "insert_job job_type payload =
     wrapping ''insert %s job: %w'' [AS job_type] (pg_exec (insert_job_stmt job_type payload))"

definition market_data_payload :: "market_data_request \<Rightarrow> raw_message" where
  "market_data_payload r =
     Raw (JObject [(''symbols'', JArray (map json_string (mdr_Symbols r))),
                   (''start_date'', json_string (mdr_StartDate r)),
                   (''end_date'', json_string (mdr_EndDate r)),
                   (''interval'', json_string (mdr_Interval r))])"

definition create_market_data_job :: "market_data_request \<Rightarrow> ('x world_scheme, job) act" where
  "create_market_data_job request =
     wrapping ''insert market data job: %w'' []
       (pg_exec (insert_job_stmt ''fetch_market_data'' (market_data_payload request)))"

section \<open>Leasing\<close>

definition leasable :: "time \<Rightarrow> job_row \<Rightarrow> bool" where
  "leasable now j \<longleftrightarrow>
     (jr_State j \<in> {''queued'', ''retryable''} \<and> jr_AvailableAt j \<le> now)
     \<or> (jr_State j = ''leased'' \<and> (case jr_LeasedUntil j of Some u \<Rightarrow> u \<le> now | None \<Rightarrow> False))"

text \<open>\<open>ORDER BY available_at, created_at LIMIT 1\<close>; among equal keys the first row of the table.\<close>

definition next_job :: "db \<Rightarrow> job_row option" where
  "next_job d =
     (case sort_slice (\<lambda>a b. (jr_AvailableAt a, jr_CreatedAt a) < (jr_AvailableAt b, jr_CreatedAt b))
             (filter (leasable (db_now d)) (db_jobs d)) of
        [] \<Rightarrow> None
      | j # js \<Rightarrow> Some j)"

definition leased_row :: "string \<Rightarrow> time \<Rightarrow> time \<Rightarrow> job_row \<Rightarrow> job_row" where
  "leased_row worker until now j =
     j\<lparr>jr_State := ''leased'', job_Attempts := job_Attempts j + 1, jr_LeasedUntil := Some until,
       jr_LeasedBy := Some worker, jr_UpdatedAt := now\<rparr>"

definition lease_stmt :: "string \<Rightarrow> time \<Rightarrow> job option stmt" where
  "lease_stmt worker_id lease_until =
     and_then (convert (text_in worker_id)) (\<lambda>worker.
     and_then (read_db next_job) (\<lambda>found.
       case found of
         None \<Rightarrow> ok None
       | Some j \<Rightarrow>
           and_then (convert (int4_in (job_Attempts j + 1))) (\<lambda>_.
           and_then (read_db db_now) (\<lambda>now.
           and_then (write_db (\<lambda>d. d\<lparr>db_jobs :=
               update_where (\<lambda>r. job_ID r = job_ID j) (leased_row worker (ts_in lease_until) now) (db_jobs d)\<rparr>))
             (\<lambda>_. ok (Some (job.truncate (leased_row worker (ts_in lease_until) now j))))))))"

definition LeaseNextJob :: "string \<Rightarrow> int \<Rightarrow> ('x world_scheme, job option) act" where
  "LeaseNextJob worker_id lease_duration =
     transaction ''begin job lease transaction: %w''
       (and_then go_now (\<lambda>now.
        and_then (wrapping ''lease next job: %w'' [] (pg_exec (lease_stmt worker_id (now + lease_duration))))
          (\<lambda>leased. case leased of
             None \<Rightarrow> ok (''commit empty job lease: %w'', None)
           | Some j \<Rightarrow> ok (''commit job lease: %w'', Some j))))"

section \<open>Completing and failing\<close>

text \<open>\<open>UPDATE jobs SET ... WHERE id = $1 AND state = 'leased'\<close>, with the number of rows affected.\<close>

definition update_leased_stmt :: "string \<Rightarrow> (time \<Rightarrow> job_row \<Rightarrow> job_row) \<Rightarrow> nat stmt" where
  "update_leased_stmt i f =
     and_then (convert (uuid_in i)) (\<lambda>u.
     and_then (read_db (\<lambda>d. length (filter (\<lambda>j. job_ID j = u \<and> jr_State j = ''leased'') (db_jobs d)))) (\<lambda>n.
     and_then (write_db (\<lambda>d. d\<lparr>db_jobs :=
         update_where (\<lambda>j. job_ID j = u \<and> jr_State j = ''leased'') (f (db_now d)) (db_jobs d)\<rparr>))
       (\<lambda>_. ok n)))"

definition completed_row :: "time \<Rightarrow> job_row \<Rightarrow> job_row" where
  "completed_row now j =
     j\<lparr>jr_State := ''completed'', jr_LeasedUntil := None, jr_LeasedBy := None, jr_UpdatedAt := now\<rparr>"

definition CompleteJob :: "string \<Rightarrow> ('x world_scheme, unit) act" where
  "CompleteJob i =
     and_then (wrapping ''complete job: %w'' [] (pg_exec (update_leased_stmt i completed_row)))
       (\<lambda>n. if n \<noteq> 1 then fail (Errorf ''complete job: job is not leased'' []) else ok ())"

definition maxStoredErrorLength :: nat where "maxStoredErrorLength = 2000"

definition nanos_per_second :: int where "nanos_per_second = 1000000000"

definition retryDelay :: "int \<Rightarrow> int" where
  "retryDelay attempts =
     (if attempts < 1 then nanos_per_second
      else let exponent = (if 6 < attempts - 1 then 6 else attempts - 1)
           in 2 ^ nat exponent * nanos_per_second)"

definition failed_row :: "string \<Rightarrow> time \<Rightarrow> string \<Rightarrow> time \<Rightarrow> job_row \<Rightarrow> job_row" where
  "failed_row state available_at message now j =
     j\<lparr>jr_State := state, jr_AvailableAt := available_at, jr_LeasedUntil := None,
       jr_LeasedBy := None, jr_LastError := Some message, jr_UpdatedAt := now\<rparr>"

text \<open>\<open>FailJob\<close>, given the text \<open>cause.Error()\<close>. A byte slice may end inside a rune.\<close>

definition FailJob :: "job \<Rightarrow> string \<Rightarrow> ('x world_scheme, bool) act" where
  "FailJob j cause =
     (let terminal = (job_MaxAttempts j \<le> job_Attempts j);
          state = (if terminal then ''failed'' else ''retryable'');
          message = (if maxStoredErrorLength < length cause then take maxStoredErrorLength cause else cause)
      in and_then go_now (\<lambda>now.
         let available_at = (if terminal then now else now + retryDelay (job_Attempts j))
         in and_then (wrapping ''fail job: %w'' []
              (pg_exec (and_then (convert (text_in message)) (\<lambda>stored.
                 update_leased_stmt (job_ID j) (failed_row state (ts_in available_at) stored)))))
            (\<lambda>n. if n \<noteq> 1 then fail (Errorf ''fail job: job is not leased'' []) else ok terminal)))"

section \<open>How a job may change\<close>

text \<open>
  The life of one job, independently of the statements: it is leased (again, when a lease ran
  out), and a leased job is completed, sent back for a retry, or failed for good.
\<close>

inductive job_move :: "job_row \<Rightarrow> job_row \<Rightarrow> bool" where
  lease: "jr_State j \<in> {''queued'', ''retryable'', ''leased''} \<Longrightarrow> job_move j (leased_row worker until now j)"
| complete: "jr_State j = ''leased'' \<Longrightarrow> job_move j (completed_row now j)"
| release: "jr_State j = ''leased'' \<Longrightarrow> state \<in> {''retryable'', ''failed''} \<Longrightarrow>
    job_move j (failed_row state available message now j)"

definition fresh_job :: "job_row \<Rightarrow> bool" where
  "fresh_job j \<longleftrightarrow> jr_State j = ''queued'' \<and> job_Attempts j = 0 \<and> job_MaxAttempts j = 3
     \<and> job_Type j \<in> set job_types \<and> jr_LeasedUntil j = None \<and> jr_LeasedBy j = None"

abbreviation job_moves :: "job_row \<Rightarrow> job_row \<Rightarrow> bool" where
  "job_moves \<equiv> job_move\<^sup>*\<^sup>*"

text \<open>Rows move, in place; new rows are appended; none disappears.\<close>

definition jobs_evolve :: "db \<Rightarrow> db \<Rightarrow> bool" where
  "jobs_evolve d d' \<longleftrightarrow>
     (\<exists>moved new. db_jobs d' = moved @ new \<and> list_all2 job_moves (db_jobs d) moved
        \<and> (\<forall>j \<in> set new. \<exists>j0. fresh_job j0 \<and> job_moves j0 j))"

lemma jobs_evolve_same: "db_jobs d' = db_jobs d \<Longrightarrow> jobs_evolve d d'"
  unfolding jobs_evolve_def
  by (intro exI [of _ "db_jobs d"] exI [of _ "[]"]) (simp add: list_all2_refl)

lemma jobs_evolve_trans:
  assumes "jobs_evolve a b" and "jobs_evolve b c"
  shows "jobs_evolve a c"
proof -
  obtain m1 n1 where 1: "db_jobs b = m1 @ n1" "list_all2 job_moves (db_jobs a) m1"
    "\<forall>j \<in> set n1. \<exists>j0. fresh_job j0 \<and> job_moves j0 j"
    using assms(1) unfolding jobs_evolve_def by blast
  obtain m2 n2 where 2: "db_jobs c = m2 @ n2" "list_all2 job_moves (db_jobs b) m2"
    "\<forall>j \<in> set n2. \<exists>j0. fresh_job j0 \<and> job_moves j0 j"
    using assms(2) unfolding jobs_evolve_def by blast
  obtain m3 n3 where 3: "m2 = m3 @ n3" "list_all2 job_moves m1 m3" "list_all2 job_moves n1 n3"
    using 2(2) unfolding 1(1) list_all2_append1 by blast
  have "list_all2 job_moves (db_jobs a) m3"
    using list_all2_trans [OF rtranclp_trans 1(2) 3(2)] .
  moreover have "\<exists>j0. fresh_job j0 \<and> job_moves j0 j" if j: "j \<in> set n3" for j
  proof -
    obtain j1 where "j1 \<in> set n1" "job_moves j1 j"
      using 3(3) j unfolding list_all2_conv_all_nth in_set_conv_nth by metis
    then show ?thesis using 1(3) by (meson rtranclp_trans)
  qed
  ultimately show ?thesis
    using 2 3(1) unfolding jobs_evolve_def
    by (intro exI [of _ m3] exI [of _ "n3 @ n2"]) auto
qed

lemma jobs_evolve_update:
  assumes "\<And>j. p j \<Longrightarrow> j \<in> set (db_jobs d) \<Longrightarrow> job_move j (f j)" and "db_jobs d' = update_where p f (db_jobs d)"
  shows "jobs_evolve d d'"
proof -
  have "list_all2 job_moves (db_jobs d) (update_where p f (db_jobs d))"
    using assms(1) by (auto simp: update_where_def list_all2_conv_all_nth)
  then show ?thesis using assms(2)
    unfolding jobs_evolve_def by (intro exI [of _ "update_where p f (db_jobs d)"] exI [of _ "[]"]) simp
qed

lemma jobs_evolve_append: "fresh_job j \<Longrightarrow> db_jobs d' = db_jobs d @ [j] \<Longrightarrow> jobs_evolve d d'"
  unfolding jobs_evolve_def
  by (intro exI [of _ "db_jobs d"] exI [of _ "[j]"]) (auto simp: list_all2_refl)

section \<open>The invariant of the queue\<close>

definition job_row_ok :: "job_row \<Rightarrow> bool" where
  "job_row_ok j \<longleftrightarrow>
     jr_State j \<in> {''queued'', ''leased'', ''retryable'', ''completed'', ''failed''}
     \<and> job_Type j \<in> set job_types \<and> 0 \<le> job_Attempts j \<and> 0 < job_MaxAttempts j
     \<and> (jr_State j = ''leased'' \<longleftrightarrow> jr_LeasedUntil j \<noteq> None)
     \<and> (jr_State j = ''leased'' \<longleftrightarrow> jr_LeasedBy j \<noteq> None)
     \<and> (jr_State j \<noteq> ''queued'' \<longrightarrow> 0 < job_Attempts j)"

definition jobs_ok :: "db \<Rightarrow> bool" where
  "jobs_ok d \<longleftrightarrow> distinct (map job_ID (db_jobs d)) \<and> (\<forall>j \<in> set (db_jobs d). job_row_ok j)"

text \<open>What a move never touches, and what it only raises.\<close>

lemma job_move_keeps:
  "job_move j k \<Longrightarrow> job_ID k = job_ID j \<and> job_Type k = job_Type j \<and> job_Payload k = job_Payload j
     \<and> job_MaxAttempts k = job_MaxAttempts j \<and> jr_CreatedAt k = jr_CreatedAt j
     \<and> job_Attempts j \<le> job_Attempts k \<and> (job_row_ok j \<longrightarrow> job_row_ok k)"
  by (induction rule: job_move.induct)
    (auto simp: leased_row_def completed_row_def failed_row_def job_row_ok_def)

lemma job_moves_keep:
  "job_moves j k \<Longrightarrow> job_ID k = job_ID j \<and> job_Type k = job_Type j \<and> job_Payload k = job_Payload j
     \<and> job_MaxAttempts k = job_MaxAttempts j \<and> jr_CreatedAt k = jr_CreatedAt j
     \<and> job_Attempts j \<le> job_Attempts k \<and> (job_row_ok j \<longrightarrow> job_row_ok k)"
  by (induction rule: rtranclp_induct) (auto dest: job_move_keeps)

lemma fresh_job_ok: "fresh_job j \<Longrightarrow> job_row_ok j"
  by (auto simp: fresh_job_def job_row_ok_def)

inductive_cases completed_moves: "job_move j k"

text \<open>A completed or failed job is never touched again.\<close>

lemma terminal_job_moves:
  "job_moves j k \<Longrightarrow> jr_State j \<in> {''completed'', ''failed''} \<Longrightarrow> k = j"
  by (induction rule: rtranclp_induct) (auto elim: completed_moves)

lemma jobs_evolve_row:
  assumes "jobs_evolve d d'" and "j \<in> set (db_jobs d)"
  shows "\<exists>k \<in> set (db_jobs d'). job_moves j k"
  using assms unfolding jobs_evolve_def list_all2_conv_all_nth by (fastforce simp: in_set_conv_nth)

text \<open>The discipline every operation keeps: from a sound queue to a sound, evolved one.\<close>

definition queue_step :: "db \<Rightarrow> db \<Rightarrow> bool" where
  "queue_step d d' \<longleftrightarrow> (jobs_ok d \<longrightarrow> jobs_ok d' \<and> jobs_evolve d d')"

interpretation queue: db_preorder queue_step
  by unfold_locales (auto simp: queue_step_def jobs_evolve_same intro: jobs_evolve_trans)

lemma queue_step_same: "db_jobs d' = db_jobs d \<Longrightarrow> queue_step d d'"
  by (simp add: queue_step_def jobs_ok_def jobs_evolve_same)

lemma queue_step_update:
  assumes "\<And>j. jobs_ok d \<Longrightarrow> p j \<Longrightarrow> j \<in> set (db_jobs d) \<Longrightarrow> job_move j (f j)"
    and "db_jobs d' = update_where p f (db_jobs d)"
  shows "queue_step d d'"
  unfolding queue_step_def
proof (intro impI conjI)
  assume ok: "jobs_ok d"
  note move = assms(1) [OF ok]
  have "map job_ID (update_where p f (db_jobs d)) = map job_ID (db_jobs d)"
    using move job_move_keeps by (auto simp: update_where_def)
  then show "jobs_ok d'"
    using ok move job_move_keeps unfolding jobs_ok_def assms(2) by (auto simp: set_update_where)
  show "jobs_evolve d d'" using move assms(2) by (rule jobs_evolve_update)
qed

lemma queue_step_append:
  assumes "fresh_job j" and "job_ID j \<notin> job_ID ` set (db_jobs d)" and "db_jobs d' = db_jobs d @ [j]"
  shows "queue_step d d'"
  using assms jobs_evolve_append fresh_job_ok by (auto simp: queue_step_def jobs_ok_def)

section \<open>Every operation keeps the discipline\<close>

lemma fresh_queued_row: "t \<in> set job_types \<Longrightarrow> fresh_job (queued_row i t p now)"
  by (simp add: fresh_job_def queued_row_def)

lemma queued_row_ID [simp]: "job_ID (queued_row i t p now) = i"
  by (simp add: queued_row_def)

lemma queue_step_insert:
  "t \<in> set job_types \<Longrightarrow> i \<notin> job_ID ` set (db_jobs d) \<Longrightarrow>
     queue_step d (d\<lparr>db_next := n, db_jobs := db_jobs d @ [queued_row i t q now]\<rparr>)"
  by (rule queue_step_append [OF fresh_queued_row]) auto

lemma insert_job_stmt_keeps [effects]: "keeps queue_step (insert_job_stmt t p)"
  by (simp add: keeps_def insert_job_stmt_def act_simps queue_step_insert queue_step_same split: sum.split)

lemma next_job_Some: "next_job d = Some j \<Longrightarrow> j \<in> set (db_jobs d) \<and> leasable (db_now d) j"
proof -
  let ?lt = "\<lambda>a b. (jr_AvailableAt a, jr_CreatedAt a) < (jr_AvailableAt b, jr_CreatedAt b)"
  assume "next_job d = Some j"
  then have "j \<in> set (sort_slice ?lt (filter (leasable (db_now d)) (db_jobs d)))"
    by (auto simp: next_job_def split: list.splits)
  then show ?thesis by (simp add: go_sort.srt_set)
qed

lemma leasable_state: "leasable now j \<Longrightarrow> jr_State j \<in> {''queued'', ''retryable'', ''leased''}"
  by (auto simp: leasable_def)

lemma job_id_row:
  "jobs_ok d \<Longrightarrow> j \<in> set (db_jobs d) \<Longrightarrow> k \<in> set (db_jobs d) \<Longrightarrow> job_ID k = job_ID j \<Longrightarrow> k = j"
  by (auto simp: jobs_ok_def distinct_map inj_on_def)

lemma lease_stmt_keeps [effects]: "keeps queue_step (lease_stmt w u)"
  unfolding keeps_def
proof
  fix d
  have "queue_step d (d\<lparr>db_jobs := update_where (\<lambda>r. job_ID r = job_ID j) (leased_row w' t now) (db_jobs d)\<rparr>)"
    if "next_job d = Some j" for j w' t now
    by (rule queue_step_update)
      (use next_job_Some [OF that] job_id_row [of d j] leasable_state in \<open>auto intro!: job_move.lease\<close>)
  then show "queue_step d (snd (lease_stmt w u d))"
    by (auto simp: lease_stmt_def act_simps split: sum.splits option.splits intro: queue_step_same)
qed

lemma update_leased_stmt_keeps:
  assumes "\<And>now j. jr_State j = ''leased'' \<Longrightarrow> job_move j (f now j)"
  shows "keeps queue_step (update_leased_stmt i f)"
  unfolding keeps_def
proof
  fix d
  let ?p = "\<lambda>u j. job_ID j = u \<and> jr_State j = ''leased''"
  have "queue_step d (d\<lparr>db_jobs := update_where (?p u) (f (db_now d)) (db_jobs d)\<rparr>)" for u
    by (rule queue_step_update [where p = "?p u" and f = "f (db_now d)"]) (simp_all add: assms)
  then show "queue_step d (snd (update_leased_stmt i f d))"
    by (simp add: update_leased_stmt_def act_simps queue_step_same split: sum.split)
qed

lemma update_completed_keeps [effects]: "keeps queue_step (update_leased_stmt i completed_row)"
  by (intro update_leased_stmt_keeps job_move.complete)

lemma update_failed_keeps [effects]:
  "state \<in> {''retryable'', ''failed''} \<Longrightarrow> keeps queue_step (update_leased_stmt i (failed_row state a m))"
  by (intro update_leased_stmt_keeps job_move.release)

interpretation queue_world: state_preorder "on_db queue_step"
  by (rule state_preorder_on_db) (rule queue.state_preorder_axioms)

lemmas queue_rules = queue_world.keeps_ok queue_world.keeps_fail queue_world.keeps_and_then
  queue_world.keeps_attempt queue_world.keeps_wrapping queue_world.keeps_for_each
  queue.keeps_pg_exec queue.keeps_transaction queue.keeps_go_now

lemma LeaseNextJob_keeps [effects]: "keeps (on_db queue_step) (LeaseNextJob w dur)"
  unfolding LeaseNextJob_def
  by (intro queue_rules effects) (auto split: option.splits intro: queue_rules)

lemma CompleteJob_keeps [effects]: "keeps (on_db queue_step) (CompleteJob i)"
  unfolding CompleteJob_def by (intro queue_rules effects) (auto intro: queue_rules)

lemma FailJob_keeps [effects]: "keeps (on_db queue_step) (FailJob j cause)"
  unfolding FailJob_def Let_def
  by (intro queue_rules queue.keeps_and_then queue.keeps_convert effects) (auto intro: queue_rules)

lemma insert_job_keeps [effects]: "keeps (on_db queue_step) (insert_job t p)"
  unfolding insert_job_def by (intro queue_rules effects)

lemma create_market_data_job_keeps [effects]: "keeps (on_db queue_step) (create_market_data_job r)"
  unfolding create_market_data_job_def by (intro queue_rules effects)

section \<open>Leasing: who gets which job\<close>

lemma leased_row_simps [simp]:
  "job_ID (leased_row w u n j) = job_ID j" "jr_State (leased_row w u n j) = ''leased''"
  "job_Attempts (leased_row w u n j) = job_Attempts j + 1" "jr_LeasedUntil (leased_row w u n j) = Some u"
  by (simp_all add: leased_row_def)

abbreviation queue_key :: "job_row \<Rightarrow> time \<times> time" where
  "queue_key j \<equiv> (jr_AvailableAt j, jr_CreatedAt j)"

lemma next_job_least:
  assumes "next_job d = Some j"
  shows "\<forall>k \<in> set (db_jobs d). leasable (db_now d) k \<longrightarrow> queue_key j \<le> queue_key k"
proof -
  let ?xs = "filter (leasable (db_now d)) (db_jobs d)"
  let ?ys = "sort_slice (\<lambda>a b. queue_key a < queue_key b) ?xs"
  obtain js where ys: "?ys = j # js"
    using assms unfolding next_job_def by (cases ?ys) simp_all
  have "sorted (map queue_key ?ys)" by (rule go_sort.srt_sorted_key)
  then have "\<forall>k \<in> set ?ys. queue_key j \<le> queue_key k" unfolding ys by auto
  then show ?thesis by (simp add: go_sort.srt_set)
qed

lemma next_job_None: "next_job d = None \<longleftrightarrow> (\<forall>j \<in> set (db_jobs d). \<not> leasable (db_now d) j)"
proof -
  let ?ys = "sort_slice (\<lambda>a b. queue_key a < queue_key b) (filter (leasable (db_now d)) (db_jobs d))"
  have "next_job d = None \<longleftrightarrow> set ?ys = {}"
    unfolding next_job_def by (cases ?ys) simp_all
  then show ?thesis by (simp add: go_sort.srt_set Ball_def)
qed

lemma LeaseNextJob_Inr:
  assumes "LeaseNextJob worker dur w = (Inr r, w')"
  shows "lease_stmt worker (w_clock w + dur) (w_db w) = (Inr r, w_db w')"
proof -
  let ?exec = "pg_exec (lease_stmt worker (w_clock w + dur))"
  obtain w1 m w2 where
    w1: "next_fault w = (Healthy, w1)" and w': "next_fault w2 = (Healthy, w')" and
    "and_then (wrapping ''lease next job: %w'' [] (pg_exec (lease_stmt worker (w_clock w1 + dur))))
      (\<lambda>leased. case leased of None \<Rightarrow> ok (''commit empty job lease: %w'', None)
         | Some j \<Rightarrow> ok (''commit job lease: %w'', Some j)) w1 = (Inr (m, r), w2)"
    using transaction_Inr [OF assms [unfolded LeaseNextJob_def]] unfolding go_now_then by blast
  then obtain l w3 where l: "?exec w1 = (Inr l, w3)" and
    "(case l of None \<Rightarrow> ok (''commit empty job lease: %w'', None)
      | Some j \<Rightarrow> ok (''commit job lease: %w'', Some j)) w3 = (Inr (m, r), w2)"
    unfolding and_then_Inr wrapping_Inr using next_fault_same [OF w1] by auto
  then have "l = r" "w3 = w2" by (simp_all add: ok_def split: option.splits)
  with pg_exec_Inr [OF l] next_fault_same [OF w1] next_fault_same [OF w'] show ?thesis by auto
qed

lemma lease_stmt_Inr:
  assumes "lease_stmt worker until d = (Inr r, d')"
  shows "case next_job d of
      None \<Rightarrow> r = None \<and> d' = d
    | Some j \<Rightarrow> r = Some (job.truncate (leased_row worker (ts_in until) (db_now d) j))
        \<and> db_jobs d' = update_where (\<lambda>r. job_ID r = job_ID j) (leased_row worker (ts_in until) (db_now d)) (db_jobs d)"
  using assms by (auto simp: lease_stmt_def act_simps text_in_def split: sum.splits option.splits if_splits)

text \<open>
  C15 A lease that \<open>LeaseNextJob\<close> reports is real and fair, whatever faults the connection has: the
  job was due (queued or retryable and available, or leased with the lease run out), no due job
  comes before it in \<open>(available_at, created_at)\<close>, its row alone changes, and it changes to a
  lease held by this worker until \<open>leaseDuration\<close> after the process's clock with one attempt more.
\<close>

theorem lease_takes_oldest:
  assumes "LeaseNextJob worker dur w = (Inr (Some got), w')" and "jobs_ok (w_db w)"
  shows "\<exists>j \<in> set (db_jobs (w_db w)). leasable (db_now (w_db w)) j
    \<and> (\<forall>k \<in> set (db_jobs (w_db w)). leasable (db_now (w_db w)) k \<longrightarrow> queue_key j \<le> queue_key k)
    \<and> got = job.truncate (leased_row worker (ts_in (w_clock w + dur)) (db_now (w_db w)) j)
    \<and> db_jobs (w_db w') =
        map (\<lambda>r. if r = j then leased_row worker (ts_in (w_clock w + dur)) (db_now (w_db w)) r else r)
          (db_jobs (w_db w))"
proof -
  let ?d = "w_db w" and ?u = "ts_in (w_clock w + dur)"
  from lease_stmt_Inr [OF LeaseNextJob_Inr [OF assms(1)]] obtain j where j: "next_job ?d = Some j" and
    got: "got = job.truncate (leased_row worker ?u (db_now ?d) j)" and
    upd: "db_jobs (w_db w') = update_where (\<lambda>r. job_ID r = job_ID j) (leased_row worker ?u (db_now ?d)) (db_jobs ?d)"
    by (auto split: option.splits)
  have "update_where (\<lambda>r. job_ID r = job_ID j) (leased_row worker ?u (db_now ?d)) (db_jobs ?d) =
      map (\<lambda>r. if r = j then leased_row worker ?u (db_now ?d) r else r) (db_jobs ?d)"
    unfolding update_where_def using next_job_Some [OF j] job_id_row [OF assms(2), of j] by (intro map_cong) auto
  then show ?thesis
    using next_job_Some [OF j] next_job_least [OF j] got upd by (intro bexI [of _ j]) simp_all
qed

text \<open>
  When \<open>LeaseNextJob\<close> answers that there is no job, no job was due and no row changed; and on a
  connection without faults it does find a job whenever one is due.
\<close>

lemma lease_none_due:
  assumes "w_faults w = []" and "text_in worker = Inr worker"
    and "\<forall>j \<in> set (db_jobs (w_db w)). job_Attempts j < 2147483647 \<and> 0 \<le> job_Attempts j"
  shows "(\<exists>w'. LeaseNextJob worker dur w = (Inr None, w') \<and> w' = w) \<longleftrightarrow>
      (\<forall>j \<in> set (db_jobs (w_db w)). \<not> leasable (db_now (w_db w)) j)"
    (is "?none \<longleftrightarrow> ?due")
proof (cases "next_job (w_db w)")
  case None
  then have ?due by (simp add: next_job_None)
  moreover have ?none
    using assms None by (simp add: LeaseNextJob_def transaction_def next_fault_def pg_exec_def
        lease_stmt_def act_simps go_now_def)
  ultimately show ?thesis by simp
next
  case (Some j)
  then have "job_Attempts j < 2147483647 \<and> 0 \<le> job_Attempts j"
    using assms(3) next_job_Some [OF Some] by blast
  then have "int4_in (job_Attempts j + 1) = Inr (job_Attempts j + 1)"
    by (simp add: int4_in_def)
  then have "\<not> ?none"
    using assms Some by (simp add: LeaseNextJob_def transaction_def next_fault_def pg_exec_def
        lease_stmt_def act_simps go_now_def)
  moreover have "\<not> ?due" using next_job_Some [OF Some] by blast
  ultimately show ?thesis by simp
qed

text \<open>
  C16 A lease excludes every other worker while it lasts: as long as the server's clock is before
  \<open>leased_until\<close>, no call of \<open>LeaseNextJob\<close>, on any connection, returns the job, and its row stays
  as it is.
\<close>

theorem lease_excludes:
  assumes "LeaseNextJob worker dur w = (r, w')" and "jobs_ok (w_db w)"
    and "j \<in> set (db_jobs (w_db w))" and "jr_State j = ''leased''"
    and "jr_LeasedUntil j = Some u" and "db_now (w_db w) < u"
  shows "j \<in> set (db_jobs (w_db w')) \<and> (\<forall>got. r = Inr (Some got) \<longrightarrow> job_ID got \<noteq> job_ID j)"
proof -
  let ?d = "w_db w"
  have other: "job_ID k \<noteq> job_ID j" if "next_job ?d = Some k" for k
    using next_job_Some [OF that] job_id_row [OF assms(2), of k j] assms(3-6)
    by (auto simp: leasable_def)
  have stays: "j \<in> set (db_jobs (snd (lease_stmt worker t ?d)))"
    and got: "lease_stmt worker t ?d = (Inr (Some g), d') \<Longrightarrow> job_ID g \<noteq> job_ID j" for t g d'
    using assms(3) other
    by (auto simp: lease_stmt_def act_simps set_update_where job.truncate_def leased_row_def
        split: sum.splits option.splits)
  have "j \<in> set (db_jobs (w_db w'))"
  proof -
    obtain f w1 where f: "next_fault w = (f, w1)" by fastforce
    have w1: "w_db w1 = ?d" "w_clock w1 = w_clock w" using next_fault_same [OF f] by simp_all
    let ?t = "w_clock w + dur"
    have "w_db (snd (pg_exec (lease_stmt worker ?t) w1)) \<in> {?d, snd (lease_stmt worker ?t ?d)}"
      using w1 by (auto simp: pg_exec_def split: prod.splits fault.splits sum.splits dest: next_fault_same)
    then have "w_db w' \<in> {?d, snd (lease_stmt worker ?t ?d)}"
      using assms(1) f w1
      by (auto simp: LeaseNextJob_def transaction_def act_simps go_now_def
          split: fault.splits sum.splits prod.splits option.splits dest!: next_fault_same)
    then show ?thesis using stays assms(3) by auto
  qed
  moreover have "job_ID g \<noteq> job_ID j" if "r = Inr (Some g)" for g
    using LeaseNextJob_Inr [of worker dur w "Some g" w'] assms(1) that got by simp
  ultimately show ?thesis by blast
qed

section \<open>Completing and failing\<close>

lemma retryDelay_eq:
  "retryDelay a = (if a < 1 then 1 else if a < 7 then 2 ^ nat (a - 1) else 64) * nanos_per_second"
  by (simp add: retryDelay_def)

text \<open>
  Retries back off exponentially and without overflow: the delay is one second after the first
  attempt, doubles with each further one, and stays at 64 seconds from the seventh on, far inside
  the 64 bits of a \<open>time.Duration\<close>.
\<close>

lemma retry_delay_backoff:
  "nanos_per_second \<le> retryDelay a \<and> retryDelay a \<le> 64 * nanos_per_second \<and> retryDelay a < 2 ^ 63
   \<and> (1 \<le> a \<and> a < 7 \<longrightarrow> retryDelay (a + 1) = 2 * retryDelay a)
   \<and> (a < 1 \<longrightarrow> retryDelay a = retryDelay 1) \<and> (7 \<le> a \<longrightarrow> retryDelay a = 64 * nanos_per_second)"
proof (cases "1 \<le> a \<and> a < 7")
  case True
  then have "a \<in> {1, 2, 3, 4, 5, 6}" by auto
  then show ?thesis by (auto simp: retryDelay_eq nanos_per_second_def)
qed (auto simp: retryDelay_eq nanos_per_second_def)

lemma update_leased_stmt_Inr:
  assumes "update_leased_stmt i f d = (Inr n, d')"
  shows "\<exists>u. uuid_in i = Inr u
    \<and> n = length (filter (\<lambda>j. job_ID j = u \<and> jr_State j = ''leased'') (db_jobs d))
    \<and> db_jobs d' = update_where (\<lambda>j. job_ID j = u \<and> jr_State j = ''leased'') (f (db_now d)) (db_jobs d)"
  using assms by (auto simp: update_leased_stmt_def act_simps split: sum.splits)

lemma one_leased_row:
  assumes "jobs_ok d" and "length (filter (\<lambda>j. job_ID j = u \<and> jr_State j = ''leased'') (db_jobs d)) = 1"
  shows "\<exists>j \<in> set (db_jobs d). job_ID j = u \<and> jr_State j = ''leased''
    \<and> (\<forall>f. update_where (\<lambda>j. job_ID j = u \<and> jr_State j = ''leased'') f (db_jobs d)
          = map (\<lambda>r. if r = j then f r else r) (db_jobs d))"
proof -
  from assms(2) obtain j where "filter (\<lambda>j. job_ID j = u \<and> jr_State j = ''leased'') (db_jobs d) = [j]"
    by (auto simp: length_Suc_conv)
  then have "j \<in> set (filter (\<lambda>j. job_ID j = u \<and> jr_State j = ''leased'') (db_jobs d))" by simp
  then have j: "j \<in> set (db_jobs d)" "job_ID j = u" "jr_State j = ''leased''" by simp_all
  have "update_where (\<lambda>j. job_ID j = u \<and> jr_State j = ''leased'') f (db_jobs d)
      = map (\<lambda>r. if r = j then f r else r) (db_jobs d)" for f
  proof -
    have "(if job_ID r = u \<and> jr_State r = ''leased'' then f r else r) = (if r = j then f r else r)"
      if "r \<in> set (db_jobs d)" for r
      using j job_id_row [OF assms(1) j(1) that] by metis
    then show ?thesis by (simp add: update_where_def)
  qed
  with j show ?thesis by blast
qed

text \<open>An update that is checked to have affected one row changed one leased row.\<close>

lemma checked_one_row:
  assumes "jobs_ok (w_db w)"
    and "and_then (wrapping fmt as (pg_exec (update_leased_stmt i f)))
      (\<lambda>n. if n \<noteq> 1 then fail e else ok x) w = (Inr y, w')"
  shows "\<exists>j \<in> set (db_jobs (w_db w)). uuid_in i = Inr (job_ID j) \<and> jr_State j = ''leased''
    \<and> db_jobs (w_db w') = map (\<lambda>r. if r = j then f (db_now (w_db w)) r else r) (db_jobs (w_db w))"
proof -
  obtain n w1 where n: "pg_exec (update_leased_stmt i f) w = (Inr n, w1)"
    and "(if n \<noteq> 1 then fail e else ok x) w1 = (Inr y, w')"
    using assms(2) unfolding and_then_Inr wrapping_Inr by blast
  then have one: "n = 1" "w' = w1" by (simp_all add: ok_def fail_def split: if_splits)
  from pg_exec_Inr [OF n] obtain d where "update_leased_stmt i f (w_db w) = (Inr 1, d)" "w_db w' = d"
    using one by auto
  then obtain u where u: "uuid_in i = Inr u"
    "length (filter (\<lambda>j. job_ID j = u \<and> jr_State j = ''leased'') (db_jobs (w_db w))) = 1"
    "db_jobs (w_db w') = update_where (\<lambda>j. job_ID j = u \<and> jr_State j = ''leased'') (f (db_now (w_db w))) (db_jobs (w_db w))"
    using update_leased_stmt_Inr [of i f "w_db w" 1 d] by auto
  with one_leased_row [OF assms(1) u(2)] show ?thesis by auto
qed

lemma convert_Inl: "and_then (convert (Inl e)) g = fail e"
  by (rule ext) (simp add: act_simps)

lemma convert_Inr: "and_then (convert (Inr x)) g = g x"
  by (rule ext) (simp add: act_simps)

lemma pg_exec_fail_Inr: "pg_exec (fail e) w \<noteq> (Inr x, w')"
  by (auto simp: pg_exec_def fail_def split: prod.splits fault.splits)

text \<open>\<open>FailJob\<close> that reports no error: the statement with the text cut and the state chosen.\<close>

lemma FailJob_stmt:
  assumes "FailJob g cause w = (Inr terminal, w')"
  shows "and_then (wrapping ''fail job: %w'' []
      (pg_exec (update_leased_stmt (job_ID g) (failed_row (if job_MaxAttempts g \<le> job_Attempts g then ''failed'' else ''retryable'')
         (ts_in (if job_MaxAttempts g \<le> job_Attempts g then w_clock w else w_clock w + retryDelay (job_Attempts g))) (take 2000 cause)))))
      (\<lambda>n. if n \<noteq> 1 then fail (Errorf ''fail job: job is not leased'' []) else ok (job_MaxAttempts g \<le> job_Attempts g)) w
    = (Inr terminal, w')"
proof -
  let ?terminal = "job_MaxAttempts g \<le> job_Attempts g"
  let ?state = "if ?terminal then ''failed'' else ''retryable''"
  let ?msg = "if maxStoredErrorLength < length cause then take maxStoredErrorLength cause else cause"
  let ?at = "if ?terminal then w_clock w else w_clock w + retryDelay (job_Attempts g)"
  have msg: "?msg = take 2000 cause" by (auto simp: maxStoredErrorLength_def)
  have run: "and_then (wrapping ''fail job: %w'' []
      (pg_exec (and_then (convert (text_in ?msg)) (\<lambda>stored.
         update_leased_stmt (job_ID g) (failed_row ?state (ts_in ?at) stored)))))
      (\<lambda>n. if n \<noteq> 1 then fail (Errorf ''fail job: job is not leased'' []) else ok ?terminal) w = (Inr terminal, w')"
    using assms unfolding FailJob_def Let_def go_now_then .
  show ?thesis
  proof (cases "text_in (take 2000 cause)")
    case (Inl e)
    with run show ?thesis
      unfolding msg Inl convert_Inl by (simp add: and_then_Inr wrapping_Inr pg_exec_fail_Inr)
  next
    case (Inr t)
    then have "text_in (take 2000 cause) = Inr (take 2000 cause)" by (simp add: text_in_def split: if_splits)
    with run show ?thesis unfolding msg by (simp only: convert_Inr)
  qed
qed

text \<open>
  C17 \<open>CompleteJob\<close> succeeds only on a leased job and turns exactly that row into a completed one
  without a lease; \<open>FailJob\<close> succeeds only on a leased job and turns exactly that row into a failed
  one when the attempts it was leased with have reached the budget, which is what it returns, and
  otherwise into one to be retried after \<open>retryDelay\<close>, with the error text it was given cut at
  2,000 bytes. So a job whose budget is used up is never queued again by \<open>FailJob\<close>.
\<close>

theorem finish_job_effect:
  assumes "jobs_ok (w_db w)"
  shows "(CompleteJob i w = (Inr (), w') \<longrightarrow>
      (\<exists>j \<in> set (db_jobs (w_db w)). uuid_in i = Inr (job_ID j) \<and> jr_State j = ''leased''
        \<and> db_jobs (w_db w') =
            map (\<lambda>r. if r = j then completed_row (db_now (w_db w)) r else r) (db_jobs (w_db w))))
    \<and> (FailJob g cause w = (Inr terminal, w') \<longrightarrow>
      terminal = (job_MaxAttempts g \<le> job_Attempts g)
      \<and> (\<exists>j \<in> set (db_jobs (w_db w)). uuid_in (job_ID g) = Inr (job_ID j) \<and> jr_State j = ''leased''
        \<and> db_jobs (w_db w') =
            map (\<lambda>r. if r = j then
                if terminal then failed_row ''failed'' (ts_in (w_clock w)) (take 2000 cause) (db_now (w_db w)) r
                else failed_row ''retryable'' (ts_in (w_clock w + retryDelay (job_Attempts g)))
                       (take 2000 cause) (db_now (w_db w)) r
              else r) (db_jobs (w_db w))))"
proof (intro conjI impI)
  assume "CompleteJob i w = (Inr (), w')"
  then show "\<exists>j \<in> set (db_jobs (w_db w)). uuid_in i = Inr (job_ID j) \<and> jr_State j = ''leased''
        \<and> db_jobs (w_db w') =
            map (\<lambda>r. if r = j then completed_row (db_now (w_db w)) r else r) (db_jobs (w_db w))"
    unfolding CompleteJob_def by (rule checked_one_row [OF assms])
next
  assume "FailJob g cause w = (Inr terminal, w')"
  note stmt = FailJob_stmt [OF this]
  then show tq: "terminal = (job_MaxAttempts g \<le> job_Attempts g)"
    by (auto simp: and_then_Inr ok_def fail_def split: if_splits)
  show "\<exists>j \<in> set (db_jobs (w_db w)). uuid_in (job_ID g) = Inr (job_ID j) \<and> jr_State j = ''leased''
        \<and> db_jobs (w_db w') =
            map (\<lambda>r. if r = j then
                if terminal then failed_row ''failed'' (ts_in (w_clock w)) (take 2000 cause) (db_now (w_db w)) r
                else failed_row ''retryable'' (ts_in (w_clock w + retryDelay (job_Attempts g)))
                       (take 2000 cause) (db_now (w_db w)) r
              else r) (db_jobs (w_db w))"
    using checked_one_row [OF assms stmt] unfolding tq
    by (cases "job_MaxAttempts g \<le> job_Attempts g") (simp_all only: if_True if_False)
qed

text \<open>
  C18 An error text whose 2,000-byte cut ends inside a rune cannot be stored: PostgreSQL rejects the
  text, \<open>FailJob\<close> returns an error on every connection, and the job stays leased as it was, neither
  retried nor failed.
\<close>

theorem fail_job_cut_rune:
  assumes "2000 < length cause" and "\<not> utf8_valid (take 2000 cause)"
  shows "\<exists>e w'. FailJob g cause w = (Inl e, w') \<and> w_db w' = w_db w"
proof -
  obtain f w1 where f: "next_fault w = (f, w1)" by fastforce
  show ?thesis
    using assms f next_fault_same [OF f]
    by (cases f)
      (simp_all add: FailJob_def Let_def go_now_def maxStoredErrorLength_def pg_exec_def act_simps text_in_def)
qed

text \<open>
  C19 A lease is not fenced: \<open>CompleteJob\<close> looks at the job's id and state only. Whoever holds the
  lease of a leased job and for however long, a call by any other worker, such as one whose own
  lease ran out, completes it.
\<close>

theorem complete_ignores_holder:
  assumes "jobs_ok (w_db w)" and "w_faults w = []" and "j \<in> set (db_jobs (w_db w))"
    and "jr_State j = ''leased''" and "jr_LeasedBy j = Some other" and "uuid_in (job_ID j) = Inr (job_ID j)"
  shows "\<exists>w'. CompleteJob (job_ID j) w = (Inr (), w')
    \<and> completed_row (db_now (w_db w)) j \<in> set (db_jobs (w_db w'))"
proof -
  let ?p = "\<lambda>k. job_ID k = job_ID j \<and> jr_State k = ''leased''"
  have d: "distinct (map job_ID (db_jobs (w_db w)))" using assms(1) by (simp add: jobs_ok_def)
  have "filter ?p (db_jobs (w_db w)) = filter (\<lambda>k. jr_State k = ''leased'') (filter (\<lambda>k. job_ID k = job_ID j) (db_jobs (w_db w)))"
    by (simp add: conj_commute)
  then have "filter ?p (db_jobs (w_db w)) = [j]"
    using filter_key_unique [OF d assms(3)] assms(4) by simp
  then show ?thesis
    using assms by (simp add: CompleteJob_def update_leased_stmt_def act_simps pg_exec_def next_fault_def
        set_update_where)
qed

text \<open>A lease on a healthy connection.\<close>

lemma lease_healthy:
  assumes "w_faults w = []" and "text_in worker = Inr worker" and "next_job (w_db w) = Some j"
    and "int4_in (job_Attempts j + 1) = Inr (job_Attempts j + 1)"
  shows "LeaseNextJob worker dur w =
    (Inr (Some (job.truncate (leased_row worker (ts_in (w_clock w + dur)) (db_now (w_db w)) j))),
     w\<lparr>w_db := (w_db w)\<lparr>db_jobs := update_where (\<lambda>r. job_ID r = job_ID j)
       (leased_row worker (ts_in (w_clock w + dur)) (db_now (w_db w))) (db_jobs (w_db w))\<rparr>\<rparr>)"
  using assms
  by (simp add: LeaseNextJob_def transaction_def next_fault_def go_now_def and_then_def wrapping_def pg_exec_def
      lease_stmt_def read_db_def write_db_def convert_def ok_def)

lemma oldest_is_next:
  assumes "j \<in> set (db_jobs d)" and "leasable (db_now d) j"
    and "\<forall>k \<in> set (db_jobs d). k \<noteq> j \<longrightarrow> queue_key j < queue_key k"
  shows "next_job d = Some j"
proof (cases "next_job d")
  case None
  then show ?thesis using assms(1,2) by (simp add: next_job_None)
next
  case (Some k)
  have "queue_key k \<le> queue_key j" using next_job_least [OF Some] assms(1,2) by blast
  then show ?thesis using assms(3) next_job_Some [OF Some] Some by (metis leD)
qed

text \<open>
  C20 The budget of attempts does not bound leases. When the lease of a job runs out, because its worker
  vanished, and the job is the oldest of the queue, the next \<open>LeaseNextJob\<close> on a healthy connection leases
  it again, although the attempts it was leased for before have already used up \<open>max_attempts\<close>: it
  returns the job with one attempt more, beyond the budget, and the row is leased anew.
\<close>

theorem lease_beyond_budget:
  assumes "jobs_ok (w_db w)" and "w_faults w = []" and "text_in worker = Inr worker"
    and "j \<in> set (db_jobs (w_db w))" and "jr_State j = ''leased''"
    and "jr_LeasedUntil j = Some u" and "u \<le> db_now (w_db w)"
    and "job_MaxAttempts j \<le> job_Attempts j" and "job_Attempts j < 2147483647"
    and "\<forall>k \<in> set (db_jobs (w_db w)). k \<noteq> j \<longrightarrow>
      jr_AvailableAt j < jr_AvailableAt k \<or> jr_AvailableAt j = jr_AvailableAt k \<and> jr_CreatedAt j < jr_CreatedAt k"
  shows "\<exists>got w'. LeaseNextJob worker dur w = (Inr (Some got), w') \<and> job_ID got = job_ID j
    \<and> job_Attempts got = job_Attempts j + 1 \<and> job_MaxAttempts got < job_Attempts got
    \<and> leased_row worker (ts_in (w_clock w + dur)) (db_now (w_db w)) j \<in> set (db_jobs (w_db w'))"
proof -
  have "leasable (db_now (w_db w)) j" using assms(5-7) by (simp add: leasable_def)
  moreover have "\<forall>k \<in> set (db_jobs (w_db w)). k \<noteq> j \<longrightarrow> queue_key j < queue_key k"
    using assms(10) by (auto simp: less_prod_def')
  ultimately have oldest: "next_job (w_db w) = Some j" using oldest_is_next assms(4) by blast
  have "0 \<le> job_Attempts j" using assms(1,4) by (simp add: jobs_ok_def job_row_ok_def)
  then have "int4_in (job_Attempts j + 1) = Inr (job_Attempts j + 1)" using assms(9) by (simp add: int4_in_def)
  from lease_healthy [OF assms(2,3) oldest this] show ?thesis
    using assms(4,8) by (auto simp: job.truncate_def leased_row_def set_update_where)
qed

section \<open>The properties at concrete queues\<close>

definition empty_db :: "time \<Rightarrow> (nat \<Rightarrow> string) \<Rightarrow> db" where
  "empty_db now uuids =
     \<lparr>db_documents = [], db_pages = [], db_claims = [], db_strategies = [], db_citations = [],
      db_snapshots = [], db_runs = [], db_candidates = [], db_evidence = [], db_jobs = [],
      db_now = now, db_uuid = uuids, db_next = 0, db_collation = (\<lambda>a b. a < b)\<rparr>"

definition sample_job :: "string \<Rightarrow> string \<Rightarrow> int \<Rightarrow> time option \<Rightarrow> string option \<Rightarrow> time \<Rightarrow> job_row" where
  "sample_job i state attempts until holder available =
     \<lparr>job_ID = i, job_Type = ''run_backtest'', job_Payload = Raw (JObject []), job_Attempts = attempts,
      job_MaxAttempts = 3, jr_State = state, jr_AvailableAt = available, jr_LeasedUntil = until,
      jr_LeasedBy = holder, jr_LastError = None, jr_CreatedAt = 0, jr_UpdatedAt = 0\<rparr>"

definition sample_id :: string where
  "sample_id = ''0a000000-0000-4000-8000-00000000000f''"

definition queue_of :: "job_row list \<Rightarrow> world" where
  "queue_of js = \<lparr>w_db = (empty_db 9000 (\<lambda>n. [])) \<lparr>db_jobs := js\<rparr>, w_faults = [], w_clock = 9500\<rparr>"

lemma uuid_in_sample_id: "uuid_in sample_id = Inr sample_id"
  unfolding sample_id_def by code_simp

lemmas sample_queue_simps = queue_of_def sample_job_def empty_db_def jobs_ok_def job_row_ok_def job_types_def

text \<open>What a call returned, as far as it is needed here.\<close>

definition returns :: "('a \<Rightarrow> bool) \<Rightarrow> 'a result \<times> 'w \<Rightarrow> bool" where
  "returns p rw = (case fst rw of Inr x \<Rightarrow> p x | Inl e \<Rightarrow> False)"

lemma returnsE: "returns p rw \<Longrightarrow> \<exists>x w. rw = (Inr x, w) \<and> p x"
  by (cases rw) (auto simp: returns_def split: sum.splits)

definition two_due :: world where
  "two_due = queue_of [sample_job ''b'' ''queued'' 0 None None 8000, sample_job ''a'' ''retryable'' 1 None None 7000]"

lemma two_due_ok: "jobs_ok (w_db two_due)"
  by (simp add: two_due_def sample_queue_simps)

theorem lease_takes_oldest_witness:
  "\<exists>got w'. LeaseNextJob ''w1'' 1000000 two_due = (Inr (Some got), w')
     \<and> job_ID got = ''a'' \<and> job_Attempts got = 2"
proof -
  have "returns (\<lambda>r. r \<noteq> None) (LeaseNextJob ''w1'' 1000000 two_due)" by code_simp
  then obtain got w' where got: "LeaseNextJob ''w1'' 1000000 two_due = (Inr (Some got), w')"
    by (auto dest: returnsE)
  from lease_takes_oldest [OF got two_due_ok] have "job_ID got = ''a'' \<and> job_Attempts got = 2"
    by (auto simp: two_due_def sample_queue_simps leasable_def job.truncate_def leased_row_def)
  with got show ?thesis by blast
qed

definition held :: world where
  "held = queue_of [sample_job sample_id ''leased'' 3 (Some 9600) (Some ''w1'') 7000]"

lemma held_ok: "jobs_ok (w_db held)"
  by (simp add: held_def sample_queue_simps)

abbreviation held_row :: job_row where
  "held_row \<equiv> sample_job sample_id ''leased'' 3 (Some 9600) (Some ''w1'') 7000"

theorem lease_excludes_witness:
  "held_row \<in> set (db_jobs (w_db (snd (LeaseNextJob ''w2'' 1000000 held))))"
  using lease_excludes [of "''w2''" 1000000 held "fst (LeaseNextJob ''w2'' 1000000 held)"
      "snd (LeaseNextJob ''w2'' 1000000 held)" held_row 9600] held_ok
  by (simp add: held_def queue_of_def sample_job_def empty_db_def)

theorem finish_job_effect_witness:
  "\<exists>w'. FailJob (job.truncate held_row) ''boom'' held = (Inr True, w')
     \<and> map jr_State (db_jobs (w_db w')) = [''failed'']"
proof -
  have "returns (\<lambda>b. b) (FailJob (job.truncate held_row) ''boom'' held)" by code_simp
  then obtain w' where run: "FailJob (job.truncate held_row) ''boom'' held = (Inr True, w')"
    by (auto dest: returnsE)
  with finish_job_effect [OF held_ok, of "[]" w' "job.truncate held_row" "''boom''" True]
  show ?thesis
    by (auto simp: held_def queue_of_def empty_db_def failed_row_def)
qed

text \<open>1,999 letters and a two-byte rune: the cut keeps half of it.\<close>

lemma cut_rune_invalid: "is_ascii s \<Longrightarrow> \<not> utf8_valid (s @ [char_of (195 :: nat)])"
  by (simp add: utf8_valid_def runes_ascii_append byte_in_def)

theorem fail_job_cut_rune_witness:
  "\<exists>e w'. FailJob (job.truncate held_row)
       (replicate 1999 (CHR ''x'') @ map char_of [195, 169 :: nat]) held = (Inl e, w')
     \<and> w_db w' = w_db held"
proof (rule fail_job_cut_rune)
  show "\<not> utf8_valid (take 2000 (replicate 1999 (CHR ''x'') @ map char_of [195, 169 :: nat]))"
    using cut_rune_invalid [of "replicate 1999 (CHR ''x'')"] by (simp add: is_ascii_def list_all_iff)
qed simp

theorem complete_ignores_holder_witness:
  "\<exists>w'. CompleteJob sample_id held = (Inr (), w')
     \<and> completed_row 9000 held_row \<in> set (db_jobs (w_db w'))"
  using complete_ignores_holder [of held held_row "''w1''"] held_ok uuid_in_sample_id
  by (simp add: held_def queue_of_def sample_job_def empty_db_def)

definition expired :: world where
  "expired = queue_of [sample_job ''b'' ''queued'' 0 None None 8000,
     sample_job sample_id ''leased'' 3 (Some 8000) (Some ''w1'') 7000]"

lemma expired_ok: "jobs_ok (w_db expired)"
  by (simp add: expired_def sample_queue_simps sample_id_def)

theorem lease_beyond_budget_witness:
  "\<exists>got w'. LeaseNextJob ''w2'' 1000000 expired = (Inr (Some got), w') \<and> job_ID got = sample_id \<and> job_Attempts got = 4"
proof -
  have "text_in ''w2'' = Inr ''w2''" by code_simp
  with lease_beyond_budget [OF expired_ok, of "''w2''" "sample_job sample_id ''leased'' 3 (Some 8000) (Some ''w1'') 7000" 8000 1000000]
  show ?thesis by (force simp: expired_def queue_of_def sample_job_def empty_db_def)
qed

end
