(* ===== verification/Schema.thy ===== *)
theory Schema
  imports JobQueue
begin

text \<open>
  What the tables satisfy between statements, and what no operation of the store ever undoes. The
  first is the constraints of \<open>migrations/*.sql\<close> (keys, references, checks) with the facts the code
  itself maintains (gapless versions, a claim on a page of its own document, the life of a job);
  the second is an extension order: strategies, citations and snapshots are only ever added,
  documents and runs keep everything but their progress, and a cited claim keeps its content.
\<close>

section \<open>Keys, references, checks\<close>

definition keys_ok :: "db \<Rightarrow> bool" where
  "keys_ok d \<longleftrightarrow>
     distinct (map doc_ID (db_documents d)) \<and> distinct (map doc_SHA256 (db_documents d))
     \<and> distinct (map doc_StorageKey (db_documents d))
     \<and> distinct (map pg_ID (db_pages d))
     \<and> distinct (map (\<lambda>p. (pg_DocumentID p, pg_PageNumber p)) (db_pages d))
     \<and> distinct (map cr_ID (db_claims d))
     \<and> distinct (map st_ID (db_strategies d))
     \<and> distinct (map (\<lambda>s. (st_Slug s, st_Version s)) (db_strategies d))
     \<and> distinct (db_citations d) \<and> distinct (map snap_ID (db_snapshots d))
     \<and> distinct (map run_ID (db_runs d)) \<and> distinct (map cnd_ID (db_candidates d))
     \<and> distinct (map (\<lambda>c. (cnd_RunID c, cnd_Symbol c)) (db_candidates d))
     \<and> distinct (map (\<lambda>c. (cnd_RunID c, cnd_Rank c)) (db_candidates d))
     \<and> distinct (map (\<lambda>e. (er_CandidateID e, er_ClaimID e)) (db_evidence d))"

definition refs_ok :: "db \<Rightarrow> bool" where
  "refs_ok d \<longleftrightarrow>
     pg_DocumentID ` set (db_pages d) \<subseteq> doc_ID ` set (db_documents d)
     \<and> (\<lambda>c. (cr_DocumentID c, cr_PageID c)) ` set (db_claims d)
         \<subseteq> (\<lambda>p. (pg_DocumentID p, pg_ID p)) ` set (db_pages d)
     \<and> fst ` set (db_citations d) \<subseteq> st_ID ` set (db_strategies d)
     \<and> snd ` set (db_citations d) \<subseteq> cr_ID ` set (db_claims d)
     \<and> run_StrategyID ` set (db_runs d) \<subseteq> st_ID ` set (db_strategies d)
     \<and> run_MarketDataSnapshotID ` set (db_runs d) \<subseteq> snap_ID ` set (db_snapshots d)
     \<and> (\<lambda>c. (cnd_RunID c, cnd_StrategyID c)) ` set (db_candidates d)
         \<subseteq> (\<lambda>r. (run_ID r, run_StrategyID r)) ` {r \<in> set (db_runs d). run_ResultChecksum r \<noteq> None}
     \<and> er_CandidateID ` set (db_evidence d) \<subseteq> cnd_ID ` set (db_candidates d)
     \<and> er_ClaimID ` set (db_evidence d) \<subseteq> cr_ID ` set (db_claims d)"

definition document_statuses :: "string list" where
  "document_statuses = [''queued'', ''processing'', ''ready'', ''failed'']"

definition run_statuses :: "string list" where
  "run_statuses = [''queued'', ''running'', ''completed'', ''failed'']"

definition claim_row_ok :: "claim_row \<Rightarrow> bool" where
  "claim_row_ok c \<longleftrightarrow>
     valid_claim_kind (cr_Kind c) \<and> valid_direction (cr_Direction c)
     \<and> (\<forall>h. cr_HorizonDays c = Some h \<longrightarrow> 0 < h)
     \<and> stored_confidence (cr_Confidence c)
     \<and> cr_ValidationStatus c \<in> {''pending'', ''accepted'', ''rejected''}"

text \<open>A result is recorded as a whole: completion time, checksum, engine and artifact together.\<close>

definition run_row_ok :: "backtest_run \<Rightarrow> bool" where
  "run_row_ok r \<longleftrightarrow>
     run_Status r \<in> set run_statuses
     \<and> (run_ResultChecksum r \<noteq> None \<longleftrightarrow> run_CompletedAt r \<noteq> None)
     \<and> (run_EngineVersion r \<noteq> None \<longleftrightarrow> run_CompletedAt r \<noteq> None)
     \<and> (run_ResultArtifactKey r \<noteq> None \<longleftrightarrow> run_CompletedAt r \<noteq> None)
     \<and> (run_Status r = ''completed'' \<longrightarrow> run_CompletedAt r \<noteq> None)"

definition cand_row_ok :: "cand_row \<Rightarrow> bool" where
  "cand_row_ok c \<longleftrightarrow> 0 < cnd_Rank c \<and> pg_positive (cnd_Weight c)"

definition checks_ok :: "db \<Rightarrow> bool" where
  "checks_ok d \<longleftrightarrow>
     (\<forall>x \<in> set (db_documents d). doc_Status x \<in> set document_statuses)
     \<and> (\<forall>p \<in> set (db_pages d). 0 < pg_PageNumber p)
     \<and> (\<forall>c \<in> set (db_claims d). claim_row_ok c)
     \<and> (\<forall>r \<in> set (db_runs d). run_row_ok r)
     \<and> (\<forall>c \<in> set (db_candidates d). cand_row_ok c)"

text \<open>The versions of a slug are 1, 2, 3, ... without a gap.\<close>

definition versions_ok :: "db \<Rightarrow> bool" where
  "versions_ok d \<longleftrightarrow>
     (\<forall>s \<in> set (db_strategies d). 1 \<le> st_Version s
        \<and> (\<forall>v. 1 \<le> v \<and> v < st_Version s \<longrightarrow>
              (st_Slug s, v) \<in> (\<lambda>t. (st_Slug t, st_Version t)) ` set (db_strategies d)))"

text \<open>
  What is relied on of \<open>gen_random_uuid()\<close>: its text is in the canonical spelling. So the ids of
  strategies and candidates, which the store reads in one statement and passes to the next, are.
\<close>

definition uuids_ok :: "db \<Rightarrow> bool" where
  "uuids_ok d \<longleftrightarrow> (\<forall>n. uuid_in (db_uuid d n) = Inr (db_uuid d n))
     \<and> (\<forall>s \<in> set (db_strategies d). uuid_in (st_ID s) = Inr (st_ID s))
     \<and> (\<forall>c \<in> set (db_candidates d). uuid_in (cnd_ID c) = Inr (cnd_ID c))"

definition schema_ok :: "db \<Rightarrow> bool" where
  "schema_ok d \<longleftrightarrow> keys_ok d \<and> refs_ok d \<and> checks_ok d \<and> versions_ok d \<and> jobs_ok d \<and> uuids_ok d"

lemmas schema_defs = schema_ok_def keys_ok_def refs_ok_def checks_ok_def versions_ok_def uuids_ok_def

lemma claim_on_page:
  assumes "schema_ok d" and "c \<in> set (db_claims d)"
  shows "\<exists>p \<in> set (db_pages d). pg_DocumentID p = cr_DocumentID c \<and> pg_ID p = cr_PageID c"
proof -
  have "(\<lambda>c. (cr_DocumentID c, cr_PageID c)) ` set (db_claims d) \<subseteq> (\<lambda>p. (pg_DocumentID p, pg_ID p)) ` set (db_pages d)"
    using assms(1) by (simp add: schema_ok_def refs_ok_def)
  then have "(cr_DocumentID c, cr_PageID c) \<in> (\<lambda>p. (pg_DocumentID p, pg_ID p)) ` set (db_pages d)"
    using assms(2) by (simp add: image_subset_iff)
  then show ?thesis by (auto simp: image_iff)
qed

section \<open>What is never undone\<close>

text \<open>A table keeps its rows, in order, each changed only as \<open>P\<close> allows, and may gain rows.\<close>

definition rows_extend :: "('a \<Rightarrow> 'a \<Rightarrow> bool) \<Rightarrow> 'a list \<Rightarrow> 'a list \<Rightarrow> bool" where
  "rows_extend P xs ys \<longleftrightarrow> length xs \<le> length ys \<and> list_all2 P xs (take (length xs) ys)"

definition same_document :: "doc_row \<Rightarrow> doc_row \<Rightarrow> bool" where
  "same_document a b \<longleftrightarrow> b\<lparr>doc_Status := doc_Status a\<rparr> = a"

definition same_run :: "backtest_run \<Rightarrow> backtest_run \<Rightarrow> bool" where
  "same_run a b \<longleftrightarrow>
     run_ID b = run_ID a \<and> run_StrategyID b = run_StrategyID a
     \<and> run_MarketDataSnapshotID b = run_MarketDataSnapshotID a
     \<and> run_DocumentCutoffAt b = run_DocumentCutoffAt a \<and> run_Parameters b = run_Parameters a
     \<and> run_CreatedAt b = run_CreatedAt a
     \<and> (run_ResultChecksum a \<noteq> None \<longrightarrow> run_ResultChecksum b \<noteq> None)"

text \<open>The claims a strategy cites are there afterwards, with everything but their review status.\<close>

definition cited_kept :: "db \<Rightarrow> db \<Rightarrow> bool" where
  "cited_kept d d' \<longleftrightarrow>
     (\<forall>c \<in> set (db_claims d). cr_ID c \<in> snd ` set (db_citations d) \<longrightarrow>
        (\<exists>c' \<in> set (db_claims d'). c'\<lparr>cr_ValidationStatus := cr_ValidationStatus c\<rparr> = c))"

definition grows :: "db \<Rightarrow> db \<Rightarrow> bool" where
  "grows d d' \<longleftrightarrow>
     prefix (db_strategies d) (db_strategies d') \<and> prefix (db_citations d) (db_citations d')
     \<and> prefix (db_snapshots d) (db_snapshots d')
     \<and> rows_extend same_document (db_documents d) (db_documents d')
     \<and> rows_extend same_run (db_runs d) (db_runs d')
     \<and> cited_kept d d' \<and> jobs_evolve d d'"

text \<open>The discipline of the store: from sound tables to sound tables that extend them.\<close>

definition store_step :: "db \<Rightarrow> db \<Rightarrow> bool" where
  "store_step d d' \<longleftrightarrow> (schema_ok d \<longrightarrow> schema_ok d' \<and> grows d d')"

lemma image_update_where [simp]:
  "(\<And>x. g (f x) = g x) \<Longrightarrow> g ` set (update_where p f xs) = g ` set xs"
  by (metis list.set_map map_update_where)

lemma rows_extend_refl [simp]: "(\<And>x. P x x) \<Longrightarrow> rows_extend P xs xs"
  by (simp add: rows_extend_def list_all2_refl)

lemma rows_extend_trans:
  assumes tr: "\<And>x y z. P x y \<Longrightarrow> P y z \<Longrightarrow> P x z" and "rows_extend P xs ys" and "rows_extend P ys zs"
  shows "rows_extend P xs zs"
  unfolding rows_extend_def list_all2_conv_all_nth
proof (intro conjI allI impI)
  show "length xs \<le> length zs" "length xs = length (take (length xs) zs)"
    using assms(2,3) by (auto simp: rows_extend_def)
  fix i assume i: "i < length xs"
  then have "P (xs ! i) (ys ! i)" "P (ys ! i) (zs ! i)" "length xs \<le> length zs"
    using assms(2,3) by (auto simp: rows_extend_def list_all2_conv_all_nth)
  then show "P (xs ! i) (take (length xs) zs ! i)" using tr i by simp
qed

lemma rows_extend_append: "(\<And>x. P x x) \<Longrightarrow> rows_extend P xs (xs @ ys)"
  by (simp add: rows_extend_def list_all2_refl)

lemma rows_extend_update:
  "(\<And>x. P x x) \<Longrightarrow> (\<And>x. x \<in> set xs \<Longrightarrow> p x \<Longrightarrow> P x (f x)) \<Longrightarrow> rows_extend P xs (update_where p f xs)"
  by (auto simp: rows_extend_def update_where_def list_all2_conv_all_nth)

lemma rows_extend_row: "rows_extend P xs ys \<Longrightarrow> x \<in> set xs \<Longrightarrow> \<exists>y \<in> set ys. P x y"
  unfolding rows_extend_def list_all2_conv_all_nth
  by (metis in_set_conv_nth in_set_takeD nth_mem)

lemma same_document_refl [simp]: "same_document a a"
  by (simp add: same_document_def)

lemma same_document_trans: "same_document a b \<Longrightarrow> same_document b c \<Longrightarrow> same_document a c"
  unfolding same_document_def by (metis doc_row.surjective document.update_convs(5) document.select_convs(5))

lemma same_run_refl [simp]: "same_run a a"
  by (simp add: same_run_def)

lemma same_run_trans: "same_run a b \<Longrightarrow> same_run b c \<Longrightarrow> same_run a c"
  by (simp add: same_run_def)

lemma claim_row_same [simp]: "c\<lparr>cr_ValidationStatus := cr_ValidationStatus c\<rparr> = (c :: claim_row)"
  by (cases c) simp

lemma cited_kept_same: "db_claims d' = db_claims d \<Longrightarrow> cited_kept d d'"
  unfolding cited_kept_def by (metis claim_row_same)

lemma cited_kept_subset:
  "{c \<in> set (db_claims d). cr_ID c \<in> snd ` set (db_citations d)} \<subseteq> set (db_claims d') \<Longrightarrow> cited_kept d d'"
  unfolding cited_kept_def by (metis (mono_tags, lifting) claim_row_same mem_Collect_eq subsetD)

lemma cited_kept_trans:
  assumes "cited_kept a b" and "cited_kept b c" and "prefix (db_citations a) (db_citations b)"
  shows "cited_kept a c"
  unfolding cited_kept_def
proof (intro ballI impI)
  fix x assume x: "x \<in> set (db_claims a)" "cr_ID x \<in> snd ` set (db_citations a)"
  then obtain y where y: "y \<in> set (db_claims b)" "y\<lparr>cr_ValidationStatus := cr_ValidationStatus x\<rparr> = x"
    using assms(1) by (auto simp: cited_kept_def)
  then have "cr_ID y = cr_ID x" by (metis claim_row.select_convs(1) claim_row.surjective claim_row.update_convs(12))
  moreover have "set (db_citations a) \<subseteq> set (db_citations b)"
    using assms(3) by (rule set_mono_prefix)
  ultimately have "cr_ID y \<in> snd ` set (db_citations b)" using x(2) by auto
  then obtain z where "z \<in> set (db_claims c)" "z\<lparr>cr_ValidationStatus := cr_ValidationStatus y\<rparr> = y"
    using assms(2) y(1) by (auto simp: cited_kept_def)
  then have "z\<lparr>cr_ValidationStatus := cr_ValidationStatus x\<rparr> = x"
    using y(2) by (metis claim_row.surjective claim_row.update_convs(12))
  with \<open>z \<in> set (db_claims c)\<close>
  show "\<exists>z \<in> set (db_claims c). z\<lparr>cr_ValidationStatus := cr_ValidationStatus x\<rparr> = x" by blast
qed

lemma grows_refl: "grows d d"
  by (simp add: grows_def cited_kept_same jobs_evolve_same)

lemma grows_trans: "grows a b \<Longrightarrow> grows b c \<Longrightarrow> grows a c"
  unfolding grows_def
  by (meson prefix_order.trans rows_extend_trans same_document_trans same_run_trans
      cited_kept_trans jobs_evolve_trans)

interpretation store: db_preorder store_step
  by unfold_locales (auto simp: store_step_def grows_refl intro: grows_trans)

interpretation store_world: state_preorder "on_db store_step"
  by (rule state_preorder_on_db) (rule store.state_preorder_axioms)

lemmas store_rules = store_world.keeps_ok store_world.keeps_fail store_world.keeps_and_then
  store_world.keeps_attempt store_world.keeps_wrapping store_world.keeps_for_each
  store.keeps_pg_exec store.keeps_pg_query store.keeps_transaction store.keeps_go_now

section \<open>Statements that leave most tables alone\<close>

definition same_tables :: "db \<Rightarrow> db \<Rightarrow> bool" where
  "same_tables d d' \<longleftrightarrow>
     db_documents d' = db_documents d \<and> db_pages d' = db_pages d \<and> db_claims d' = db_claims d
     \<and> db_strategies d' = db_strategies d \<and> db_citations d' = db_citations d
     \<and> db_snapshots d' = db_snapshots d \<and> db_runs d' = db_runs d
     \<and> db_candidates d' = db_candidates d \<and> db_evidence d' = db_evidence d \<and> db_uuid d' = db_uuid d"

lemma schema_ok_same: "same_tables d d' \<Longrightarrow> schema_ok d \<Longrightarrow> jobs_ok d' \<Longrightarrow> schema_ok d'"
  by (simp add: schema_defs same_tables_def)

lemma store_step_queue:
  assumes "same_tables d d'" and "queue_step d d'"
  shows "store_step d d'"
  unfolding store_step_def
proof
  assume ok: "schema_ok d"
  then have "jobs_ok d' \<and> jobs_evolve d d'"
    using assms(2) by (simp add: queue_step_def schema_ok_def)
  moreover have "grows d d'" if "jobs_evolve d d'"
    using that assms(1) by (simp add: grows_def same_tables_def cited_kept_same)
  ultimately show "schema_ok d' \<and> grows d d'" using ok assms(1) by (simp add: schema_ok_same)
qed

lemma store_step_same: "same_tables d d' \<Longrightarrow> db_jobs d' = db_jobs d \<Longrightarrow> store_step d d'"
  by (simp add: store_step_queue queue_step_same)

text \<open>The queue's operations touch nothing else.\<close>

lemma queue_statement_keeps:
  assumes "keeps queue_step s" and "\<And>d. same_tables d (snd (s d))"
  shows "keeps store_step s"
  using assms by (simp add: keeps_def store_step_queue)

lemma insert_job_stmt_store [effects]: "keeps store_step (insert_job_stmt t p)"
  by (rule queue_statement_keeps [OF insert_job_stmt_keeps])
    (simp add: insert_job_stmt_def act_simps same_tables_def split: sum.split)

lemma lease_stmt_store [effects]: "keeps store_step (lease_stmt w u)"
  by (rule queue_statement_keeps [OF lease_stmt_keeps])
    (auto simp: lease_stmt_def act_simps same_tables_def split: sum.split option.split)

lemma update_leased_same_tables: "same_tables d (snd (update_leased_stmt i f d))"
  by (simp add: update_leased_stmt_def act_simps same_tables_def split: sum.split)

lemma update_completed_store [effects]: "keeps store_step (update_leased_stmt i completed_row)"
  by (rule queue_statement_keeps [OF update_completed_keeps update_leased_same_tables])

lemma update_failed_store [effects]:
  "state \<in> {''retryable'', ''failed''} \<Longrightarrow> keeps store_step (update_leased_stmt i (failed_row state a m))"
  by (rule queue_statement_keeps [OF update_failed_keeps update_leased_same_tables])

lemma LeaseNextJob_store [effects]: "keeps (on_db store_step) (LeaseNextJob w dur)"
  unfolding LeaseNextJob_def
  by (intro store_rules effects) (auto split: option.splits intro: store_rules)

lemma CompleteJob_store [effects]: "keeps (on_db store_step) (CompleteJob i)"
  unfolding CompleteJob_def by (intro store_rules effects) (auto intro: store_rules)

lemma FailJob_store [effects]: "keeps (on_db store_step) (FailJob j cause)"
  unfolding FailJob_def Let_def
  by (intro store_rules store.keeps_and_then store.keeps_convert effects) (auto intro: store_rules)

lemma insert_job_store [effects]: "keeps (on_db store_step) (insert_job t p)"
  unfolding insert_job_def by (intro store_rules effects)

lemma create_market_data_job_store [effects]: "keeps (on_db store_step) (create_market_data_job r)"
  unfolding create_market_data_job_def by (intro store_rules effects)

end
