(* ===== verification/DocumentStore.thy ===== *)
theory DocumentStore
  imports Schema
begin

text \<open>
  The document and claim operations of \<open>internal/store/store.go\<close> and \<open>claims.go\<close>: storing a document
  with its extraction job, replacing an extraction, reading and reviewing claims.
\<close>

definition no_rows :: err where
  "no_rows = External ''no rows in result set''"

text \<open>\<open>QueryRow(...).Scan\<close> of a query that may return no row.\<close>

definition one_row :: "'a option \<Rightarrow> 'a stmt" where
  "one_row r = (case r of None \<Rightarrow> fail no_rows | Some x \<Rightarrow> ok x)"

section \<open>Documents\<close>

definition document_metadata :: "create_document_input \<Rightarrow> raw_message" where
  "document_metadata input =
     Raw (JObject [(''mime_type'', json_string (cdi_MIMEType input)), (''size_bytes'', JInt (cdi_SizeBytes input))])"

text \<open>\<open>INSERT ... ON CONFLICT (sha256) DO NOTHING RETURNING ...\<close>: no row when the sum is known.\<close>

definition insert_document_stmt :: "create_document_input \<Rightarrow> document stmt" where
  "insert_document_stmt input =
     and_then (convert (text_in (cdi_Filename input))) (\<lambda>filename.
     and_then (convert (text_in (cdi_StorageKey input))) (\<lambda>storage_key.
     and_then (convert (char64_in (cdi_SHA256 input))) (\<lambda>sha256.
     and_then (convert (jsonb_in (document_metadata input))) (\<lambda>metadata.
     and_then (read_db (\<lambda>d. sha256 \<in> doc_SHA256 ` set (db_documents d))) (\<lambda>known.
     if known then fail no_rows
     else
       and_then gen_random_uuid (\<lambda>i.
       and_then (constraint ''documents_pkey'' (\<lambda>d. i \<notin> doc_ID ` set (db_documents d))) (\<lambda>_.
       and_then (constraint ''documents_storage_key_key''
         (\<lambda>d. storage_key \<notin> doc_StorageKey ` set (db_documents d))) (\<lambda>_.
       and_then (read_db db_now) (\<lambda>now.
       let row = \<lparr>doc_ID = i, doc_Filename = filename, doc_StorageKey = storage_key,
                  doc_SHA256 = sha256, doc_Status = ''queued'', doc_UploadedAt = now,
                  doc_SourcePublishedAt = map_option ts_in (cdi_SourcePublishedAt input),
                  dw_Metadata = metadata\<rparr>
       in and_then (write_db (\<lambda>d. d\<lparr>db_documents := db_documents d @ [row]\<rparr>)) (\<lambda>_.
          ok (document.truncate row)))))))))))"

definition document_by_sha_stmt :: "string \<Rightarrow> document stmt" where
  "document_by_sha_stmt sha256 =
     and_then (convert (char64_in sha256)) (\<lambda>s.
     and_then (read_db (\<lambda>d. find (\<lambda>x. doc_SHA256 x = s) (db_documents d))) (\<lambda>r.
     one_row (map_option document.truncate r)))"

definition document_payload :: "string \<Rightarrow> raw_message" where
  "document_payload i = Raw (JObject [(''document_id'', json_string i)])"

definition CreateDocumentWithExtractionJob ::
    "create_document_input \<Rightarrow> ('x world_scheme, document \<times> job option \<times> bool) act" where
  "CreateDocumentWithExtractionJob input =
     transaction ''begin document transaction: %w''
       (attempt (pg_exec (insert_document_stmt input)) (\<lambda>inserted.
          case inserted of
            Inl e \<Rightarrow>
              if \<not> errors_is e no_rows then fail (Errorf ''insert document: %w'' [AW e])
              else
                and_then (wrapping ''load duplicate document: %w'' []
                  (pg_exec (document_by_sha_stmt (cdi_SHA256 input)))) (\<lambda>existing.
                ok (''commit duplicate document: %w'', (existing, None, False)))
          | Inr doc \<Rightarrow>
              and_then (wrapping ''insert extraction job: %w'' []
                (pg_exec (insert_job_stmt ''extract_document'' (document_payload (doc_ID doc))))) (\<lambda>j.
              ok (''commit document transaction: %w'', (doc, Some j, True)))))"

definition document_by_id_stmt :: "string \<Rightarrow> document stmt" where
  "document_by_id_stmt i =
     and_then (convert (uuid_in i)) (\<lambda>u.
     and_then (read_db (\<lambda>d. find (\<lambda>x. doc_ID x = u) (db_documents d))) (\<lambda>r.
     one_row (map_option document.truncate r)))"

text \<open>\<open>if errors.Is(err, pgx.ErrNoRows) { return domain.ErrNotFound }\<close>, any other error wrapped.\<close>

definition found_or :: "string \<Rightarrow> ('w, 'a) act \<Rightarrow> ('w, 'a) act" where
  "found_or msg f =
     attempt f (\<lambda>r. case r of
       Inl e \<Rightarrow> if errors_is e no_rows then fail ErrNotFound else fail (Errorf msg [AW e])
     | Inr x \<Rightarrow> ok x)"

definition GetDocument :: "string \<Rightarrow> ('x world_scheme, document) act" where
  "GetDocument i = found_or ''get document: %w'' (pg_exec (document_by_id_stmt i))"

definition document_status_stmt :: "string \<Rightarrow> string \<Rightarrow> nat stmt" where
  "document_status_stmt i status =
     and_then (convert (uuid_in i)) (\<lambda>u.
     and_then (constraint ''documents_status_check'' (\<lambda>d. status \<in> set document_statuses)) (\<lambda>_.
     and_then (read_db (\<lambda>d. length (filter (\<lambda>x. doc_ID x = u) (db_documents d)))) (\<lambda>n.
     and_then (write_db (\<lambda>d. d\<lparr>db_documents :=
         update_where (\<lambda>x. doc_ID x = u) (\<lambda>x. x\<lparr>doc_Status := status\<rparr>) (db_documents d)\<rparr>)) (\<lambda>_.
     ok n))))"

definition SetDocumentStatus :: "string \<Rightarrow> string \<Rightarrow> ('x world_scheme, unit) act" where
  "SetDocumentStatus i status =
     (if status \<notin> set document_statuses then fail (Errorf ''invalid document status %q'' [AQ status])
      else
        and_then (wrapping ''set document status: %w'' [] (pg_exec (document_status_stmt i status))) (\<lambda>n.
        if n \<noteq> 1 then fail ErrNotFound else ok ()))"

section \<open>Extractions\<close>

text \<open>
  \<open>DELETE FROM document_pages\<close> cascades to the claims of the pages, and fails when a strategy or a
  candidate refers to one of those claims.
\<close>

definition delete_pages_stmt :: "string \<Rightarrow> unit stmt" where
  "delete_pages_stmt i =
     and_then (convert (uuid_in i)) (\<lambda>u.
     and_then (read_db (\<lambda>d. pg_ID ` {p \<in> set (db_pages d). pg_DocumentID p = u})) (\<lambda>pages.
     and_then (read_db (\<lambda>d. cr_ID ` {c \<in> set (db_claims d). cr_PageID c \<in> pages})) (\<lambda>claims.
     and_then (constraint ''strategy_claims_claim_id_fkey'' (\<lambda>d. claims \<inter> snd ` set (db_citations d) = {})) (\<lambda>_.
     and_then (constraint ''candidate_claims_claim_id_fkey'' (\<lambda>d. claims \<inter> er_ClaimID ` set (db_evidence d) = {})) (\<lambda>_.
     write_db (\<lambda>d. d\<lparr>db_pages := filter (\<lambda>p. pg_DocumentID p \<noteq> u) (db_pages d),
                     db_claims := filter (\<lambda>c. cr_PageID c \<notin> pages) (db_claims d)\<rparr>))))))"

definition insert_page_stmt :: "string \<Rightarrow> page \<Rightarrow> string stmt" where
  "insert_page_stmt i p =
     and_then (convert (uuid_in i)) (\<lambda>u.
     and_then (convert (int4_in (page_Number p))) (\<lambda>n.
     and_then (convert (text_in (page_Content p))) (\<lambda>content.
     and_then (constraint ''document_pages_page_number_check'' (\<lambda>d. 0 < n)) (\<lambda>_.
     and_then (constraint ''document_pages_document_id_fkey'' (\<lambda>d. u \<in> doc_ID ` set (db_documents d))) (\<lambda>_.
     and_then (constraint ''document_pages_document_id_page_number_key''
       (\<lambda>d. (u, n) \<notin> (\<lambda>q. (pg_DocumentID q, pg_PageNumber q)) ` set (db_pages d))) (\<lambda>_.
     and_then gen_random_uuid (\<lambda>k.
     and_then (constraint ''document_pages_pkey'' (\<lambda>d. k \<notin> pg_ID ` set (db_pages d))) (\<lambda>_.
     and_then (write_db (\<lambda>d. d\<lparr>db_pages := db_pages d @
         [\<lparr>pg_ID = k, pg_DocumentID = u, pg_PageNumber = n, pg_Content = content\<rparr>]\<rparr>)) (\<lambda>_.
     ok k)))))))))"

definition insert_claim_stmt :: "string \<Rightarrow> string \<Rightarrow> claim \<Rightarrow> unit stmt" where
  "insert_claim_stmt i page_id c =
     and_then (convert (uuid_in i)) (\<lambda>u.
     and_then (convert (uuid_in page_id)) (\<lambda>pg.
     and_then (convert (opt_in text_in (cl_Ticker c))) (\<lambda>ticker.
     and_then (convert (text_in (cl_Text c))) (\<lambda>txt.
     and_then (convert (text_in (cl_EvidenceQuote c))) (\<lambda>quote.
     and_then (convert (opt_in int4_in (cl_HorizonDays c))) (\<lambda>horizon.
     and_then (convert (confidence_in (cl_Confidence c))) (\<lambda>confidence.
     and_then (constraint ''research_claims_claim_kind_check'' (\<lambda>d. valid_claim_kind (cl_Kind c))) (\<lambda>_.
     and_then (constraint ''research_claims_direction_check'' (\<lambda>d. valid_direction (cl_Direction c))) (\<lambda>_.
     and_then (constraint ''research_claims_horizon_days_check''
       (\<lambda>d. case horizon of None \<Rightarrow> True | Some h \<Rightarrow> 0 < h)) (\<lambda>_.
     and_then (constraint ''research_claims_document_id_fkey'' (\<lambda>d. u \<in> doc_ID ` set (db_documents d))) (\<lambda>_.
     and_then (constraint ''research_claims_page_id_fkey'' (\<lambda>d. pg \<in> pg_ID ` set (db_pages d))) (\<lambda>_.
     and_then gen_random_uuid (\<lambda>k.
     and_then (constraint ''research_claims_pkey'' (\<lambda>d. k \<notin> cr_ID ` set (db_claims d))) (\<lambda>_.
     and_then (read_db db_now) (\<lambda>now.
     write_db (\<lambda>d. d\<lparr>db_claims := db_claims d @
       [\<lparr>cr_ID = k, cr_DocumentID = u, cr_PageID = pg, cr_Ticker = ticker, cr_Kind = cl_Kind c,
         cr_Direction = cl_Direction c, cr_Text = txt, cr_EvidenceQuote = quote,
         cr_HorizonDays = horizon, cr_Confidence = confidence, cr_EffectiveAt = ts_in (cl_EffectiveAt c),
         cr_ValidationStatus = ''pending'', cr_CreatedAt = now\<rparr>]\<rparr>))))))))))))))))"

text \<open>The loop over the pages fills the map from page numbers to the ids of the new rows.\<close>

fun store_pages :: "string \<Rightarrow> page list \<Rightarrow> (int \<times> string) list \<Rightarrow> ('x world_scheme, (int \<times> string) list) act" where
  "store_pages i [] ids = ok ids"
| "store_pages i (p # ps) ids =
     and_then (wrapping ''store page %d: %w'' [AD (page_Number p)] (pg_exec (insert_page_stmt i p))) (\<lambda>k.
     store_pages i ps ((page_Number p, k) # ids))"

text \<open>Indexing a Go map: a missing key gives the empty string.\<close>

definition page_id :: "(int \<times> string) list \<Rightarrow> int \<Rightarrow> string" where
  "page_id ids n = (case map_of ids n of None \<Rightarrow> [] | Some k \<Rightarrow> k)"

definition store_claim :: "string \<Rightarrow> (int \<times> string) list \<Rightarrow> claim \<Rightarrow> ('x world_scheme, unit) act" where
  "store_claim i ids c =
     wrapping ''store claim for page %d: %w'' [AD (cl_PageNumber c)]
       (pg_exec (insert_claim_stmt i (page_id ids (cl_PageNumber c)) c))"

definition ReplaceExtraction :: "string \<Rightarrow> extraction \<Rightarrow> ('x world_scheme, unit) act" where
  "ReplaceExtraction i e =
     (case extraction_validate e of
        Some err \<Rightarrow> fail (Errorf ''validate extraction: %w'' [AW err])
      | None \<Rightarrow>
          transaction ''begin extraction transaction: %w''
            (and_then (wrapping ''clear extracted pages: %w'' [] (pg_exec (delete_pages_stmt i))) (\<lambda>_.
             and_then (store_pages i (ex_Pages e) []) (\<lambda>ids.
             and_then (for_each (store_claim i ids) (ex_Claims e)) (\<lambda>_.
             and_then (wrapping ''mark document ready: %w'' []
               (pg_exec (document_status_stmt i ''ready''))) (\<lambda>n.
             if n \<noteq> 1 then fail ErrNotFound else ok (''commit extraction: %w'', ())))))))"


section \<open>The statements keep the store's discipline\<close>

lemma new_document_step:
  assumes "doc_ID row \<notin> doc_ID ` set (db_documents d)" and "doc_SHA256 row \<notin> doc_SHA256 ` set (db_documents d)"
    and "doc_StorageKey row \<notin> doc_StorageKey ` set (db_documents d)" and "doc_Status row \<in> set document_statuses"
  shows "store_step d (d\<lparr>db_next := n, db_documents := db_documents d @ [row]\<rparr>)"
  unfolding store_step_def
proof (intro impI conjI)
  let ?d = "d\<lparr>db_next := n, db_documents := db_documents d @ [row]\<rparr>"
  assume ok: "schema_ok d"
  have "jobs_ok ?d" using ok by (simp add: schema_ok_def jobs_ok_def)
  then show "schema_ok ?d" using ok assms by (auto simp: schema_defs)
  show "grows d ?d" by (simp add: grows_def rows_extend_append cited_kept_same jobs_evolve_same)
qed

lemma insert_document_store [effects]: "keeps store_step (insert_document_stmt input)"
  unfolding keeps_def
  by (auto simp: insert_document_stmt_def act_simps Let_def document_statuses_def same_tables_def
      split: sum.split intro!: new_document_step intro: store_step_same)

lemma document_status_step:
  assumes "status \<in> set document_statuses"
  shows "store_step d (d\<lparr>db_documents := update_where p (\<lambda>x. x\<lparr>doc_Status := status\<rparr>) (db_documents d)\<rparr>)"
  unfolding store_step_def
proof (intro impI conjI)
  let ?d = "d\<lparr>db_documents := update_where p (\<lambda>x. x\<lparr>doc_Status := status\<rparr>) (db_documents d)\<rparr>"
  assume ok: "schema_ok d"
  have "jobs_ok ?d" using ok by (simp add: schema_ok_def jobs_ok_def)
  then show "schema_ok ?d" using ok assms
    by (simp add: schema_defs) (auto simp: set_update_where)
  show "grows d ?d"
    by (simp add: grows_def rows_extend_update same_document_def cited_kept_same jobs_evolve_same)
qed

lemma document_status_store [effects]: "keeps store_step (document_status_stmt i status)"
  by (simp add: keeps_def document_status_stmt_def act_simps document_status_step store_step_same
      same_tables_def split: sum.split)

lemma new_page_step:
  assumes "0 < n" and "u \<in> doc_ID ` set (db_documents d)" and "k \<notin> pg_ID ` set (db_pages d)"
    and "(u, n) \<notin> (\<lambda>q. (pg_DocumentID q, pg_PageNumber q)) ` set (db_pages d)"
  shows "store_step d (d\<lparr>db_next := m, db_pages := db_pages d @
    [\<lparr>pg_ID = k, pg_DocumentID = u, pg_PageNumber = n, pg_Content = content\<rparr>]\<rparr>)"
  unfolding store_step_def
proof (intro impI conjI)
  let ?row = "\<lparr>pg_ID = k, pg_DocumentID = u, pg_PageNumber = n, pg_Content = content\<rparr>"
  let ?d = "d\<lparr>db_next := m, db_pages := db_pages d @ [?row]\<rparr>"
  assume ok: "schema_ok d"
  have "jobs_ok ?d" using ok by (simp add: schema_ok_def jobs_ok_def)
  then show "schema_ok ?d" using ok assms by (auto simp: schema_defs)
  show "grows d ?d" by (simp add: grows_def cited_kept_same jobs_evolve_same)
qed

lemma insert_page_store [effects]: "keeps store_step (insert_page_stmt i p)"
  unfolding keeps_def
  by (auto simp: insert_page_stmt_def act_simps same_tables_def
      split: sum.split intro!: new_page_step intro: store_step_same)

lemma delete_pages_step:
  fixes u :: string and d :: db
  defines "pages \<equiv> pg_ID ` {p \<in> set (db_pages d). pg_DocumentID p = u}"
  assumes "cr_ID ` {c \<in> set (db_claims d). cr_PageID c \<in> pages} \<inter> snd ` set (db_citations d) = {}"
    and "cr_ID ` {c \<in> set (db_claims d). cr_PageID c \<in> pages} \<inter> er_ClaimID ` set (db_evidence d) = {}"
  shows "store_step d (d\<lparr>db_pages := filter (\<lambda>p. pg_DocumentID p \<noteq> u) (db_pages d),
                         db_claims := filter (\<lambda>c. cr_PageID c \<notin> pages) (db_claims d)\<rparr>)"
  unfolding store_step_def
proof (intro impI conjI)
  let ?d = "d\<lparr>db_pages := filter (\<lambda>p. pg_DocumentID p \<noteq> u) (db_pages d),
              db_claims := filter (\<lambda>c. cr_PageID c \<notin> pages) (db_claims d)\<rparr>"
  assume ok: "schema_ok d"
  have jobs: "jobs_ok ?d" using ok by (simp add: schema_ok_def jobs_ok_def)
  let ?gone = "cr_ID ` {c \<in> set (db_claims d). cr_PageID c \<in> pages}"
  have kept: "I \<subseteq> cr_ID ` set (db_claims ?d)" if "I \<subseteq> cr_ID ` set (db_claims d)" "?gone \<inter> I = {}" for I
  proof
    fix i assume "i \<in> I"
    then have "i \<in> cr_ID ` set (db_claims d)" "i \<notin> ?gone"
      using \<open>I \<subseteq> _\<close> \<open>?gone \<inter> I = {}\<close> by (blast, blast)
    then show "i \<in> cr_ID ` set (db_claims ?d)" by auto
  qed
  have "snd ` set (db_citations d) \<subseteq> cr_ID ` set (db_claims ?d)"
    by (rule kept) (use ok assms(2) in \<open>simp_all add: schema_ok_def refs_ok_def\<close>)
  moreover have "er_ClaimID ` set (db_evidence d) \<subseteq> cr_ID ` set (db_claims ?d)"
    by (rule kept) (use ok assms(3) in \<open>simp_all add: schema_ok_def refs_ok_def\<close>)
  moreover have "(\<lambda>c. (cr_DocumentID c, cr_PageID c)) ` set (db_claims ?d)
      \<subseteq> (\<lambda>p. (pg_DocumentID p, pg_ID p)) ` set (db_pages ?d)"
  proof (clarsimp)
    fix c assume c: "c \<in> set (db_claims d)" "cr_PageID c \<notin> pages"
    obtain p where p: "p \<in> set (db_pages d)" "cr_DocumentID c = pg_DocumentID p" "cr_PageID c = pg_ID p"
      using claim_on_page [OF ok c(1)] by auto
    then have "pg_DocumentID p \<noteq> u" using c(2) unfolding pages_def by blast
    with p show "(cr_DocumentID c, cr_PageID c) \<in>
        (\<lambda>p. (pg_DocumentID p, pg_ID p)) ` {x \<in> set (db_pages d). pg_DocumentID x \<noteq> u}"
      by simp
  qed
  moreover have "pg_DocumentID ` set (db_pages ?d) \<subseteq> pg_DocumentID ` set (db_pages d)" by auto
  ultimately have "refs_ok ?d" using ok
    unfolding schema_ok_def refs_ok_def by (simp add: subset_trans)
  moreover have "keys_ok ?d" using ok
    unfolding schema_ok_def keys_ok_def by (simp add: distinct_map_filter)
  moreover have "checks_ok ?d" using ok unfolding schema_ok_def checks_ok_def by simp
  ultimately show "schema_ok ?d" using ok jobs
    by (simp add: schema_ok_def versions_ok_def uuids_ok_def)
  have "cited_kept d ?d" by (rule cited_kept_subset) (use assms(2) in auto)
  then show "grows d ?d" by (simp add: grows_def jobs_evolve_same)
qed

lemma delete_pages_store [effects]: "keeps store_step (delete_pages_stmt i)"
  by (simp add: keeps_def delete_pages_stmt_def act_simps delete_pages_step store_step_same
      same_tables_def split: sum.split)

text \<open>A claim may only be put on a page of the document it is put under.\<close>

lemma new_claim_step:
  assumes "(cr_DocumentID row, cr_PageID row) \<in> (\<lambda>p. (pg_DocumentID p, pg_ID p)) ` set (db_pages d)"
    and "cr_ID row \<notin> cr_ID ` set (db_claims d)" and "claim_row_ok row"
  shows "store_step d (d\<lparr>db_next := n, db_claims := db_claims d @ [row]\<rparr>)"
  unfolding store_step_def
proof (intro impI conjI)
  let ?d = "d\<lparr>db_next := n, db_claims := db_claims d @ [row]\<rparr>"
  assume ok: "schema_ok d"
  have "jobs_ok ?d" using ok by (simp add: schema_ok_def jobs_ok_def)
  then show "schema_ok ?d" using ok assms by (auto simp: schema_defs)
  have "cited_kept d ?d" by (rule cited_kept_subset) auto
  then show "grows d ?d" by (simp add: grows_def jobs_evolve_same)
qed

lemma insert_claim_step:
  assumes "\<And>u k. uuid_in i = Inr u \<Longrightarrow> uuid_in pid = Inr k \<Longrightarrow>
      k \<in> pg_ID ` set (db_pages d) \<Longrightarrow> (u, k) \<in> (\<lambda>p. (pg_DocumentID p, pg_ID p)) ` set (db_pages d)"
  shows "store_step d (snd (insert_claim_stmt i pid c d))"
  using assms
  by (auto simp: insert_claim_stmt_def act_simps same_tables_def claim_row_ok_def
      split: sum.split option.splits dest: confidence_in_stored
      intro!: new_claim_step intro: store_step_same)

lemma insert_claim_pages: "db_pages (snd (insert_claim_stmt i pid c d)) = db_pages d"
  by (simp add: insert_claim_stmt_def act_simps split: sum.split)

section \<open>Replacing an extraction keeps the discipline\<close>

text \<open>The map of page ids names pages of the document.\<close>

definition ids_ok :: "string \<Rightarrow> (int \<times> string) list \<Rightarrow> db \<Rightarrow> bool" where
  "ids_ok i ids d \<longleftrightarrow>
     (\<forall>k \<in> snd ` set ids. uuid_in k = Inr k \<and> (\<forall>u. uuid_in i = Inr u \<longrightarrow>
        (u, k) \<in> (\<lambda>p. (pg_DocumentID p, pg_ID p)) ` set (db_pages d)))"

lemma ids_ok_pages: "db_pages d' = db_pages d \<Longrightarrow> ids_ok i ids d \<Longrightarrow> ids_ok i ids d'"
  by (simp add: ids_ok_def)

lemma insert_page_Inr:
  assumes "insert_page_stmt i p d = (Inr k, d')"
  shows "\<exists>u content. uuid_in i = Inr u \<and> text_in (page_Content p) = Inr content \<and> k = db_uuid d (db_next d)
    \<and> db_pages d' = db_pages d @
        [\<lparr>pg_ID = k, pg_DocumentID = u, pg_PageNumber = page_Number p, pg_Content = content\<rparr>]
    \<and> db_claims d' = db_claims d \<and> k \<notin> pg_ID ` set (db_pages d)"
  using assms by (auto simp: insert_page_stmt_def act_simps int4_in_def split: sum.splits if_splits)

lemma store_pages_step:
  assumes "store_pages i ps ids w = (r, w')" and "schema_ok (w_db w)" and "ids_ok i ids (w_db w)"
  shows "store_step (w_db w) (w_db w') \<and> (\<forall>ids'. r = Inr ids' \<longrightarrow> ids_ok i ids' (w_db w'))"
  using assms
proof (induction ps arbitrary: ids w)
  case Nil
  then show ?case by (auto simp: ok_def store.R_refl)
next
  case (Cons p ps)
  let ?first = "wrapping ''store page %d: %w'' [AD (page_Number p)] (pg_exec (insert_page_stmt i p))"
  obtain r1 w1 where first: "?first w = (r1, w1)" by fastforce
  have "keeps (on_db store_step) ?first" by (intro store_rules effects)
  then have s1: "store_step (w_db w) (w_db w1)"
    using first keepsD [of "on_db store_step" ?first w r1 w1] by (simp add: on_db_def)
  show ?case
  proof (cases r1)
    case (Inl e)
    then show ?thesis using Cons.prems(1) first s1 by (auto simp: and_then_def)
  next
    case (Inr k)
    then have "pg_exec (insert_page_stmt i p) w = (Inr k, w1)" using first by (simp add: wrapping_Inr)
    then have stmt: "insert_page_stmt i p (w_db w) = (Inr k, w_db w1)" by (auto dest: pg_exec_Inr)
    have "uuid_in k = Inr k"
      using insert_page_Inr [OF stmt] Cons.prems(2) by (auto simp: schema_ok_def uuids_ok_def)
    then have "ids_ok i ((page_Number p, k) # ids) (w_db w1)"
      using insert_page_Inr [OF stmt] Cons.prems(3) by (auto simp: ids_ok_def)
    moreover have "schema_ok (w_db w1)" using s1 Cons.prems(2) by (simp add: store_step_def)
    moreover have "store_pages i ps ((page_Number p, k) # ids) w1 = (r, w')"
      using Cons.prems(1) first Inr by (simp add: and_then_def)
    ultimately show ?thesis using Cons.IH s1 store.R_trans by blast
  qed
qed

lemma store_claim_step:
  assumes "store_claim i ids c w = (r, w')" and "ids_ok i ids (w_db w)"
  shows "store_step (w_db w) (w_db w') \<and> db_pages (w_db w') = db_pages (w_db w)"
proof -
  let ?s = "insert_claim_stmt i (page_id ids (cl_PageNumber c)) c"
  have "store_step (w_db w) (snd (?s (w_db w)))"
  proof (rule insert_claim_step)
    fix u k assume "uuid_in i = Inr u" and k: "uuid_in (page_id ids (cl_PageNumber c)) = Inr k"
    have "page_id ids (cl_PageNumber c) \<in> snd ` set ids"
    proof (cases "map_of ids (cl_PageNumber c)")
      case None
      then have "uuid_in [] = Inr k" using k by (simp add: page_id_def)
      moreover have "isl (uuid_in [])" by code_simp
      ultimately show ?thesis by simp
    next
      case (Some j)
      then show ?thesis by (force simp: page_id_def dest: map_of_SomeD)
    qed
    then show "(u, k) \<in> (\<lambda>p. (pg_DocumentID p, pg_ID p)) ` set (db_pages (w_db w))"
      using assms(2) k \<open>uuid_in i = Inr u\<close> by (auto simp: ids_ok_def)
  qed
  moreover have "w_db w' \<in> {w_db w, snd (?s (w_db w))}"
    using assms(1) by (auto simp: store_claim_def wrapping_def pg_exec_def split: prod.splits
        fault.splits sum.splits dest: next_fault_same)
  ultimately show ?thesis using insert_claim_pages store.R_refl by fastforce
qed

lemma store_claims_step:
  assumes "for_each (store_claim i ids) cs w = (r, w')" and "ids_ok i ids (w_db w)"
  shows "store_step (w_db w) (w_db w')"
  using assms
proof (induction cs arbitrary: w)
  case Nil
  then show ?case by (auto simp: ok_def store.R_refl)
next
  case (Cons c cs)
  obtain r1 w1 where first: "store_claim i ids c w = (r1, w1)" by fastforce
  note s1 = store_claim_step [OF first Cons.prems(2)]
  show ?case
  proof (cases r1)
    case (Inl e)
    then show ?thesis using Cons.prems(1) first s1 by (auto simp: and_then_def)
  next
    case (Inr u)
    then have "for_each (store_claim i ids) cs w1 = (r, w')"
      using Cons.prems(1) first by (simp add: and_then_def)
    moreover have "ids_ok i ids (w_db w1)" using s1 Cons.prems(2) ids_ok_pages by blast
    ultimately show ?thesis using Cons.IH s1 store.R_trans by blast
  qed
qed

lemma extraction_body_store:
  assumes "keeps (on_db store_step) rest"
  shows "keeps (on_db store_step) (and_then (store_pages i ps []) (\<lambda>ids.
           and_then (for_each (store_claim i ids) cs) (\<lambda>_. rest)))"
  unfolding keeps_def on_db_def
proof
  fix w :: "'a world_scheme"
  obtain r1 w1 where 1: "store_pages i ps [] w = (r1, w1)" by fastforce
  show "store_step (w_db w) (w_db (snd (and_then (store_pages i ps []) (\<lambda>ids.
           and_then (for_each (store_claim i ids) cs) (\<lambda>_. rest)) w)))"
  proof (cases "schema_ok (w_db w)")
    case True
    note s1 = store_pages_step [OF 1 True]
    show ?thesis
    proof (cases r1)
      case (Inl e)
      then show ?thesis using 1 s1 by (simp add: and_then_def ids_ok_def)
    next
      case (Inr ids)
      obtain r2 w2 where 2: "for_each (store_claim i ids) cs w1 = (r2, w2)" by fastforce
      have "ids_ok i ids (w_db w1)" using s1 Inr by (simp add: ids_ok_def)
      then have "store_step (w_db w) (w_db w2)"
        using s1 store_claims_step [OF 2] store.R_trans by (auto simp: ids_ok_def)
      moreover have "store_step (w_db w2) (w_db (snd (rest w2)))"
        using assms by (simp add: keeps_def on_db_def)
      ultimately show ?thesis using 1 2 Inr store.R_trans
        by (cases r2) (auto simp: and_then_def)
    qed
  qed (simp add: store_step_def)
qed

lemma ReplaceExtraction_store [effects]: "keeps (on_db store_step) (ReplaceExtraction i e)"
  unfolding ReplaceExtraction_def
  by (cases "extraction_validate e")
    (auto intro!: store_rules extraction_body_store intro: effects)

lemma CreateDocument_store [effects]: "keeps (on_db store_step) (CreateDocumentWithExtractionJob input)"
  unfolding CreateDocumentWithExtractionJob_def
  by (intro store_rules effects) (auto split: sum.split simp: document_by_sha_stmt_def one_row_def
      intro!: store_rules effects store.keeps_and_then store.keeps_convert store.keeps_read_db
      store.keeps_fail store.keeps_ok split: option.split)

lemma SetDocumentStatus_store [effects]: "keeps (on_db store_step) (SetDocumentStatus i status)"
  unfolding SetDocumentStatus_def by (auto intro!: store_rules effects)

section \<open>What the operations achieve\<close>

lemma text_in_Inr: "text_in s = Inr t \<Longrightarrow> t = s"
  by (simp add: text_in_def split: if_splits)

lemma insert_document_Inr:
  assumes "insert_document_stmt input d = (Inr x, d')"
  shows "\<exists>row. document.truncate row = x \<and> db_documents d' = db_documents d @ [row] \<and> db_jobs d' = db_jobs d
    \<and> doc_SHA256 row \<notin> doc_SHA256 ` set (db_documents d) \<and> char64_in (cdi_SHA256 input) = Inr (doc_SHA256 row)
    \<and> doc_StorageKey row = cdi_StorageKey input"
  using assms by (auto simp: insert_document_stmt_def act_simps Let_def split: sum.splits if_splits dest: text_in_Inr)

lemma insert_job_Inr:
  assumes "insert_job_stmt t p d = (Inr j, d')"
  shows "\<exists>q i. jsonb_in p = Inr q \<and> j = job.truncate (queued_row i t q (db_now d))
    \<and> db_jobs d' = db_jobs d @ [queued_row i t q (db_now d)] \<and> db_documents d' = db_documents d
    \<and> db_runs d' = db_runs d"
  using assms by (auto simp: insert_job_stmt_def act_simps split: sum.splits if_splits)

lemma document_by_sha_Inr:
  assumes "document_by_sha_stmt sha d = (Inr x, d')"
  shows "\<exists>row \<in> set (db_documents d). document.truncate row = x \<and> char64_in sha = Inr (doc_SHA256 row) \<and> d' = d"
  using assms by (auto simp: document_by_sha_stmt_def act_simps one_row_def find_Some_iff
      split: sum.splits option.splits)

lemma document_ID_truncate [simp]: "doc_ID (document.truncate row) = doc_ID row"
  by (simp add: document.truncate_def)

text \<open>Either nothing changes, or the row and its job appear together.\<close>

lemma create_document_cases:
  assumes "CreateDocumentWithExtractionJob input w = (r, w')"
  shows "(db_documents (w_db w') = db_documents (w_db w) \<and> db_jobs (w_db w') = db_jobs (w_db w)
      \<and> (\<forall>x j c. r = Inr (x, j, c) \<longrightarrow> j = None \<and> \<not> c
           \<and> (\<exists>row \<in> set (db_documents (w_db w)). document.truncate row = x
                \<and> char64_in (cdi_SHA256 input) = Inr (doc_SHA256 row))))
    \<or> (\<exists>row i q. db_documents (w_db w') = db_documents (w_db w) @ [row]
        \<and> db_jobs (w_db w') = db_jobs (w_db w) @ [queued_row i ''extract_document'' q (db_now (w_db w'))]
        \<and> jsonb_in (document_payload (doc_ID row)) = Inr q
        \<and> doc_SHA256 row \<notin> doc_SHA256 ` set (db_documents (w_db w))
        \<and> char64_in (cdi_SHA256 input) = Inr (doc_SHA256 row) \<and> doc_StorageKey row = cdi_StorageKey input
        \<and> (\<forall>x j c. r = Inr (x, j, c) \<longrightarrow> c \<and> x = document.truncate row
             \<and> j = Some (job.truncate (queued_row i ''extract_document'' q (db_now (w_db w'))))))"
    (is "?none \<or> ?both")
  using assms unfolding CreateDocumentWithExtractionJob_def
proof (cases rule: transaction_cases)
  case (unchanged e)
  then show ?thesis by simp
next
  case (committed m x w1 w2)
  have w1: "w_db w1 = w_db w" using next_fault_same [OF committed(1)] by simp
  obtain ins v where ins: "pg_exec (insert_document_stmt input) w1 = (ins, v)" by fastforce
  show ?thesis
  proof (cases ins)
    case (Inl e)
    have v: "w_db v = w_db w" if "errors_is e no_rows"
      using ins Inl that w1
      by (auto simp: pg_exec_def connection_error_def no_rows_def dest: next_fault_same
          split: prod.splits fault.splits sum.splits)
    from committed(2) ins Inl obtain y v2 where "errors_is e no_rows" and
      y: "pg_exec (document_by_sha_stmt (cdi_SHA256 input)) v = (Inr y, v2)" "x = (y, None, False)" "w2 = v2"
      by (auto simp: attempt_def and_then_Inr wrapping_Inr fail_def ok_def split: if_splits)
    with v pg_exec_Inr [OF y(1)] document_by_sha_Inr have ?none
      using committed(3,4) by fastforce
    then show ?thesis ..
  next
    case (Inr doc)
    obtain d where d: "insert_document_stmt input (w_db w) = (Inr doc, d)" "w_db v = d"
      using pg_exec_Inr [of "insert_document_stmt input" w1 doc v] ins Inr w1 by auto
    from committed(2) ins Inr obtain j v2 where
      j: "pg_exec (insert_job_stmt ''extract_document'' (document_payload (doc_ID doc))) v = (Inr j, v2)"
        "x = (doc, Some j, True)" "w2 = v2"
      by (auto simp: attempt_def and_then_Inr wrapping_Inr ok_def)
    obtain d2 where d2: "insert_job_stmt ''extract_document'' (document_payload (doc_ID doc)) d = (Inr j, d2)" "w_db v2 = d2"
      using pg_exec_Inr [OF j(1)] d(2) by auto
    have now: "db_now d2 = db_now d" using d2(1)
      by (auto simp: insert_job_stmt_def act_simps split: sum.splits if_splits)
    show ?thesis
      using insert_document_Inr [OF d(1)] insert_job_Inr [OF d2(1)] committed(3,4) j(2,3) d2(2) now
      by (intro disjI2) auto
  qed
qed

text \<open>
  C11 A document and its extraction job are created together or not at all, and never twice for the
  same content. Whatever faults occur, \<open>CreateDocumentWithExtractionJob\<close> either changes no document
  and no job, or appends one document whose SHA-256 was not known together with one queued
  \<open>extract_document\<close> job for it. It reports a created document exactly for the second, and a
  duplicate only with the stored document that has the same SHA-256.
\<close>

theorem create_document_atomic:
  assumes "CreateDocumentWithExtractionJob input w = (r, w')"
  shows "(db_documents (w_db w') = db_documents (w_db w) \<and> db_jobs (w_db w') = db_jobs (w_db w)
      \<and> (\<forall>x j c. r = Inr (x, j, c) \<longrightarrow> j = None \<and> \<not> c
           \<and> (\<exists>row \<in> set (db_documents (w_db w)). document.truncate row = x
                \<and> char64_in (cdi_SHA256 input) = Inr (doc_SHA256 row))))
    \<or> (\<exists>row i q. db_documents (w_db w') = db_documents (w_db w) @ [row]
        \<and> db_jobs (w_db w') = db_jobs (w_db w) @ [queued_row i ''extract_document'' q (db_now (w_db w'))]
        \<and> jsonb_in (document_payload (doc_ID row)) = Inr q
        \<and> doc_SHA256 row \<notin> doc_SHA256 ` set (db_documents (w_db w))
        \<and> (\<forall>x j c. r = Inr (x, j, c) \<longrightarrow> c \<and> x = document.truncate row
             \<and> j = Some (job.truncate (queued_row i ''extract_document'' q (db_now (w_db w'))))))"
  using create_document_cases [OF assms] by blast

section \<open>What replacing an extraction achieves\<close>

definition claim_stored :: "db \<Rightarrow> claim \<Rightarrow> claim_row \<Rightarrow> bool" where
  "claim_stored d c row \<longleftrightarrow>
     (\<exists>p \<in> set (db_pages d). pg_ID p = cr_PageID row \<and> pg_DocumentID p = cr_DocumentID row
        \<and> pg_PageNumber p = cl_PageNumber c)
     \<and> cr_Ticker row = cl_Ticker c \<and> cr_Kind row = cl_Kind c \<and> cr_Direction row = cl_Direction c
     \<and> cr_Text row = cl_Text c \<and> cr_EvidenceQuote row = cl_EvidenceQuote c
     \<and> cr_HorizonDays row = cl_HorizonDays c \<and> confidence_in (cl_Confidence c) = Inr (cr_Confidence row)
     \<and> cr_EffectiveAt row = ts_in (cl_EffectiveAt c) \<and> cr_ValidationStatus row = ''pending''"

lemma int4_in_Inr: "int4_in n = Inr k \<Longrightarrow> k = n"
  by (simp add: int4_in_def split: if_splits)

lemma opt_in_same: "opt_in f x = Inr y \<Longrightarrow> (\<And>a b. f a = Inr b \<Longrightarrow> b = a) \<Longrightarrow> y = x"
  by (cases x) (auto split: sum.splits)

lemma store_pages_Inr:
  assumes "store_pages i ps ids w = (Inr ids', w')" and "uuid_in i = Inr u"
  shows "\<exists>new. db_pages (w_db w') = db_pages (w_db w) @ new
    \<and> map (\<lambda>p. (pg_DocumentID p, pg_PageNumber p, pg_Content p)) new = map (\<lambda>p. (u, page_Number p, page_Content p)) ps
    \<and> ids' = rev (map (\<lambda>p. (pg_PageNumber p, pg_ID p)) new) @ ids \<and> db_claims (w_db w') = db_claims (w_db w)"
  using assms(1)
proof (induction ps arbitrary: ids w)
  case Nil
  then show ?case by (simp add: ok_def)
next
  case (Cons p ps)
  then obtain k w1 where k: "pg_exec (insert_page_stmt i p) w = (Inr k, w1)"
    and rest: "store_pages i ps ((page_Number p, k) # ids) w1 = (Inr ids', w')"
    by (auto simp: and_then_Inr wrapping_Inr)
  have "insert_page_stmt i p (w_db w) = (Inr k, w_db w1)" using pg_exec_Inr [OF k] by auto
  from insert_page_Inr [OF this] assms(2) obtain content where
    one: "text_in (page_Content p) = Inr content" "db_pages (w_db w1) = db_pages (w_db w) @
       [\<lparr>pg_ID = k, pg_DocumentID = u, pg_PageNumber = page_Number p, pg_Content = content\<rparr>]"
      "db_claims (w_db w1) = db_claims (w_db w)"
    by auto
  from Cons.IH [OF rest] obtain new where "db_pages (w_db w') = db_pages (w_db w1) @ new"
    "map (\<lambda>p. (pg_DocumentID p, pg_PageNumber p, pg_Content p)) new = map (\<lambda>p. (u, page_Number p, page_Content p)) ps"
    "ids' = rev (map (\<lambda>p. (pg_PageNumber p, pg_ID p)) new) @ (page_Number p, k) # ids"
    "db_claims (w_db w') = db_claims (w_db w1)"
    by blast
  then show ?case using one text_in_Inr [OF one(1)]
    by (intro exI [of _ "\<lparr>pg_ID = k, pg_DocumentID = u, pg_PageNumber = page_Number p, pg_Content = content\<rparr> # new"])
      simp
qed

lemma insert_claim_Inr:
  assumes "insert_claim_stmt i pid c d = (Inr x, d')" and "uuid_in i = Inr u"
  shows "\<exists>row. db_claims d' = db_claims d @ [row] \<and> db_pages d' = db_pages d \<and> cr_DocumentID row = u
    \<and> uuid_in pid = Inr (cr_PageID row)
    \<and> cr_Ticker row = cl_Ticker c \<and> cr_Kind row = cl_Kind c \<and> cr_Direction row = cl_Direction c
    \<and> cr_Text row = cl_Text c \<and> cr_EvidenceQuote row = cl_EvidenceQuote c
    \<and> cr_HorizonDays row = cl_HorizonDays c \<and> confidence_in (cl_Confidence c) = Inr (cr_Confidence row)
    \<and> cr_EffectiveAt row = ts_in (cl_EffectiveAt c) \<and> cr_ValidationStatus row = ''pending''"
  using assms
  by (auto simp: insert_claim_stmt_def act_simps split: sum.splits if_splits
      dest!: text_in_Inr dest: opt_in_same [OF _ text_in_Inr] opt_in_same [OF _ int4_in_Inr])

lemma store_claims_Inr:
  assumes "for_each (store_claim i ids) cs w = (Inr x, w')" and "uuid_in i = Inr u"
    and "\<forall>c \<in> set cs. \<forall>k. uuid_in (page_id ids (cl_PageNumber c)) = Inr k \<longrightarrow>
      (\<exists>p \<in> set (db_pages (w_db w)). pg_ID p = k \<and> pg_DocumentID p = u \<and> pg_PageNumber p = cl_PageNumber c)"
  shows "\<exists>new. db_claims (w_db w') = db_claims (w_db w) @ new \<and> db_pages (w_db w') = db_pages (w_db w)
    \<and> list_all2 (claim_stored (w_db w')) cs new \<and> (\<forall>row \<in> set new. cr_DocumentID row = u)"
  using assms(1,3)
proof (induction cs arbitrary: w)
  case Nil
  then show ?case by (simp add: ok_def)
next
  case (Cons c cs)
  from Cons.prems(1) obtain y w1 where "store_claim i ids c w = (Inr y, w1)"
    and rest: "for_each (store_claim i ids) cs w1 = (Inr x, w')"
    by (auto simp: and_then_Inr)
  then have first: "pg_exec (insert_claim_stmt i (page_id ids (cl_PageNumber c)) c) w = (Inr y, w1)"
    by (simp add: store_claim_def wrapping_Inr)
  have "insert_claim_stmt i (page_id ids (cl_PageNumber c)) c (w_db w) = (Inr y, w_db w1)"
    using pg_exec_Inr [OF first] by auto
  from insert_claim_Inr [OF this assms(2)] obtain row where row: "db_claims (w_db w1) = db_claims (w_db w) @ [row]"
    "db_pages (w_db w1) = db_pages (w_db w)" "cr_DocumentID row = u"
    "uuid_in (page_id ids (cl_PageNumber c)) = Inr (cr_PageID row)"
    and same: "\<And>d. claim_stored d c row \<longleftrightarrow> (\<exists>p \<in> set (db_pages d). pg_ID p = cr_PageID row
      \<and> pg_DocumentID p = cr_DocumentID row \<and> pg_PageNumber p = cl_PageNumber c)"
    by (auto simp: claim_stored_def)
  from Cons.IH [OF rest] Cons.prems(2) row(2) obtain new where
    "db_claims (w_db w') = db_claims (w_db w1) @ new" "db_pages (w_db w') = db_pages (w_db w1)"
    "list_all2 (claim_stored (w_db w')) cs new" "\<forall>row \<in> set new. cr_DocumentID row = u"
    by auto
  then show ?case using row same Cons.prems(2)
    by (intro exI [of _ "row # new"]) auto
qed

lemma map_of_rev_zip:
  assumes "distinct (map f xs)" and "x \<in> set xs"
  shows "map_of (rev (map (\<lambda>p. (f p, g p)) xs)) (f x) = Some (g x)"
proof (rule map_of_is_SomeI)
  have "map fst (rev (map (\<lambda>p. (f p, g p)) xs)) = rev (map f xs)" by (simp add: rev_map comp_def)
  then show "distinct (map fst (rev (map (\<lambda>p. (f p, g p)) xs)))" using assms(1) by simp
qed (use assms(2) in auto)

lemma delete_pages_Inr:
  assumes "delete_pages_stmt i d = (Inr x, d')"
  shows "\<exists>u. uuid_in i = Inr u \<and> db_pages d' = filter (\<lambda>p. pg_DocumentID p \<noteq> u) (db_pages d)
    \<and> db_claims d' = filter (\<lambda>c. cr_PageID c \<notin> pg_ID ` {p \<in> set (db_pages d). pg_DocumentID p = u}) (db_claims d)"
  using assms by (auto simp: delete_pages_stmt_def act_simps split: sum.splits if_splits)

text \<open>The steps of a successful run, one after the other.\<close>

lemma ReplaceExtraction_run:
  fixes w :: "'x world_scheme"
  assumes "ReplaceExtraction i e w = (Inr (), w')"
  shows "extraction_validate e = None \<and> (\<exists>(w3 :: 'x world_scheme) ids w4 w5.
     (\<exists>x. delete_pages_stmt i (w_db w) = (Inr x, w_db w3))
     \<and> store_pages i (ex_Pages e) [] w3 = (Inr ids, w4)
     \<and> (\<exists>x. for_each (store_claim i ids) (ex_Claims e) w4 = (Inr x, w5))
     \<and> document_status_stmt i ''ready'' (w_db w5) = (Inr 1, w_db w'))"
proof (cases "extraction_validate e")
  case None
  obtain w1 w2 :: "'x world_scheme" and m where w1: "w_db w1 = w_db w" and w2: "w_db w' = w_db w2" and
    body: "and_then (wrapping ''clear extracted pages: %w'' [] (pg_exec (delete_pages_stmt i))) (\<lambda>_.
             and_then (store_pages i (ex_Pages e) []) (\<lambda>ids.
             and_then (for_each (store_claim i ids) (ex_Claims e)) (\<lambda>_.
             and_then (wrapping ''mark document ready: %w'' []
               (pg_exec (document_status_stmt i ''ready''))) (\<lambda>n.
             if n \<noteq> 1 then fail ErrNotFound else ok (''commit extraction: %w'', ()))))) w1 = (Inr (m, ()), w2)"
    using transaction_Inr [OF assms [unfolded ReplaceExtraction_def None option.case]] by blast
  then obtain x3 w3 ids w4 x5 w5 n where
    3: "pg_exec (delete_pages_stmt i) w1 = (Inr x3, w3)" and
    4: "store_pages i (ex_Pages e) [] w3 = (Inr ids, w4)" and
    5: "for_each (store_claim i ids) (ex_Claims e) w4 = (Inr x5, w5)" and
    6: "pg_exec (document_status_stmt i ''ready'') w5 = (Inr n, w2)" and n: "n = 1"
    unfolding and_then_Inr wrapping_Inr by (fastforce simp: fail_def ok_def split: if_splits)
  have "delete_pages_stmt i (w_db w) = (Inr x3, w_db w3)" using pg_exec_Inr [OF 3] w1 by auto
  moreover have "document_status_stmt i ''ready'' (w_db w5) = (Inr 1, w_db w')"
    using pg_exec_Inr [OF 6] n w2 by auto
  ultimately show ?thesis using None 4 5 by blast
qed (use assms in \<open>simp add: ReplaceExtraction_def fail_def\<close>)

text \<open>What the cascade takes away is what stood under the document.\<close>

lemma claims_of_pages:
  assumes ok: "schema_ok d"
  shows "filter (\<lambda>c. cr_PageID c \<notin> pg_ID ` {p \<in> set (db_pages d). pg_DocumentID p = u}) (db_claims d)
    = filter (\<lambda>c. cr_DocumentID c \<noteq> u) (db_claims d)"
proof (rule filter_cong [OF refl])
  fix c assume c: "c \<in> set (db_claims d)"
  from claim_on_page [OF ok c] obtain p where p: "p \<in> set (db_pages d)"
    "pg_DocumentID p = cr_DocumentID c" "pg_ID p = cr_PageID c" by blast
  have inj: "inj_on pg_ID (set (db_pages d))"
    using ok by (simp add: schema_ok_def keys_ok_def distinct_map)
  have "pg_DocumentID p = u" if "cr_PageID c \<in> pg_ID ` {p \<in> set (db_pages d). pg_DocumentID p = u}"
  proof -
    obtain q where q: "q \<in> set (db_pages d)" "pg_DocumentID q = u" "pg_ID q = cr_PageID c"
      using \<open>cr_PageID c \<in> _\<close> by force
    have "q = p" by (rule inj_onD [OF inj]) (use q p in simp_all)
    with q show ?thesis by simp
  qed
  moreover have "cr_PageID c \<in> pg_ID ` {p \<in> set (db_pages d). pg_DocumentID p = u}" if "pg_DocumentID p = u"
    using p(1,3) \<open>pg_DocumentID p = u\<close> by force
  ultimately show "(cr_PageID c \<notin> pg_ID ` {p \<in> set (db_pages d). pg_DocumentID p = u}) = (cr_DocumentID c \<noteq> u)"
    using p(2) by argo
qed

text \<open>The ids the loop over the claims looks up are those of the pages just stored.\<close>

lemma stored_page_ids:
  assumes "ids_ok i (rev (map (\<lambda>p. (pg_PageNumber p, pg_ID p)) new)) d"
    and "distinct (map pg_PageNumber new)" and "n \<in> pg_PageNumber ` set new"
    and "uuid_in (page_id (rev (map (\<lambda>p. (pg_PageNumber p, pg_ID p)) new)) n) = Inr k"
  shows "\<exists>p \<in> set new. pg_ID p = k \<and> pg_PageNumber p = n"
proof -
  obtain p where p: "p \<in> set new" "pg_PageNumber p = n" using assms(3) by auto
  then have "page_id (rev (map (\<lambda>p. (pg_PageNumber p, pg_ID p)) new)) n = pg_ID p"
    using map_of_rev_zip [OF assms(2) p(1), of pg_ID] by (simp add: page_id_def)
  moreover have "uuid_in (pg_ID p) = Inr (pg_ID p)"
    using assms(1) p(1) by (auto simp: ids_ok_def)
  ultimately show ?thesis using assms(4) p by auto
qed

lemma document_status_Inr:
  assumes "document_status_stmt i status d = (Inr 1, d')" and "uuid_in i = Inr u"
  shows "(\<exists>x \<in> set (db_documents d'). doc_ID x = u \<and> doc_Status x = status)
    \<and> db_pages d' = db_pages d \<and> db_claims d' = db_claims d"
proof -
  have one: "length (filter (\<lambda>x. doc_ID x = u) (db_documents d)) = 1" and
    d': "db_documents d' = update_where (\<lambda>x. doc_ID x = u) (\<lambda>x. x\<lparr>doc_Status := status\<rparr>) (db_documents d)"
      "db_pages d' = db_pages d \<and> db_claims d' = db_claims d"
    using assms by (auto simp: document_status_stmt_def act_simps split: if_splits)
  from one obtain x where "x \<in> set (db_documents d)" "doc_ID x = u"
    by (metis (mono_tags, lifting) filter_False list.size(3) zero_neq_one)
  then have "x\<lparr>doc_Status := status\<rparr> \<in> set (db_documents d')" "doc_ID (x\<lparr>doc_Status := status\<rparr>) = u"
    unfolding d'(1) set_update_where by auto
  then show ?thesis using d'(2) by (metis document.select_convs(5) document.surjective document.update_convs(5))
qed

lemma maps_of_new_pages:
  assumes "map (\<lambda>p. (pg_DocumentID p, pg_PageNumber p, pg_Content p)) new = map (\<lambda>p. (u, page_Number p, page_Content p)) ps"
  shows "(\<forall>p \<in> set new. pg_DocumentID p = u) \<and> map pg_PageNumber new = map page_Number ps
    \<and> map (\<lambda>p. (pg_PageNumber p, pg_Content p)) new = map (\<lambda>p. (page_Number p, page_Content p)) ps"
proof -
  have "map pg_DocumentID new = map (\<lambda>p. u) ps"
    using arg_cong [OF assms, of "map fst"] by (simp add: comp_def)
  then have "set (map pg_DocumentID new) \<subseteq> {u}" by (simp only:) auto
  moreover have "map pg_PageNumber new = map page_Number ps"
    using arg_cong [OF assms, of "map (\<lambda>x. fst (snd x))"] by (simp add: comp_def)
  ultimately show ?thesis using arg_cong [OF assms, of "map snd"] by (auto simp: comp_def)
qed

text \<open>Clearing a document over sound tables: exactly its pages and claims go, and the tables stay sound.\<close>

lemma cleared_pages:
  assumes "delete_pages_stmt i d = (Inr x, d')" and "schema_ok d"
  shows "\<exists>u. uuid_in i = Inr u \<and> schema_ok d' \<and> db_pages d' = filter (\<lambda>p. pg_DocumentID p \<noteq> u) (db_pages d)
    \<and> db_claims d' = filter (\<lambda>c. cr_DocumentID c \<noteq> u) (db_claims d)"
proof -
  have "keeps store_step (delete_pages_stmt i)" by (rule effects)
  then have "schema_ok d'" using keepsD [of store_step "delete_pages_stmt i" d "Inr x" d'] assms by (simp add: store_step_def)
  then show ?thesis using delete_pages_Inr [OF assms(1)] claims_of_pages [OF assms(2)] by auto
qed

text \<open>The page of a claim: the one its number names among the pages just inserted.\<close>

lemma page_of_claim:
  assumes valid: "extraction_validate e = None" and c: "c \<in> set (ex_Claims e)"
    and ids: "ids_ok i (rev (map (\<lambda>p. (pg_PageNumber p, pg_ID p)) newp)) (w_db w)"
    and k: "uuid_in (page_id (rev (map (\<lambda>p. (pg_PageNumber p, pg_ID p)) newp)) (cl_PageNumber c)) = Inr k"
    and newp: "map pg_PageNumber newp = map page_Number (ex_Pages e)" "\<forall>p \<in> set newp. pg_DocumentID p = u"
      "set newp \<subseteq> set (db_pages (w_db w))"
  shows "\<exists>p \<in> set (db_pages (w_db w)). pg_ID p = k \<and> pg_DocumentID p = u \<and> pg_PageNumber p = cl_PageNumber c"
proof -
  have "distinct (map pg_PageNumber newp)" "cl_PageNumber c \<in> set (map pg_PageNumber newp)"
    using valid_extraction_pages [OF valid] c by (simp_all add: newp(1))
  from stored_page_ids [OF ids this(1) _ k] this(2) show ?thesis using newp(2,3) by auto
qed

text \<open>
  C9 A successful \<open>ReplaceExtraction\<close> leaves exactly the extraction it was given: the document's pages
  are the extraction's pages in order, its claims are the extraction's claims in order, each
  pending review and standing on the page it names, and the document is ready. Pages and claims of
  other documents are untouched. So repeating it, as a retried worker does, gives the same content.
\<close>

theorem replace_extraction_effect:
  fixes w :: "'x world_scheme"
  assumes "ReplaceExtraction i e w = (Inr (), w')" and "schema_ok (w_db w)"
  shows "\<exists>u. uuid_in i = Inr u
    \<and> map (\<lambda>p. (pg_PageNumber p, pg_Content p)) (filter (\<lambda>p. pg_DocumentID p = u) (db_pages (w_db w')))
        = map (\<lambda>p. (page_Number p, page_Content p)) (ex_Pages e)
    \<and> list_all2 (claim_stored (w_db w')) (ex_Claims e) (filter (\<lambda>c. cr_DocumentID c = u) (db_claims (w_db w')))
    \<and> filter (\<lambda>p. pg_DocumentID p \<noteq> u) (db_pages (w_db w')) = filter (\<lambda>p. pg_DocumentID p \<noteq> u) (db_pages (w_db w))
    \<and> filter (\<lambda>c. cr_DocumentID c \<noteq> u) (db_claims (w_db w')) = filter (\<lambda>c. cr_DocumentID c \<noteq> u) (db_claims (w_db w))
    \<and> (\<exists>x \<in> set (db_documents (w_db w')). doc_ID x = u \<and> doc_Status x = ''ready'')"
proof -
  let ?d = "w_db w" and ?d' = "w_db w'"
  from ReplaceExtraction_run [OF assms(1)] obtain w3 w4 w5 :: "'x world_scheme" and ids x3 x5 where valid: "extraction_validate e = None" and
    3: "delete_pages_stmt i ?d = (Inr x3, w_db w3)" and 4: "store_pages i (ex_Pages e) [] w3 = (Inr ids, w4)" and
    5: "for_each (store_claim i ids) (ex_Claims e) w4 = (Inr x5, w5)" and
    6: "document_status_stmt i ''ready'' (w_db w5) = (Inr 1, ?d')"
    by blast
  from cleared_pages [OF 3 assms(2)] obtain u where u: "uuid_in i = Inr u" and ok3: "schema_ok (w_db w3)"
    and gone: "db_pages (w_db w3) = filter (\<lambda>p. pg_DocumentID p \<noteq> u) (db_pages ?d)"
      "db_claims (w_db w3) = filter (\<lambda>c. cr_DocumentID c \<noteq> u) (db_claims ?d)"
    by blast
  from store_pages_Inr [OF 4 u] obtain newp where newp: "db_pages (w_db w4) = db_pages (w_db w3) @ newp"
      "ids = rev (map (\<lambda>p. (pg_PageNumber p, pg_ID p)) newp)" "db_claims (w_db w4) = db_claims (w_db w3)"
    and maps: "map (\<lambda>p. (pg_DocumentID p, pg_PageNumber p, pg_Content p)) newp =
      map (\<lambda>p. (u, page_Number p, page_Content p)) (ex_Pages e)"
    by auto
  from maps_of_new_pages [OF maps] have newp_maps: "\<forall>p \<in> set newp. pg_DocumentID p = u"
      "map pg_PageNumber newp = map page_Number (ex_Pages e)"
      "map (\<lambda>p. (pg_PageNumber p, pg_Content p)) newp = map (\<lambda>p. (page_Number p, page_Content p)) (ex_Pages e)"
    by simp_all
  have idsok: "ids_ok i ids (w_db w4)" using store_pages_step [OF 4 ok3] by (simp add: ids_ok_def)
  have found: "\<exists>p \<in> set (db_pages (w_db w4)). pg_ID p = k \<and> pg_DocumentID p = u \<and> pg_PageNumber p = cl_PageNumber c"
    if "c \<in> set (ex_Claims e)" "uuid_in (page_id ids (cl_PageNumber c)) = Inr k" for c k
    by (rule page_of_claim [OF valid that(1) idsok [unfolded newp(2)] that(2) [unfolded newp(2)] newp_maps(2,1)])
      (simp add: newp(1))
  from store_claims_Inr [OF 5 u] found obtain newc where newc: "db_claims (w_db w5) = db_claims (w_db w4) @ newc"
      "db_pages (w_db w5) = db_pages (w_db w4)" "list_all2 (claim_stored (w_db w5)) (ex_Claims e) newc"
      "\<forall>row \<in> set newc. cr_DocumentID row = u"
    by blast
  from document_status_Inr [OF 6 u] have fin: "db_pages ?d' = db_pages (w_db w5)" "db_claims ?d' = db_claims (w_db w5)"
    and ready: "\<exists>x \<in> set (db_documents ?d'). doc_ID x = u \<and> doc_Status x = ''ready''" by blast+
  have "claim_stored ?d' = claim_stored (w_db w5)" by (intro ext) (simp add: claim_stored_def fin)
  moreover have "filter (\<lambda>p. pg_DocumentID p = u) newp = newp" "filter (\<lambda>p. pg_DocumentID p \<noteq> u) newp = []"
    "filter (\<lambda>c. cr_DocumentID c = u) newc = newc" "filter (\<lambda>c. cr_DocumentID c \<noteq> u) newc = []"
    using newp_maps(1) newc(4) by (auto simp: filter_id_conv filter_empty_conv)
  ultimately show ?thesis
    using u ready newc newp_maps(3) by (intro exI [of _ u]) (simp add: fin newp gone)
qed

text \<open>
  C10 Cited research is safe from re-extraction: when a claim of the document is cited by a strategy,
  \<open>ReplaceExtraction\<close> returns an error and changes nothing.
\<close>

theorem replace_extraction_cited:
  assumes "ReplaceExtraction i e w = (r, w')" and "schema_ok (w_db w)"
    and "c \<in> set (db_claims (w_db w))" and "cr_ID c \<in> snd ` set (db_citations (w_db w))"
    and "uuid_in i = Inr (cr_DocumentID c)"
  shows "(\<exists>err. r = Inl err) \<and> w_db w' = w_db w"
proof -
  from claim_on_page [OF assms(2,3)] have "cr_PageID c \<in> pg_ID ` {p \<in> set (db_pages (w_db w)). pg_DocumentID p = cr_DocumentID c}"
    by force
  then have "cr_ID ` {x \<in> set (db_claims (w_db w)). cr_PageID x \<in>
      pg_ID ` {p \<in> set (db_pages (w_db w)). pg_DocumentID p = cr_DocumentID c}} \<inter> snd ` set (db_citations (w_db w)) \<noteq> {}"
    using assms(3,4) by blast
  then have blocked: "\<exists>e. fst (delete_pages_stmt i (w_db w)) = Inl e"
    using assms(5) by (simp add: delete_pages_stmt_def act_simps)
  show ?thesis
  proof (cases "extraction_validate e")
    case (Some err)
    then show ?thesis using assms(1) by (auto simp: ReplaceExtraction_def fail_def)
  next
    case None
    from assms(1) [unfolded ReplaceExtraction_def None option.case] show ?thesis
    proof (cases rule: transaction_cases)
      case (committed m x w1 w2)
      then obtain x3 w3 where "pg_exec (delete_pages_stmt i) w1 = (Inr x3, w3)"
        by (auto simp: and_then_Inr wrapping_Inr)
      then show ?thesis using blocked pg_exec_Inr next_fault_same [OF committed(1)] by fastforce
    qed simp
  qed
qed

end
