(* ===== verification/ClaimStore.thy ===== *)
theory ClaimStore
  imports DocumentStore
begin

text \<open>
  \<open>internal/store/claims.go\<close>: reading the claims of a document or by id, and the review of a claim.
\<close>

text \<open>The select list joins a claim with its page; a claim without its page gives no row.\<close>

definition stored_of :: "claim_row \<Rightarrow> page_row \<Rightarrow> stored_claim" where
  "stored_of c p =
     \<lparr>sc_ID = cr_ID c, sc_DocumentID = cr_DocumentID c, sc_PageNumber = pg_PageNumber p,
      sc_Ticker = cr_Ticker c, sc_Kind = cr_Kind c, sc_Direction = cr_Direction c,
      sc_Text = cr_Text c, sc_EvidenceQuote = cr_EvidenceQuote c, sc_HorizonDays = cr_HorizonDays c,
      sc_Confidence = cr_Confidence c, sc_EffectiveAt = cr_EffectiveAt c,
      sc_ValidationStatus = cr_ValidationStatus c, sc_CreatedAt = cr_CreatedAt c\<rparr>"

definition joined_claim :: "db \<Rightarrow> claim_row \<Rightarrow> stored_claim list" where
  "joined_claim d c = map (stored_of c) (filter (\<lambda>p. pg_ID p = cr_PageID c) (db_pages d))"

definition joined_claims :: "db \<Rightarrow> claim_row list \<Rightarrow> stored_claim list" where
  "joined_claims d cs = concat (map (joined_claim d) cs)"

definition claims_of_document_stmt :: "string \<Rightarrow> stored_claim list stmt" where
  "claims_of_document_stmt i =
     and_then (convert (uuid_in i)) (\<lambda>u.
     read_db (\<lambda>d. sort_slice
       (\<lambda>a b. (sc_PageNumber a, sc_CreatedAt a, sc_ID a) < (sc_PageNumber b, sc_CreatedAt b, sc_ID b))
       (joined_claims d (filter (\<lambda>c. cr_DocumentID c = u) (db_claims d)))))"

definition ListClaimsByDocument :: "string \<Rightarrow> ('x world_scheme, stored_claim list) act" where
  "ListClaimsByDocument i =
     and_then (GetDocument i) (\<lambda>_.
     pg_query ''list claims for document: %w'' ''iterate claims: %w'' (claims_of_document_stmt i))"

abbreviation by_effective :: "stored_claim \<Rightarrow> stored_claim \<Rightarrow> bool" where
  "by_effective a b \<equiv> (sc_EffectiveAt a, sc_ID a) < (sc_EffectiveAt b, sc_ID b)"

definition claims_by_ids_stmt :: "string list \<Rightarrow> stored_claim list stmt" where
  "claims_by_ids_stmt ids =
     and_then (convert (all_in uuid_in ids)) (\<lambda>us.
     read_db (\<lambda>d. sort_slice by_effective
       (joined_claims d (filter (\<lambda>c. cr_ID c \<in> set us) (db_claims d)))))"

definition GetClaimsByIDs :: "string list \<Rightarrow> ('x world_scheme, stored_claim list) act" where
  "GetClaimsByIDs ids =
     (if ids = [] then ok []
      else pg_query ''get claims by ids: %w'' ''iterate claims: %w'' (claims_by_ids_stmt ids))"

definition review_claim_stmt :: "string \<Rightarrow> string \<Rightarrow> stored_claim stmt" where
  "review_claim_stmt i status =
     and_then (convert (uuid_in i)) (\<lambda>u.
     and_then (constraint ''research_claims_validation_status_check''
       (\<lambda>d. status \<in> {''pending'', ''accepted'', ''rejected''})) (\<lambda>_.
     and_then (write_db (\<lambda>d. d\<lparr>db_claims :=
         update_where (\<lambda>c. cr_ID c = u) (\<lambda>c. c\<lparr>cr_ValidationStatus := status\<rparr>) (db_claims d)\<rparr>)) (\<lambda>_.
     and_then (read_db (\<lambda>d. joined_claims d (filter (\<lambda>c. cr_ID c = u) (db_claims d)))) (\<lambda>rows.
     one_row (case rows of [] \<Rightarrow> None | r # rs \<Rightarrow> Some r)))))"

definition SetClaimValidationStatus :: "string \<Rightarrow> string \<Rightarrow> ('x world_scheme, stored_claim) act" where
  "SetClaimValidationStatus i status =
     (if \<not> valid_claim_review_status status then
        fail (Errorf ''invalid claim validation status %q'' [AQ status])
      else found_or ''set claim validation status: %w'' (pg_exec (review_claim_stmt i status)))"

section \<open>Review keeps the discipline\<close>

lemma review_step:
  assumes "status \<in> {''pending'', ''accepted'', ''rejected''}"
  shows "store_step d (d\<lparr>db_claims := update_where p (\<lambda>c. c\<lparr>cr_ValidationStatus := status\<rparr>) (db_claims d)\<rparr>)"
  unfolding store_step_def
proof (intro impI conjI)
  let ?f = "\<lambda>c. c\<lparr>cr_ValidationStatus := status\<rparr>"
  let ?d = "d\<lparr>db_claims := update_where p ?f (db_claims d)\<rparr>"
  assume ok: "schema_ok d"
  have jobs: "jobs_ok ?d" using ok by (simp add: schema_ok_def jobs_ok_def)
  have "refs_ok ?d" using ok by (simp add: schema_ok_def refs_ok_def)
  moreover have "keys_ok ?d" using ok by (simp add: schema_ok_def keys_ok_def)
  moreover have "\<forall>c \<in> set (update_where p ?f (db_claims d)). claim_row_ok c"
    using ok assms by (auto simp: schema_ok_def checks_ok_def set_update_where claim_row_ok_def)
  then have "checks_ok ?d" using ok by (simp add: schema_ok_def checks_ok_def)
  ultimately show "schema_ok ?d" using ok jobs by (simp add: schema_ok_def versions_ok_def uuids_ok_def)
  have "cited_kept d ?d" unfolding cited_kept_def
  proof (intro ballI impI)
    fix c assume "c \<in> set (db_claims d)"
    then have "(if p c then ?f c else c) \<in> set (db_claims ?d)" by (simp add: update_where_def)
    then show "\<exists>c' \<in> set (db_claims ?d). c'\<lparr>cr_ValidationStatus := cr_ValidationStatus c\<rparr> = c"
      by (rule bexI [rotated]) (cases c, simp)
  qed
  then show "grows d ?d" by (simp add: grows_def jobs_evolve_same)
qed

lemma one_row_store [effects]: "keeps store_step (one_row r)"
  by (simp add: one_row_def store.keeps_ok store.keeps_fail split: option.split)

lemma review_claim_store [effects]: "keeps store_step (review_claim_stmt i status)"
  unfolding keeps_def
proof
  fix d
  have "snd (one_row r e) = e" for r :: "stored_claim option" and e
    by (simp add: one_row_def act_simps split: option.split)
  then show "store_step d (snd (review_claim_stmt i status d))"
    by (auto simp: review_claim_stmt_def act_simps store.R_refl split: sum.split intro!: review_step)
qed

lemma found_or_keeps [effects]: "keeps (on_db store_step) f \<Longrightarrow> keeps (on_db store_step) (found_or msg f)"
  unfolding found_or_def by (auto intro!: store_rules split: sum.split)

lemma GetDocument_store [effects]: "keeps (on_db store_step) (GetDocument i)"
  unfolding GetDocument_def document_by_id_stmt_def
  by (intro effects store_rules store.keeps_and_then store.keeps_convert store.keeps_read_db)

lemma ListClaimsByDocument_store [effects]: "keeps (on_db store_step) (ListClaimsByDocument i)"
  unfolding ListClaimsByDocument_def by (intro effects store_rules)

lemma GetClaimsByIDs_store [effects]: "keeps (on_db store_step) (GetClaimsByIDs ids)"
  unfolding GetClaimsByIDs_def by (auto intro: store_rules)

lemma SetClaimValidationStatus_store [effects]: "keeps (on_db store_step) (SetClaimValidationStatus i status)"
  unfolding SetClaimValidationStatus_def by (auto intro!: effects store_rules)

section \<open>Reading claims\<close>

text \<open>Over sound tables every claim joins with exactly one page, which is of its document.\<close>

lemma joined_claim_one:
  assumes "schema_ok d" and "c \<in> set (db_claims d)"
  shows "\<exists>p \<in> set (db_pages d). pg_ID p = cr_PageID c \<and> pg_DocumentID p = cr_DocumentID c
    \<and> joined_claim d c = [stored_of c p]"
proof -
  obtain p where p: "p \<in> set (db_pages d)" "pg_DocumentID p = cr_DocumentID c" "pg_ID p = cr_PageID c"
    using claim_on_page [OF assms] by blast
  have "distinct (map pg_ID (db_pages d))" using assms(1) by (simp add: schema_ok_def keys_ok_def)
  from filter_key_unique [OF this p(1)] p(3) have "joined_claim d c = [stored_of c p]"
    by (simp add: joined_claim_def)
  with p show ?thesis by blast
qed

lemma stored_of_simps [simp]:
  "sc_ID (stored_of c p) = cr_ID c" "sc_DocumentID (stored_of c p) = cr_DocumentID c"
  "sc_ValidationStatus (stored_of c p) = cr_ValidationStatus c" "sc_PageNumber (stored_of c p) = pg_PageNumber p"
  by (simp_all add: stored_of_def)

lemma joined_claims_ids:
  assumes "schema_ok d" and "set cs \<subseteq> set (db_claims d)"
  shows "map sc_ID (joined_claims d cs) = map cr_ID cs"
  using assms(2)
proof (induction cs)
  case (Cons c cs)
  then show ?case using joined_claim_one [OF assms(1), of c] by (auto simp: joined_claims_def)
qed (simp add: joined_claims_def)

lemma pg_query_Inr: "pg_query q m s w = (Inr x, w') \<Longrightarrow> \<exists>d. s (w_db w) = (Inr x, d) \<and> w_db w' = w_db w"
  by (auto simp: pg_query_def split: prod.splits fault.splits sum.splits dest!: next_fault_same)

text \<open>
  \<open>GetClaimsByIDs\<close> returns each claim that exists once, however often and in whatever spelling its
  id is asked for, ordered by effective time and then id. So the count the caller compares with
  the number of ids asked for is smaller whenever an id is unknown, or repeated.
\<close>

lemma claims_by_ids_spec:
  assumes "GetClaimsByIDs ids w = (Inr cs, w')" and "schema_ok (w_db w)"
  shows "distinct (map sc_ID cs) \<and> sorted (map (\<lambda>c. (sc_EffectiveAt c, sc_ID c)) cs)
    \<and> sc_ID ` set cs = {u \<in> cr_ID ` set (db_claims (w_db w)). Inr u \<in> uuid_in ` set ids}
    \<and> length cs \<le> card (set ids)"
proof (cases "ids = []")
  case True
  then show ?thesis using assms(1) by (simp add: GetClaimsByIDs_def ok_def)
next
  case False
  let ?d = "w_db w"
  from False assms(1) obtain us where us: "all_in uuid_in ids = Inr us" and
    cs: "cs = sort_slice by_effective (joined_claims ?d (filter (\<lambda>c. cr_ID c \<in> set us) (db_claims ?d)))"
    by (auto simp: GetClaimsByIDs_def claims_by_ids_stmt_def act_simps dest!: pg_query_Inr split: sum.splits)
  let ?raw = "joined_claims ?d (filter (\<lambda>c. cr_ID c \<in> set us) (db_claims ?d))"
  have ids: "map sc_ID ?raw = map cr_ID (filter (\<lambda>c. cr_ID c \<in> set us) (db_claims ?d))"
    by (rule joined_claims_ids [OF assms(2)]) auto
  have "distinct (map cr_ID (db_claims ?d))" using assms(2) by (simp add: schema_ok_def keys_ok_def)
  then have "distinct (map sc_ID ?raw)" unfolding ids by (simp add: distinct_map_filter)
  then have dist: "distinct (map sc_ID cs)" unfolding cs by (simp add: go_sort.srt_distinct_key)
  have "sc_ID ` set cs = set (map sc_ID ?raw)" unfolding cs by (simp add: go_sort.srt_set)
  also have "\<dots> = cr_ID ` set (db_claims ?d) \<inter> set us" unfolding ids by auto
  finally have idset: "sc_ID ` set cs = cr_ID ` set (db_claims ?d) \<inter> set us" .
  have us_set: "set us = {u. Inr u \<in> uuid_in ` set ids}"
    using us unfolding all_in_Inr
    by (force simp: list_all2_conv_all_nth in_set_conv_nth image_iff)
  have "length cs = card (sc_ID ` set cs)"
    using dist by (metis distinct_card length_map list.set_map)
  also have "\<dots> \<le> card (set us)" unfolding idset by (intro card_mono) auto
  also have "Inr ` set us \<subseteq> uuid_in ` set ids" using us_set by auto
  then have "card (Inr ` set us :: string result set) \<le> card (uuid_in ` set ids)" by (intro card_mono) auto
  then have "card (set us) \<le> card (set ids)"
    using card_image_le [of "set ids" uuid_in] by (simp add: card_image)
  finally have "length cs \<le> card (set ids)" by simp
  moreover have "sorted (map (\<lambda>c. (sc_EffectiveAt c, sc_ID c)) cs)"
    unfolding cs by (rule go_sort.srt_sorted_key)
  ultimately show ?thesis using dist idset us_set by auto
qed

end
