(* ===== verification/StrategyStore.thy ===== *)
theory StrategyStore
  imports ClaimStore
begin

text \<open>
  \<open>internal/store/strategies.go\<close>: committing the next version of a strategy with its citations, and
  reading strategies back.
\<close>

definition accepted_count_stmt :: "string list \<Rightarrow> nat stmt" where
  "accepted_count_stmt ids =
     and_then (convert (all_in uuid_in ids)) (\<lambda>us.
     read_db (\<lambda>d. length (filter (\<lambda>c. cr_ID c \<in> set us \<and> cr_ValidationStatus c = ''accepted'') (db_claims d))))"

text \<open>\<open>COALESCE(MAX(version), 0) + 1\<close> over the rows of the slug.\<close>

definition next_version :: "string \<Rightarrow> db \<Rightarrow> int" where
  "next_version slug d =
     (case map st_Version (filter (\<lambda>s. st_Slug s = slug) (db_strategies d)) of
        [] \<Rightarrow> 0
      | v # vs \<Rightarrow> fold max vs v) + 1"

definition insert_strategy_stmt :: "create_strategy_input \<Rightarrow> strategy stmt" where
  "insert_strategy_stmt input =
     and_then (convert (text_in (cst_Slug input))) (\<lambda>slug.
     and_then (convert (text_in (cst_Name input))) (\<lambda>name.
     and_then (convert (jsonb_in (cst_Spec input))) (\<lambda>spec.
     and_then (read_db (next_version slug)) (\<lambda>v.
     and_then (convert (int4_in v)) (\<lambda>version.
     and_then (convert (jsonb_set spec ''version'' (JInt version))) (\<lambda>stored.
     and_then (constraint ''strategies_version_check'' (\<lambda>d. 0 < version)) (\<lambda>_.
     and_then (constraint ''strategies_slug_version_key''
       (\<lambda>d. (slug, version) \<notin> (\<lambda>s. (st_Slug s, st_Version s)) ` set (db_strategies d))) (\<lambda>_.
     and_then gen_random_uuid (\<lambda>i.
     and_then (constraint ''strategies_pkey'' (\<lambda>d. i \<notin> st_ID ` set (db_strategies d))) (\<lambda>_.
     and_then (read_db db_now) (\<lambda>now.
     let row = \<lparr>st_ID = i, st_Slug = slug, st_Version = version, st_Name = name, st_Spec = stored,
                st_CreatedAt = now\<rparr>
     in and_then (write_db (\<lambda>d. d\<lparr>db_strategies := db_strategies d @ [row]\<rparr>)) (\<lambda>_. ok row))))))))))))"

definition insert_citations_stmt :: "string \<Rightarrow> string list \<Rightarrow> unit stmt" where
  "insert_citations_stmt i ids =
     and_then (convert (uuid_in i)) (\<lambda>u.
     and_then (convert (all_in uuid_in ids)) (\<lambda>us.
     and_then (constraint ''strategy_claims_pkey''
       (\<lambda>d. distinct us \<and> Pair u ` set us \<inter> set (db_citations d) = {})) (\<lambda>_.
     and_then (constraint ''strategy_claims_strategy_id_fkey'' (\<lambda>d. us = [] \<or> u \<in> st_ID ` set (db_strategies d))) (\<lambda>_.
     and_then (constraint ''strategy_claims_claim_id_fkey'' (\<lambda>d. set us \<subseteq> cr_ID ` set (db_claims d))) (\<lambda>_.
     write_db (\<lambda>d. d\<lparr>db_citations := db_citations d @ map (Pair u) us\<rparr>))))))"

definition CreateStrategyWithCitations :: "create_strategy_input \<Rightarrow> ('x world_scheme, strategy) act" where
  "CreateStrategyWithCitations input =
     transaction ''begin strategy transaction: %w''
       (and_then (wrapping ''lock strategy slug: %w'' [] (pg_exec (convert (text_in (cst_Slug input))))) (\<lambda>_.
        and_then (wrapping ''verify cited claims: %w'' [] (pg_exec (accepted_count_stmt (cst_ClaimIDs input)))) (\<lambda>accepted.
        if accepted \<noteq> length (cst_ClaimIDs input) then fail ErrClaimNotCitable
        else
          and_then (wrapping ''insert strategy: %w'' [] (pg_exec (insert_strategy_stmt input))) (\<lambda>s.
          and_then (wrapping ''insert strategy citations: %w'' []
            (pg_exec (insert_citations_stmt (st_ID s) (cst_ClaimIDs input)))) (\<lambda>_.
          ok (''commit strategy: %w'', s))))))"

definition list_strategies_stmt :: "strategy list stmt" where
  "list_strategies_stmt =
     read_db (\<lambda>d. sort_slice
       (\<lambda>a b. db_collation d (st_Slug a) (st_Slug b)
            \<or> (\<not> db_collation d (st_Slug b) (st_Slug a) \<and> st_Version b < st_Version a))
       (db_strategies d))"

definition ListStrategies :: "('x world_scheme, strategy list) act" where
  "ListStrategies = pg_query ''list strategies: %w'' ''iterate strategies: %w'' list_strategies_stmt"

definition strategy_by_id_stmt :: "string \<Rightarrow> strategy stmt" where
  "strategy_by_id_stmt i =
     and_then (convert (uuid_in i)) (\<lambda>u.
     and_then (read_db (\<lambda>d. find (\<lambda>s. st_ID s = u) (db_strategies d))) one_row)"

definition citations_stmt :: "string \<Rightarrow> stored_claim list stmt" where
  "citations_stmt i =
     and_then (convert (uuid_in i)) (\<lambda>u.
     read_db (\<lambda>d. sort_slice by_effective
       (concat (map (\<lambda>(s, c). joined_claims d (filter (\<lambda>row. cr_ID row = c) (db_claims d)))
          (filter (\<lambda>(s, c). s = u) (db_citations d))))))"

definition GetStrategyWithCitations :: "string \<Rightarrow> ('x world_scheme, strategy \<times> stored_claim list) act" where
  "GetStrategyWithCitations i =
     and_then (found_or ''get strategy: %w'' (pg_exec (strategy_by_id_stmt i))) (\<lambda>s.
     and_then (pg_query ''list strategy citations: %w'' ''iterate claims: %w'' (citations_stmt i)) (\<lambda>cs.
     ok (s, cs)))"

section \<open>Versions\<close>

abbreviation slug_versions :: "string \<Rightarrow> db \<Rightarrow> int set" where
  "slug_versions slug d \<equiv> st_Version ` {s \<in> set (db_strategies d). st_Slug s = slug}"

lemma next_version_Max: "next_version slug d = (if slug_versions slug d = {} then 0 else Max (slug_versions slug d)) + 1"
proof -
  let ?vs = "map st_Version (filter (\<lambda>s. st_Slug s = slug) (db_strategies d))"
  have same: "set ?vs = slug_versions slug d" by auto
  have "next_version slug d = (if set ?vs = {} then 0 else Max (set ?vs)) + 1"
  proof (cases ?vs)
    case (Cons v vs)
    have "fold max vs v = Max (set (v # vs))" by (rule Max.set_eq_fold [symmetric])
    then show ?thesis unfolding next_version_def Cons by (simp only: list.case set_empty list.distinct if_False)
  qed (simp add: next_version_def)
  then show ?thesis unfolding same .
qed

lemma next_version_above:
  "s \<in> set (db_strategies d) \<Longrightarrow> st_Slug s = slug \<Longrightarrow> st_Version s < next_version slug d"
proof -
  assume "s \<in> set (db_strategies d)" "st_Slug s = slug"
  then have "st_Version s \<in> slug_versions slug d" by simp
  moreover from this have "st_Version s \<le> Max (slug_versions slug d)" by (intro Max_ge) simp_all
  ultimately show ?thesis unfolding next_version_Max by force
qed

text \<open>Over gapless versions the next one is one more than the last, and all before it are there.\<close>

lemma versions_set:
  assumes "versions_ok d"
  shows "slug_versions slug d = {1..<next_version slug d}"
proof (cases "slug_versions slug d = {}")
  case True
  then show ?thesis unfolding next_version_Max by simp
next
  case False
  then have "Max (slug_versions slug d) \<in> slug_versions slug d" by (intro Max_in) simp_all
  then obtain t where "t \<in> set (db_strategies d)" "st_Slug t = slug" "st_Version t = Max (slug_versions slug d)"
    by (metis (mono_tags, lifting) imageE mem_Collect_eq)
  then have t: "t \<in> set (db_strategies d)" "st_Slug t = slug" "st_Version t + 1 = next_version slug d"
    using False unfolding next_version_Max by auto
  show ?thesis
  proof
    show "slug_versions slug d \<subseteq> {1..<next_version slug d}"
      using assms next_version_above by (auto simp: versions_ok_def)
  next
    show "{1..<next_version slug d} \<subseteq> slug_versions slug d"
    proof
      fix v assume v: "v \<in> {1..<next_version slug d}"
      show "v \<in> slug_versions slug d"
      proof (cases "v = st_Version t")
        case True
        then show ?thesis using t(1,2) by simp
      next
        case False
        then have "1 \<le> v \<and> v < st_Version t" using v t(3) by auto
        then have "(slug, v) \<in> (\<lambda>t. (st_Slug t, st_Version t)) ` set (db_strategies d)"
          using assms t(1,2) unfolding versions_ok_def by blast
        then show ?thesis by auto
      qed
    qed
  qed
qed

lemma next_version_pos: "versions_ok d \<Longrightarrow> 1 \<le> next_version slug d"
proof -
  assume "versions_ok d"
  note vs = versions_set [OF this, of slug]
  show ?thesis
  proof (cases "slug_versions slug d = {}")
    case True
    then show ?thesis unfolding next_version_Max by simp
  next
    case False
    then show ?thesis unfolding vs by simp
  qed
qed

section \<open>The statements keep the discipline\<close>

lemma new_strategy_step:
  assumes "st_ID row \<notin> st_ID ` set (db_strategies d)" and "st_Version row = next_version (st_Slug row) d"
    and "\<exists>k. st_ID row = db_uuid d k"
  shows "store_step d (d\<lparr>db_next := n, db_strategies := db_strategies d @ [row]\<rparr>)"
  unfolding store_step_def
proof (intro impI conjI)
  let ?d = "d\<lparr>db_next := n, db_strategies := db_strategies d @ [row]\<rparr>"
  assume ok: "schema_ok d"
  have jobs: "jobs_ok ?d" using ok by (simp add: schema_ok_def jobs_ok_def)
  have vs: "st_Version ` {s \<in> set (db_strategies d). st_Slug s = st_Slug row} = {1..<st_Version row}"
    using versions_set [of d "st_Slug row"] ok assms(2) by (simp add: schema_ok_def)
  have "(st_Slug row, st_Version row) \<notin> (\<lambda>s. (st_Slug s, st_Version s)) ` set (db_strategies d)"
    using next_version_above [of _ d "st_Slug row"] assms(2) by fastforce
  then have "keys_ok ?d" using ok assms(1) by (simp add: schema_ok_def keys_ok_def)
  moreover have "refs_ok ?d" using ok unfolding schema_ok_def refs_ok_def by auto
  moreover have "versions_ok ?d"
  proof -
    have "1 \<le> st_Version row" using next_version_pos ok assms(2) by (simp add: schema_ok_def)
    moreover have "(st_Slug row, v) \<in> (\<lambda>t. (st_Slug t, st_Version t)) ` set (db_strategies d)"
      if "1 \<le> v" "v < st_Version row" for v
    proof -
      have "v \<in> slug_versions (st_Slug row) d" unfolding vs using that by simp
      then obtain t where "t \<in> set (db_strategies d)" "st_Slug t = st_Slug row" "st_Version t = v" by auto
      then show ?thesis by (intro image_eqI [of _ _ t]) simp_all
    qed
    moreover have "versions_ok d" using ok by (simp add: schema_ok_def)
    ultimately show ?thesis unfolding versions_ok_def by simp
  qed
  moreover have "uuids_ok ?d" using ok assms(3) by (auto simp: schema_ok_def uuids_ok_def)
  ultimately show "schema_ok ?d" using ok jobs by (simp add: schema_ok_def checks_ok_def)
  show "grows d ?d" by (simp add: grows_def cited_kept_same jobs_evolve_same)
qed

lemma insert_strategy_store [effects]: "keeps store_step (insert_strategy_stmt input)"
  unfolding keeps_def
  by (auto simp: insert_strategy_stmt_def act_simps Let_def same_tables_def int4_in_def
      split: sum.split if_splits intro!: new_strategy_step intro: store_step_same)

lemma insert_citations_store [effects]: "keeps store_step (insert_citations_stmt i ids)"
  unfolding keeps_def
proof
  fix d
  have "store_step d (d\<lparr>db_citations := db_citations d @ map (Pair u) us\<rparr>)"
    if "distinct us" "Pair u ` set us \<inter> set (db_citations d) = {}" "us = [] \<or> u \<in> st_ID ` set (db_strategies d)"
      "set us \<subseteq> cr_ID ` set (db_claims d)" for u us
    unfolding store_step_def
  proof (intro impI conjI)
    let ?d = "d\<lparr>db_citations := db_citations d @ map (Pair u) us\<rparr>"
    assume ok: "schema_ok d"
    have "jobs_ok ?d" using ok by (simp add: schema_ok_def jobs_ok_def)
    moreover have "keys_ok ?d" using ok that by (auto simp: schema_ok_def keys_ok_def distinct_map inj_on_def)
    moreover have "refs_ok ?d" using ok that by (auto simp: schema_ok_def refs_ok_def)
    ultimately show "schema_ok ?d" using ok by (simp add: schema_ok_def checks_ok_def versions_ok_def uuids_ok_def)
    show "grows d ?d" by (simp add: grows_def cited_kept_same jobs_evolve_same)
  qed
  then show "store_step d (snd (insert_citations_stmt i ids d))"
    by (simp add: insert_citations_stmt_def act_simps store.R_refl split: sum.split)
qed

lemma accepted_count_store [effects]: "keeps store_step (accepted_count_stmt ids)"
  unfolding accepted_count_stmt_def by (intro store.keeps_and_then store.keeps_convert store.keeps_read_db)

lemma CreateStrategy_store [effects]: "keeps (on_db store_step) (CreateStrategyWithCitations input)"
  unfolding CreateStrategyWithCitations_def
  by (intro store_rules effects store.keeps_convert) (auto intro!: store_rules effects)

lemma ListStrategies_store [effects]: "keeps (on_db store_step) ListStrategies"
  unfolding ListStrategies_def by (intro store_rules)

lemma GetStrategy_store [effects]: "keeps (on_db store_step) (GetStrategyWithCitations i)"
  unfolding GetStrategyWithCitations_def strategy_by_id_stmt_def
  by (intro store_rules effects store.keeps_and_then store.keeps_convert store.keeps_read_db)

section \<open>Committing a version\<close>

lemma insert_strategy_Inr:
  assumes "insert_strategy_stmt input d = (Inr s, d')"
  shows "\<exists>spec. db_strategies d' = db_strategies d @ [s] \<and> db_citations d' = db_citations d \<and> db_claims d' = db_claims d
    \<and> st_Slug s = cst_Slug input \<and> st_Name s = cst_Name input \<and> st_Version s = next_version (cst_Slug input) d
    \<and> jsonb_in (cst_Spec input) = Inr spec \<and> jsonb_set spec ''version'' (JInt (st_Version s)) = Inr (st_Spec s)
    \<and> st_ID s = db_uuid d (db_next d)"
  using assms by (auto simp: insert_strategy_stmt_def act_simps Let_def int4_in_def split: sum.splits if_splits
      dest!: text_in_Inr)

lemma insert_citations_Inr:
  assumes "insert_citations_stmt i ids d = (Inr x, d')"
  shows "\<exists>u us. uuid_in i = Inr u \<and> all_in uuid_in ids = Inr us \<and> distinct us
    \<and> db_citations d' = db_citations d @ map (Pair u) us \<and> db_strategies d' = db_strategies d"
  using assms by (auto simp: insert_citations_stmt_def act_simps split: sum.splits if_splits)

lemma accepted_count_all:
  assumes "distinct (map cr_ID (db_claims d))" and "distinct us"
    and "length (filter (\<lambda>c. cr_ID c \<in> set us \<and> cr_ValidationStatus c = ''accepted'') (db_claims d)) = length us"
  shows "\<forall>u \<in> set us. \<exists>c \<in> set (db_claims d). cr_ID c = u \<and> cr_ValidationStatus c = ''accepted''"
proof -
  let ?fs = "filter (\<lambda>c. cr_ID c \<in> set us \<and> cr_ValidationStatus c = ''accepted'') (db_claims d)"
  have "distinct (map cr_ID ?fs)" using assms(1) by (simp add: distinct_map_filter)
  from distinct_card [OF this] have "card (cr_ID ` set ?fs) = length ?fs" by (simp only: length_map list.set_map)
  then have "card (cr_ID ` set ?fs) = card (set us)"
    unfolding assms(3) by (simp only: distinct_card [OF assms(2)])
  moreover have "cr_ID ` set ?fs \<subseteq> set us" by auto
  ultimately have "cr_ID ` set ?fs = set us" by (intro card_subset_eq) simp_all
  then show ?thesis by force
qed

lemma CreateStrategy_run:
  fixes w :: "'x world_scheme"
  assumes "CreateStrategyWithCitations input w = (r, w')"
  obtains (unchanged) e where "r = Inl e" "w_db w' = w_db w"
  | (committed) s d x where "insert_strategy_stmt input (w_db w) = (Inr s, d)"
      "insert_citations_stmt (st_ID s) (cst_ClaimIDs input) d = (Inr x, w_db w')"
      "accepted_count_stmt (cst_ClaimIDs input) (w_db w) = (Inr (length (cst_ClaimIDs input)), w_db w)"
      "r = Inr s \<or> r = Inl (Errorf ''commit strategy: %w'' [AW connection_error])"
  using assms unfolding CreateStrategyWithCitations_def
proof (cases rule: transaction_cases)
  case (committed m s w1 w2)
  have w1: "w_db w1 = w_db w" using next_fault_same [OF committed(1)] by simp
  from committed(2) obtain x1 v1 n v2 s' v3 x4 where
    1: "pg_exec (convert (text_in (cst_Slug input))) w1 = (Inr x1, v1)" and
    2: "pg_exec (accepted_count_stmt (cst_ClaimIDs input)) v1 = (Inr n, v2)" and
    3: "pg_exec (insert_strategy_stmt input) v2 = (Inr s', v3)" and
    4: "pg_exec (insert_citations_stmt (st_ID s') (cst_ClaimIDs input)) v3 = (Inr x4, w2)" and
    n: "n = length (cst_ClaimIDs input)" and s: "s' = s" and m: "m = ''commit strategy: %w''"
    unfolding and_then_Inr wrapping_Inr by (fastforce simp: fail_def ok_def and_then_Inr wrapping_Inr split: if_splits)
  have v1: "w_db v1 = w_db w" using pg_exec_Inr [OF 1] w1 by (auto simp: convert_def)
  have 2: "accepted_count_stmt (cst_ClaimIDs input) (w_db w) = (Inr n, w_db v2)"
    using pg_exec_Inr [OF 2] v1 by auto
  then have v2: "w_db v2 = w_db w" by (auto simp: accepted_count_stmt_def act_simps split: sum.splits)
  have "insert_strategy_stmt input (w_db w) = (Inr s, w_db v3)" using pg_exec_Inr [OF 3] v2 s by auto
  moreover have "insert_citations_stmt (st_ID s) (cst_ClaimIDs input) (w_db v3) = (Inr x4, w_db w')"
    using pg_exec_Inr [OF 4] s committed(3) by auto
  ultimately show ?thesis using that(2) 2 v2 n m committed(4) by auto
qed

text \<open>
  C7 Committing a strategy is all or nothing, gapless and evidence-backed. Whatever faults occur,
  \<open>CreateStrategyWithCitations\<close> either leaves strategies and citations as they were, or appends one
  strategy, of the version after the last one of its slug, together with one citation for each id
  given; the ids are then pairwise different claims, each accepted when the version was committed.
  It returns a strategy only for the second, and returns the one it stored.
\<close>

theorem create_strategy_atomic:
  assumes "CreateStrategyWithCitations input w = (r, w')" and "schema_ok (w_db w)"
  shows "((\<exists>e. r = Inl e) \<and> w_db w' = w_db w)
    \<or> (\<exists>s us. db_strategies (w_db w') = db_strategies (w_db w) @ [s]
        \<and> db_citations (w_db w') = db_citations (w_db w) @ map (Pair (st_ID s)) us
        \<and> st_Slug s = cst_Slug input \<and> st_Name s = cst_Name input
        \<and> st_Version s = 1 + int (card (slug_versions (cst_Slug input) (w_db w)))
        \<and> all_in uuid_in (cst_ClaimIDs input) = Inr us \<and> distinct us
        \<and> (\<forall>u \<in> set us. \<exists>c \<in> set (db_claims (w_db w)). cr_ID c = u \<and> cr_ValidationStatus c = ''accepted'')
        \<and> (r = Inr s \<or> (\<exists>e. r = Inl e)))"
  using assms(1)
proof (cases rule: CreateStrategy_run)
  case (committed s d x)
  let ?d = "w_db w"
  from insert_strategy_Inr [OF committed(1)] have s: "db_strategies d = db_strategies ?d @ [s]"
    "db_citations d = db_citations ?d" "st_Slug s = cst_Slug input" "st_Name s = cst_Name input"
    "st_Version s = next_version (cst_Slug input) ?d" "st_ID s = db_uuid ?d (db_next ?d)"
    by auto
  from insert_citations_Inr [OF committed(2)] obtain us where us: "uuid_in (st_ID s) = Inr (st_ID s)"
    "all_in uuid_in (cst_ClaimIDs input) = Inr us" "distinct us"
    "db_citations (w_db w') = db_citations d @ map (Pair (st_ID s)) us" "db_strategies (w_db w') = db_strategies d"
    using assms(2) s(6) by (auto simp: schema_ok_def uuids_ok_def)
  have "length us = length (cst_ClaimIDs input)" by (rule all_in_length [OF us(2)])
  then have "\<forall>u \<in> set us. \<exists>c \<in> set (db_claims ?d). cr_ID c = u \<and> cr_ValidationStatus c = ''accepted''"
    using committed(3) us(2,3) assms(2) accepted_count_all [of ?d us]
    by (simp add: accepted_count_stmt_def act_simps schema_ok_def keys_ok_def)
  moreover have "next_version (cst_Slug input) ?d = 1 + int (card (slug_versions (cst_Slug input) ?d))"
    using versions_set [of ?d "cst_Slug input"] next_version_pos [of ?d "cst_Slug input"] assms(2)
    by (simp add: schema_ok_def)
  ultimately show ?thesis using s us committed(4) by auto
qed simp

end
