(* ===== verification/MarketDataStore.thy ===== *)
theory MarketDataStore
  imports StrategyStore Dates
begin

text \<open>
  \<open>internal/store/marketdata.go\<close>: recording a market-data snapshot and reading snapshots. The job
  insertion of that file is with the queue.
\<close>

definition snapshot_metadata :: "create_snapshot_input \<Rightarrow> raw_message" where
  "snapshot_metadata input = Raw (JObject [(''bar_interval'', json_string (csi_Interval input))])"

text \<open>The \<open>metadata\<close> column is written and never read, so the row of the model leaves it out.\<close>

definition insert_snapshot_stmt :: "create_snapshot_input \<Rightarrow> market_data_snapshot stmt" where
  "insert_snapshot_stmt input =
     and_then (convert (text_in (csi_Provider input))) (\<lambda>provider.
     and_then (convert (all_in text_in (csi_Symbols input))) (\<lambda>symbols.
     and_then (convert (text_in (csi_Interval input))) (\<lambda>interval.
     and_then (convert (date_in (csi_StartDate input))) (\<lambda>start_date.
     and_then (convert (date_in (csi_EndDate input))) (\<lambda>end_date.
     and_then (convert (text_in (csi_StorageKey input))) (\<lambda>storage_key.
     and_then (convert (char64_in (csi_Checksum input))) (\<lambda>checksum.
     and_then (convert (jsonb_in (snapshot_metadata input))) (\<lambda>_.
     and_then gen_random_uuid (\<lambda>i.
     and_then (constraint ''market_data_snapshots_pkey'' (\<lambda>d. i \<notin> snap_ID ` set (db_snapshots d))) (\<lambda>_.
     let row = \<lparr>snap_ID = i, snap_Provider = provider, snap_Symbols = symbols, snap_Interval = interval,
                snap_StartDate = start_date, snap_EndDate = end_date, snap_StorageKey = Some storage_key,
                snap_Checksum = Some checksum, snap_RetrievedAt = ts_in (csi_RetrievedAt input)\<rparr>
     in and_then (write_db (\<lambda>d. d\<lparr>db_snapshots := db_snapshots d @ [row]\<rparr>)) (\<lambda>_. ok row)))))))))))"

definition InsertMarketDataSnapshot ::
    "create_snapshot_input \<Rightarrow> ('x world_scheme, market_data_snapshot) act" where
  "InsertMarketDataSnapshot input =
     wrapping ''insert market data snapshot: %w'' [] (pg_exec (insert_snapshot_stmt input))"

definition snapshot_by_id_stmt :: "string \<Rightarrow> market_data_snapshot stmt" where
  "snapshot_by_id_stmt i =
     and_then (convert (uuid_in i)) (\<lambda>u.
     and_then (read_db (\<lambda>d. find (\<lambda>s. snap_ID s = u) (db_snapshots d))) one_row)"

definition GetMarketDataSnapshot :: "string \<Rightarrow> ('x world_scheme, market_data_snapshot) act" where
  "GetMarketDataSnapshot i = found_or ''get market data snapshot: %w'' (pg_exec (snapshot_by_id_stmt i))"

definition list_snapshots_stmt :: "market_data_snapshot list stmt" where
  "list_snapshots_stmt =
     read_db (\<lambda>d. sort_slice (\<lambda>a b. snap_RetrievedAt b < snap_RetrievedAt a) (db_snapshots d))"

definition ListMarketDataSnapshots :: "('x world_scheme, market_data_snapshot list) act" where
  "ListMarketDataSnapshots =
     pg_query ''list market data snapshots: %w'' ''iterate market data snapshots: %w'' list_snapshots_stmt"

section \<open>The statements keep the discipline\<close>

lemma new_snapshot_step:
  assumes "snap_ID row \<notin> snap_ID ` set (db_snapshots d)"
  shows "store_step d (d\<lparr>db_next := n, db_snapshots := db_snapshots d @ [row]\<rparr>)"
  unfolding store_step_def
proof (intro impI conjI)
  let ?d = "d\<lparr>db_next := n, db_snapshots := db_snapshots d @ [row]\<rparr>"
  assume ok: "schema_ok d"
  have jobs: "jobs_ok ?d" using ok by (simp add: schema_ok_def jobs_ok_def)
  have "keys_ok ?d" using ok assms by (simp add: schema_ok_def keys_ok_def)
  moreover have "refs_ok ?d" using ok unfolding schema_ok_def refs_ok_def by auto
  ultimately show "schema_ok ?d"
    using ok jobs by (simp add: schema_ok_def checks_ok_def versions_ok_def uuids_ok_def)
  show "grows d ?d" by (simp add: grows_def cited_kept_same jobs_evolve_same)
qed

lemma insert_snapshot_store [effects]: "keeps store_step (insert_snapshot_stmt input)"
  unfolding keeps_def
  by (auto simp: insert_snapshot_stmt_def act_simps Let_def same_tables_def
      split: sum.split intro!: new_snapshot_step intro: store_step_same)

lemma InsertSnapshot_store [effects]: "keeps (on_db store_step) (InsertMarketDataSnapshot input)"
  unfolding InsertMarketDataSnapshot_def by (intro store_rules effects)

lemma GetSnapshot_store [effects]: "keeps (on_db store_step) (GetMarketDataSnapshot i)"
  unfolding GetMarketDataSnapshot_def snapshot_by_id_stmt_def
  by (intro effects store_rules store.keeps_and_then store.keeps_convert store.keeps_read_db)

lemma ListSnapshots_store [effects]: "keeps (on_db store_step) ListMarketDataSnapshots"
  unfolding ListMarketDataSnapshots_def by (intro store_rules)

section \<open>A snapshot comes back as it was recorded\<close>

lemma insert_snapshot_Inr:
  assumes "insert_snapshot_stmt input d = (Inr s, d')"
  shows "db_snapshots d' = db_snapshots d @ [s] \<and> snap_ID s = db_uuid d (db_next d) \<and> snap_ID s \<notin> snap_ID ` set (db_snapshots d)
    \<and> snap_Provider s = csi_Provider input \<and> snap_Symbols s = csi_Symbols input \<and> snap_Interval s = csi_Interval input
    \<and> snap_StartDate s = csi_StartDate input \<and> snap_EndDate s = csi_EndDate input
    \<and> snap_StorageKey s = Some (csi_StorageKey input)
    \<and> (\<exists>c. snap_Checksum s = Some c \<and> char64_in (csi_Checksum input) = Inr c)"
proof -
  have texts: "all_in text_in xs = Inr ys \<Longrightarrow> ys = xs" for xs ys
    by (induction xs arbitrary: ys) (auto split: sum.splits dest: text_in_Inr)
  have "date_in t = Inr u \<Longrightarrow> u = t" for t u by (auto simp: date_in_def split: option.splits if_splits)
  with assms show ?thesis
    by (auto simp: insert_snapshot_stmt_def act_simps Let_def split: sum.splits if_splits
        dest!: text_in_Inr dest: texts)
qed

lemma find_appended: "k x \<notin> k ` set xs \<Longrightarrow> find (\<lambda>y. k y = k x) (xs @ [x]) = Some x"
  by (induction xs) auto

text \<open>
  C14 What \<open>InsertMarketDataSnapshot\<close> returns is what \<open>GetMarketDataSnapshot\<close> reads back under its id over a
  healthy connection, now and after any further work of the store: with the provider, symbols,
  interval, dates and storage key that were given.
\<close>

theorem snapshot_roundtrip:
  fixes w :: "'x world_scheme" and v :: "'y world_scheme"
  assumes "InsertMarketDataSnapshot input w = (Inr s, w')" and "schema_ok (w_db w)"
    and "store_step (w_db w') (w_db v)" and "w_faults v = []"
  shows "GetMarketDataSnapshot (snap_ID s) v = (Inr s, v)
    \<and> snap_Provider s = csi_Provider input \<and> snap_Symbols s = csi_Symbols input
    \<and> snap_Interval s = csi_Interval input \<and> snap_StartDate s = csi_StartDate input
    \<and> snap_EndDate s = csi_EndDate input \<and> snap_StorageKey s = Some (csi_StorageKey input)"
proof -
  from assms(1) have "pg_exec (insert_snapshot_stmt input) w = (Inr s, w')"
    by (simp add: InsertMarketDataSnapshot_def wrapping_Inr)
  then have stmt: "insert_snapshot_stmt input (w_db w) = (Inr s, w_db w')" by (auto dest: pg_exec_Inr)
  note new = insert_snapshot_Inr [OF stmt]
  have "keeps store_step (insert_snapshot_stmt input)" by (rule effects)
  then have "store_step (w_db w) (w_db w')" using stmt by (rule keepsD)
  then have "schema_ok (w_db w')" using assms(2) by (simp add: store_step_def)
  then have "schema_ok (w_db v)" "prefix (db_snapshots (w_db w')) (db_snapshots (w_db v))"
    using assms(3) by (simp_all add: store_step_def grows_def)
  moreover have "s \<in> set (db_snapshots (w_db w'))" using new by simp
  ultimately have "distinct (map snap_ID (db_snapshots (w_db v)))" "s \<in> set (db_snapshots (w_db v))"
    using set_mono_prefix by (simp add: schema_ok_def keys_ok_def, blast)
  then have "find (\<lambda>x. snap_ID x = snap_ID s) (db_snapshots (w_db v)) = Some s"
    by (rule find_key_unique)
  moreover have "uuid_in (snap_ID s) = Inr (snap_ID s)"
    using assms(2) new by (simp add: schema_ok_def uuids_ok_def)
  ultimately have "GetMarketDataSnapshot (snap_ID s) v = (Inr s, v)"
    using assms(4) by (simp add: GetMarketDataSnapshot_def found_or_def pg_exec_def next_fault_def
        snapshot_by_id_stmt_def one_row_def act_simps)
  with new show ?thesis by simp
qed

end
