(* ===== verification/BacktestStore.thy ===== *)
theory BacktestStore
  imports MarketDataStore
begin

text \<open>
  \<open>internal/store/backtest.go\<close>: queueing a backtest run with its job, reading a run, moving its
  status, and completing it together with its candidate ranking.
\<close>

definition empty_object :: raw_message where
  "empty_object = Raw (JObject [])"

definition or_empty_object :: "raw_message \<Rightarrow> raw_message" where
  "or_empty_object r = (if r = NoBytes then empty_object else r)"

section \<open>Queueing and reading a run\<close>

definition insert_run_stmt :: "create_backtest_input \<Rightarrow> raw_message \<Rightarrow> backtest_run stmt" where
  "insert_run_stmt input parameters =
     and_then (convert (uuid_in (cbi_StrategyID input))) (\<lambda>strategy.
     and_then (convert (uuid_in (cbi_SnapshotID input))) (\<lambda>snapshot.
     and_then (convert (jsonb_in parameters)) (\<lambda>stored.
     and_then gen_random_uuid (\<lambda>i.
     and_then (constraint ''backtest_runs_pkey'' (\<lambda>d. i \<notin> run_ID ` set (db_runs d))) (\<lambda>_.
     and_then (constraint ''backtest_runs_strategy_id_fkey'' (\<lambda>d. strategy \<in> st_ID ` set (db_strategies d))) (\<lambda>_.
     and_then (constraint ''backtest_runs_market_data_snapshot_id_fkey''
       (\<lambda>d. snapshot \<in> snap_ID ` set (db_snapshots d))) (\<lambda>_.
     and_then (read_db db_now) (\<lambda>now.
     let row = \<lparr>run_ID = i, run_StrategyID = strategy, run_MarketDataSnapshotID = snapshot,
                run_DocumentCutoffAt = ts_in (cbi_DocumentCutoffAt input), run_Status = ''queued'',
                run_Parameters = stored, run_Summary = empty_object, run_EngineVersion = None,
                run_ResultArtifactKey = None, run_ResultChecksum = None, run_CreatedAt = now,
                run_CompletedAt = None\<rparr>
     in and_then (write_db (\<lambda>d. d\<lparr>db_runs := db_runs d @ [row]\<rparr>)) (\<lambda>_. ok row)))))))))"

definition backtest_payload :: "string \<Rightarrow> raw_message" where
  "backtest_payload i = Raw (JObject [(''backtest_id'', json_string i)])"

definition CreateBacktestWithRunJob ::
    "create_backtest_input \<Rightarrow> ('x world_scheme, backtest_run \<times> job) act" where
  "CreateBacktestWithRunJob input =
     (case create_backtest_input_validate input of
        Some err \<Rightarrow> fail (Errorf ''validate backtest input: %w'' [AW err])
      | None \<Rightarrow>
          transaction ''begin backtest transaction: %w''
            (and_then (wrapping ''insert backtest run: %w'' []
               (pg_exec (insert_run_stmt input (or_empty_object (cbi_Parameters input))))) (\<lambda>run.
             and_then (insert_job ''run_backtest'' (backtest_payload (run_ID run))) (\<lambda>j.
             ok (''commit backtest transaction: %w'', (run, j))))))"

definition run_by_id_stmt :: "string \<Rightarrow> backtest_run stmt" where
  "run_by_id_stmt i =
     and_then (convert (uuid_in i)) (\<lambda>u.
     and_then (read_db (\<lambda>d. find (\<lambda>r. run_ID r = u) (db_runs d))) one_row)"

definition GetBacktestRun :: "string \<Rightarrow> ('x world_scheme, backtest_run) act" where
  "GetBacktestRun i = found_or ''get backtest run: %w'' (pg_exec (run_by_id_stmt i))"

definition run_status_stmt :: "string \<Rightarrow> string \<Rightarrow> nat stmt" where
  "run_status_stmt i status =
     and_then (convert (uuid_in i)) (\<lambda>u.
     and_then (constraint ''backtest_runs_status_check'' (\<lambda>d. status \<in> set run_statuses)) (\<lambda>_.
     and_then (read_db (\<lambda>d. length (filter (\<lambda>r. run_ID r = u) (db_runs d)))) (\<lambda>n.
     and_then (write_db (\<lambda>d. d\<lparr>db_runs :=
         update_where (\<lambda>r. run_ID r = u) (\<lambda>r. r\<lparr>run_Status := status\<rparr>) (db_runs d)\<rparr>)) (\<lambda>_.
     ok n))))"

definition SetBacktestStatus :: "string \<Rightarrow> string \<Rightarrow> ('x world_scheme, unit) act" where
  "SetBacktestStatus i status =
     (if status \<notin> set run_statuses then fail (Errorf ''invalid backtest status %q'' [AQ status])
      else
        and_then (wrapping ''set backtest status: %w'' [] (pg_exec (run_status_stmt i status))) (\<lambda>n.
        if n \<noteq> 1 then fail ErrNotFound else ok ()))"

section \<open>Completing a run\<close>

definition in_progress :: "backtest_run \<Rightarrow> bool" where
  "in_progress r \<longleftrightarrow> run_Status r \<in> {''queued'', ''running''}"

definition finished_row :: "raw_message \<Rightarrow> string \<Rightarrow> string \<Rightarrow> string \<Rightarrow> time \<Rightarrow> backtest_run \<Rightarrow> backtest_run" where
  "finished_row summary key checksum engine now r =
     r\<lparr>run_Status := ''completed'', run_Summary := summary, run_ResultArtifactKey := Some key,
       run_ResultChecksum := Some checksum, run_EngineVersion := Some engine, run_CompletedAt := Some now\<rparr>"

definition complete_run_stmt :: "string \<Rightarrow> raw_message \<Rightarrow> string \<Rightarrow> string \<Rightarrow> string \<Rightarrow> string stmt" where
  "complete_run_stmt i summary artifact_key result_checksum engine_version =
     and_then (convert (uuid_in i)) (\<lambda>u.
     and_then (convert (jsonb_in summary)) (\<lambda>stored.
     and_then (convert (text_in artifact_key)) (\<lambda>key.
     and_then (convert (char64_in result_checksum)) (\<lambda>checksum.
     and_then (convert (text_in engine_version)) (\<lambda>engine.
     and_then (read_db (\<lambda>d. find (\<lambda>r. run_ID r = u \<and> in_progress r) (db_runs d))) (\<lambda>found.
     and_then (write_db (\<lambda>d. d\<lparr>db_runs := update_where (\<lambda>r. run_ID r = u \<and> in_progress r)
         (finished_row stored key checksum engine (db_now d)) (db_runs d)\<rparr>)) (\<lambda>_.
     one_row (map_option run_StrategyID found))))))))"

text \<open>\<open>DELETE FROM portfolio_candidates\<close> cascades to the evidence of the candidates.\<close>

definition delete_candidates_stmt :: "string \<Rightarrow> unit stmt" where
  "delete_candidates_stmt i =
     and_then (convert (uuid_in i)) (\<lambda>u.
     and_then (read_db (\<lambda>d. cnd_ID ` {c \<in> set (db_candidates d). cnd_RunID c = u})) (\<lambda>gone.
     write_db (\<lambda>d. d\<lparr>db_candidates := filter (\<lambda>c. cnd_RunID c \<noteq> u) (db_candidates d),
                     db_evidence := filter (\<lambda>e. er_CandidateID e \<notin> gone) (db_evidence d)\<rparr>)))"

definition insert_candidate_stmt :: "string \<Rightarrow> string \<Rightarrow> time \<Rightarrow> candidate_position \<Rightarrow> string stmt" where
  "insert_candidate_stmt run_id strategy_id as_of p =
     and_then (convert (uuid_in run_id)) (\<lambda>run.
     and_then (convert (uuid_in strategy_id)) (\<lambda>strategy.
     and_then (convert (text_in (cp_Symbol p))) (\<lambda>symbol.
     and_then (convert (int4_in (cp_Rank p))) (\<lambda>rank.
     and_then (constraint ''portfolio_candidates_rank_check'' (\<lambda>d. 0 < rank)) (\<lambda>_.
     and_then (constraint ''portfolio_candidates_weight_check'' (\<lambda>d. pg_positive (cp_Weight p))) (\<lambda>_.
     and_then gen_random_uuid (\<lambda>k.
     and_then (constraint ''portfolio_candidates_pkey'' (\<lambda>d. k \<notin> cnd_ID ` set (db_candidates d))) (\<lambda>_.
     and_then (constraint ''portfolio_candidates_backtest_run_id_symbol_key''
       (\<lambda>d. (run, symbol) \<notin> (\<lambda>c. (cnd_RunID c, cnd_Symbol c)) ` set (db_candidates d))) (\<lambda>_.
     and_then (constraint ''portfolio_candidates_backtest_run_id_rank_key''
       (\<lambda>d. (run, rank) \<notin> (\<lambda>c. (cnd_RunID c, cnd_Rank c)) ` set (db_candidates d))) (\<lambda>_.
     and_then (constraint ''portfolio_candidates_backtest_run_id_fkey'' (\<lambda>d. run \<in> run_ID ` set (db_runs d))) (\<lambda>_.
     and_then (constraint ''portfolio_candidates_strategy_id_fkey''
       (\<lambda>d. strategy \<in> st_ID ` set (db_strategies d))) (\<lambda>_.
     and_then (write_db (\<lambda>d. d\<lparr>db_candidates := db_candidates d @
       [\<lparr>cnd_ID = k, cnd_RunID = run, cnd_StrategyID = strategy, cnd_Symbol = symbol, cnd_Rank = rank,
         cnd_Weight = cp_Weight p, cnd_Score = cp_Score p, cnd_Momentum = cp_Momentum p,
         cnd_MomentumRank = Some (cp_MomentumRank p), cnd_ClaimSupport = cp_ClaimSupport p,
         cnd_AsOf = date_of_time as_of\<rparr>]\<rparr>)) (\<lambda>_. ok k)))))))))))))"

text \<open>\<open>ON CONFLICT (candidate_id, claim_id) DO NOTHING\<close>: the first contribution stays.\<close>

definition insert_evidence_stmt :: "string \<Rightarrow> candidate_evidence \<Rightarrow> unit stmt" where
  "insert_evidence_stmt candidate_id ev =
     and_then (convert (uuid_in candidate_id)) (\<lambda>k.
     and_then (convert (uuid_in (ev_ClaimID ev))) (\<lambda>c.
     and_then (read_db (\<lambda>d. (k, c) \<in> (\<lambda>e. (er_CandidateID e, er_ClaimID e)) ` set (db_evidence d))) (\<lambda>known.
     if known then ok ()
     else
       and_then (constraint ''candidate_claims_candidate_id_fkey'' (\<lambda>d. k \<in> cnd_ID ` set (db_candidates d))) (\<lambda>_.
       and_then (constraint ''candidate_claims_claim_id_fkey'' (\<lambda>d. c \<in> cr_ID ` set (db_claims d))) (\<lambda>_.
       write_db (\<lambda>d. d\<lparr>db_evidence := db_evidence d @
         [\<lparr>er_CandidateID = k, er_ClaimID = c, er_Contribution = ev_Contribution ev\<rparr>]\<rparr>))))))"

definition insert_position :: "string \<Rightarrow> string \<Rightarrow> time \<Rightarrow> candidate_position \<Rightarrow> ('x world_scheme, unit) act" where
  "insert_position run_id strategy_id as_of p =
     and_then (wrapping ''insert candidate %s: %w'' [AS (cp_Symbol p)]
       (pg_exec (insert_candidate_stmt run_id strategy_id as_of p))) (\<lambda>k.
     for_each (\<lambda>ev. wrapping ''attribute candidate %s to claim %s: %w'' [AS (cp_Symbol p), AS (ev_ClaimID ev)]
       (pg_exec (insert_evidence_stmt k ev))) (cp_Evidence p))"

definition insertCandidates :: "string \<Rightarrow> string \<Rightarrow> candidate_set \<Rightarrow> ('x world_scheme, unit) act" where
  "insertCandidates run_id strategy_id candidates =
     and_then (wrapping ''clear previous candidates: %w'' [] (pg_exec (delete_candidates_stmt run_id))) (\<lambda>_.
     for_each (insert_position run_id strategy_id (cs_AsOf candidates)) (cs_Positions candidates))"

text \<open>The \<open>UPDATE\<close> that finds no row to complete is told apart from one that fails.\<close>

definition complete_run :: "string \<Rightarrow> backtest_result \<Rightarrow> string \<Rightarrow> ('x world_scheme, string) act" where
  "complete_run i result artifact_key =
     attempt (pg_exec (complete_run_stmt i (or_empty_object (res_Summary result)) artifact_key
         (res_ResultChecksum result) (res_EngineVersion result)))
       (\<lambda>r. case r of
          Inl e \<Rightarrow>
            if errors_is e no_rows then fail (Errorf ''complete backtest: run is not in progress'' [])
            else fail (Errorf ''complete backtest: %w'' [AW e])
        | Inr strategy_id \<Rightarrow> ok strategy_id)"

definition CompleteBacktest :: "string \<Rightarrow> backtest_result \<Rightarrow> string \<Rightarrow> ('x world_scheme, unit) act" where
  "CompleteBacktest i result artifact_key =
     (case candidate_set_validate (res_Candidates result) of
        Some err \<Rightarrow> fail (Errorf ''complete backtest: %w'' [AW err])
      | None \<Rightarrow>
          transaction ''begin complete backtest transaction: %w''
            (and_then (complete_run i result artifact_key) (\<lambda>strategy_id.
             and_then (insertCandidates i strategy_id (res_Candidates result)) (\<lambda>_.
             ok (''commit complete backtest: %w'', ())))))"

section \<open>The statements keep the discipline\<close>

lemma new_run_step:
  assumes "run_ID row \<notin> run_ID ` set (db_runs d)" and "run_StrategyID row \<in> st_ID ` set (db_strategies d)"
    and "run_MarketDataSnapshotID row \<in> snap_ID ` set (db_snapshots d)" and "run_row_ok row"
  shows "store_step d (d\<lparr>db_next := n, db_runs := db_runs d @ [row]\<rparr>)"
  unfolding store_step_def
proof (intro impI conjI)
  let ?d = "d\<lparr>db_next := n, db_runs := db_runs d @ [row]\<rparr>"
  assume ok: "schema_ok d"
  have jobs: "jobs_ok ?d" using ok by (simp add: schema_ok_def jobs_ok_def)
  have "keys_ok ?d" using ok assms by (simp add: schema_ok_def keys_ok_def)
  moreover have "refs_ok ?d" using ok assms unfolding schema_ok_def refs_ok_def by auto
  moreover have "checks_ok ?d" using ok assms by (simp add: schema_ok_def checks_ok_def)
  ultimately show "schema_ok ?d"
    using ok jobs by (simp add: schema_ok_def versions_ok_def uuids_ok_def)
  show "grows d ?d" by (simp add: grows_def cited_kept_same jobs_evolve_same rows_extend_append)
qed

lemma insert_run_store [effects]: "keeps store_step (insert_run_stmt input p)"
  unfolding keeps_def
  by (auto simp: insert_run_stmt_def act_simps Let_def same_tables_def run_row_ok_def run_statuses_def
      split: sum.split intro!: new_run_step intro: store_step_same)

lemma CreateBacktest_store [effects]: "keeps (on_db store_step) (CreateBacktestWithRunJob input)"
  unfolding CreateBacktestWithRunJob_def
  by (auto split: option.split intro!: store_rules intro: effects)

lemma GetBacktestRun_store [effects]: "keeps (on_db store_step) (GetBacktestRun i)"
  unfolding GetBacktestRun_def run_by_id_stmt_def
  by (intro effects store_rules store.keeps_and_then store.keeps_convert store.keeps_read_db)

text \<open>A run is rewritten in place, keeping what identifies it.\<close>

lemma update_runs_step:
  assumes "\<And>r. r \<in> set (db_runs d) \<Longrightarrow> p r \<Longrightarrow> same_run r (f r) \<and> (run_row_ok r \<longrightarrow> run_row_ok (f r))"
  shows "store_step d (d\<lparr>db_runs := update_where p f (db_runs d)\<rparr>)"
  unfolding store_step_def
proof (intro impI conjI)
  let ?d = "d\<lparr>db_runs := update_where p f (db_runs d)\<rparr>"
  assume ok: "schema_ok d"
  have jobs: "jobs_ok ?d" using ok by (simp add: schema_ok_def jobs_ok_def)
  have same: "map g (update_where p f (db_runs d)) = map g (db_runs d)"
    if "\<And>a b. same_run a b \<Longrightarrow> g b = g a" for g :: "backtest_run \<Rightarrow> string"
    using assms that by (simp add: update_where_def)
  have runs: "map run_ID (db_runs ?d) = map run_ID (db_runs d)"
    "map run_StrategyID (db_runs ?d) = map run_StrategyID (db_runs d)"
    "map run_MarketDataSnapshotID (db_runs ?d) = map run_MarketDataSnapshotID (db_runs d)"
    by (simp, rule same, simp add: same_run_def)+
  have imgs: "run_ID ` set (db_runs ?d) = run_ID ` set (db_runs d)"
    "run_StrategyID ` set (db_runs ?d) = run_StrategyID ` set (db_runs d)"
    "run_MarketDataSnapshotID ` set (db_runs ?d) = run_MarketDataSnapshotID ` set (db_runs d)"
    by (metis list.set_map runs)+
  have done_runs: "(\<lambda>r. (run_ID r, run_StrategyID r)) ` {r \<in> set (db_runs d). run_ResultChecksum r \<noteq> None}
      \<subseteq> (\<lambda>r. (run_ID r, run_StrategyID r)) ` {r \<in> set (db_runs ?d). run_ResultChecksum r \<noteq> None}"
  proof (rule image_subsetI)
    fix r assume r: "r \<in> {r \<in> set (db_runs d). run_ResultChecksum r \<noteq> None}"
    let ?r = "if p r then f r else r"
    have "?r \<in> {r \<in> set (db_runs ?d). run_ResultChecksum r \<noteq> None}"
      "(run_ID r, run_StrategyID r) = (run_ID ?r, run_StrategyID ?r)"
      using r assms [of r] by (auto simp: update_where_def same_run_def)
    then show "(run_ID r, run_StrategyID r) \<in> (\<lambda>r. (run_ID r, run_StrategyID r))
        ` {r \<in> set (db_runs ?d). run_ResultChecksum r \<noteq> None}"
      by (rule rev_image_eqI)
  qed
  have "keys_ok ?d" using ok runs by (simp add: schema_ok_def keys_ok_def)
  moreover have "refs_ok ?d"
    using ok imgs subset_trans [OF _ done_runs] by (simp add: schema_ok_def refs_ok_def)
  moreover have "\<forall>r \<in> set (db_runs ?d). run_row_ok r"
    using ok assms by (auto simp: schema_ok_def checks_ok_def set_update_where)
  then have "checks_ok ?d" using ok by (simp add: schema_ok_def checks_ok_def)
  ultimately show "schema_ok ?d"
    using ok jobs by (simp add: schema_ok_def versions_ok_def uuids_ok_def)
  show "grows d ?d" using assms
    by (simp add: grows_def cited_kept_same jobs_evolve_same rows_extend_update)
qed

lemma run_status_store [effects]:
  assumes "status \<noteq> ''completed''"
  shows "keeps store_step (run_status_stmt i status)"
proof -
  have "store_step d (d\<lparr>db_runs := update_where p (\<lambda>r. r\<lparr>run_Status := status\<rparr>) (db_runs d)\<rparr>)"
    if "status \<in> set run_statuses" for p d
    using that assms by (intro update_runs_step) (simp add: same_run_def run_row_ok_def)
  then show ?thesis
    by (simp add: keeps_def run_status_stmt_def act_simps store.R_refl split: sum.split)
qed

lemma SetBacktestStatus_store [effects]:
  "status \<noteq> ''completed'' \<Longrightarrow> keeps (on_db store_step) (SetBacktestStatus i status)"
  unfolding SetBacktestStatus_def by (auto intro!: store_rules effects)

lemma finished_run_store [effects]: "keeps store_step (complete_run_stmt i s k c e)"
proof -
  have "store_step d (d\<lparr>db_runs := update_where p (finished_row s k c e n) (db_runs d)\<rparr>)" for p s k c e n d
    by (rule update_runs_step) (simp add: finished_row_def same_run_def run_row_ok_def run_statuses_def)
  then show ?thesis
    by (simp add: keeps_def complete_run_stmt_def act_simps one_row_def store.R_refl
        split: sum.split option.split)
qed

lemma complete_run_store [effects]: "keeps (on_db store_step) (complete_run i result key)"
  unfolding complete_run_def by (auto intro!: store_rules effects split: sum.split)

lemma delete_candidates_store [effects]: "keeps store_step (delete_candidates_stmt i)"
proof -
  have "store_step d (d\<lparr>db_candidates := filter (\<lambda>c. cnd_RunID c \<noteq> u) (db_candidates d),
      db_evidence := filter (\<lambda>e. er_CandidateID e \<notin> cnd_ID ` {c \<in> set (db_candidates d). cnd_RunID c = u}) (db_evidence d)\<rparr>)"
    (is "store_step d ?d") for u d
    unfolding store_step_def
  proof (intro impI conjI)
    assume ok: "schema_ok d"
    have jobs: "jobs_ok ?d" using ok by (simp add: schema_ok_def jobs_ok_def)
    have "keys_ok ?d" using ok unfolding schema_ok_def keys_ok_def by (simp add: distinct_map_filter)
    moreover have "er_CandidateID ` set (db_evidence ?d) \<subseteq> cnd_ID ` set (db_candidates ?d)"
      using ok by (force simp: schema_ok_def refs_ok_def)
    moreover have "er_ClaimID ` set (db_evidence ?d) \<subseteq> er_ClaimID ` set (db_evidence d)"
      "(\<lambda>c. (cnd_RunID c, cnd_StrategyID c)) ` set (db_candidates ?d)
        \<subseteq> (\<lambda>c. (cnd_RunID c, cnd_StrategyID c)) ` set (db_candidates d)" by auto
    ultimately show "schema_ok ?d" using ok jobs
      unfolding schema_ok_def refs_ok_def by (simp add: checks_ok_def versions_ok_def uuids_ok_def subset_trans)
    show "grows d ?d" by (simp add: grows_def cited_kept_same jobs_evolve_same)
  qed
  then show ?thesis
    by (simp add: keeps_def delete_candidates_stmt_def act_simps store.R_refl split: sum.split)
qed

section \<open>A ranking stands under a proven run\<close>

text \<open>
  Candidates may only be written for a run whose result is recorded, under that run's strategy. The
  statements that write them keep the store's discipline as long as this holds, and keep it.
\<close>

definition proven_runs :: "db \<Rightarrow> (string \<times> string) set" where
  "proven_runs d = (\<lambda>r. (run_ID r, run_StrategyID r)) ` {r \<in> set (db_runs d). run_ResultChecksum r \<noteq> None}"

definition ranking_step :: "string \<Rightarrow> string \<Rightarrow> db \<Rightarrow> db \<Rightarrow> bool" where
  "ranking_step i s d d' \<longleftrightarrow>
     ((\<forall>u v. uuid_in i = Inr u \<longrightarrow> uuid_in s = Inr v \<longrightarrow> (u, v) \<in> proven_runs d) \<longrightarrow>
        store_step d d' \<and> db_runs d' = db_runs d)"

lemma ranking_preorder: "db_preorder (ranking_step i s)"
proof
  show "ranking_step i s w w" for w by (simp add: ranking_step_def store.R_refl)
  fix a b c assume ab: "ranking_step i s a b" and bc: "ranking_step i s b c"
  show "ranking_step i s a c" unfolding ranking_step_def
  proof
    assume a: "\<forall>u v. uuid_in i = Inr u \<longrightarrow> uuid_in s = Inr v \<longrightarrow> (u, v) \<in> proven_runs a"
    then have 1: "store_step a b" "db_runs b = db_runs a" using ab by (simp_all add: ranking_step_def)
    then have "proven_runs b = proven_runs a" by (simp add: proven_runs_def)
    then have "store_step b c" "db_runs c = db_runs b" using bc a by (simp_all add: ranking_step_def)
    then show "store_step a c \<and> db_runs c = db_runs a" using 1 store.R_trans by simp
  qed
qed

interpretation ranking: db_preorder "ranking_step i s" for i s
  by (rule ranking_preorder)

interpretation ranking_world: state_preorder "on_db (ranking_step i s)" for i s
  by (rule state_preorder_on_db) (rule ranking.state_preorder_axioms)

lemma ranking_stepI: "(\<forall>u v. uuid_in i = Inr u \<longrightarrow> uuid_in s = Inr v \<longrightarrow> (u, v) \<in> proven_runs d) \<longrightarrow>
    store_step d d' \<and> db_runs d' = db_runs d \<Longrightarrow> ranking_step i s d d'"
  by (simp add: ranking_step_def)

lemma new_candidate_step:
  assumes "cnd_ID row \<notin> cnd_ID ` set (db_candidates d)" and "cand_row_ok row"
    and "(cnd_RunID row, cnd_Symbol row) \<notin> (\<lambda>c. (cnd_RunID c, cnd_Symbol c)) ` set (db_candidates d)"
    and "(cnd_RunID row, cnd_Rank row) \<notin> (\<lambda>c. (cnd_RunID c, cnd_Rank c)) ` set (db_candidates d)"
    and "(cnd_RunID row, cnd_StrategyID row) \<in> proven_runs d" and "\<exists>k. cnd_ID row = db_uuid d k"
  shows "store_step d (d\<lparr>db_next := n, db_candidates := db_candidates d @ [row]\<rparr>)"
  unfolding store_step_def
proof (intro impI conjI)
  let ?d = "d\<lparr>db_next := n, db_candidates := db_candidates d @ [row]\<rparr>"
  assume ok: "schema_ok d"
  have jobs: "jobs_ok ?d" using ok by (simp add: schema_ok_def jobs_ok_def)
  have "keys_ok ?d" using ok assms by (simp add: schema_ok_def keys_ok_def)
  moreover have "refs_ok ?d" using ok assms unfolding schema_ok_def refs_ok_def proven_runs_def by auto
  moreover have "checks_ok ?d" using ok assms by (simp add: schema_ok_def checks_ok_def)
  moreover have "uuids_ok ?d" using ok assms(6) by (auto simp: schema_ok_def uuids_ok_def)
  ultimately show "schema_ok ?d" using ok jobs by (simp add: schema_ok_def versions_ok_def)
  show "grows d ?d" by (simp add: grows_def cited_kept_same jobs_evolve_same)
qed

lemma insert_candidate_ranking: "keeps (ranking_step i s) (insert_candidate_stmt i s as_of p)"
  unfolding keeps_def
proof (intro allI ranking_stepI impI)
  fix d
  assume proven: "\<forall>u v. uuid_in i = Inr u \<longrightarrow> uuid_in s = Inr v \<longrightarrow> (u, v) \<in> proven_runs d"
  show "store_step d (snd (insert_candidate_stmt i s as_of p d))
      \<and> db_runs (snd (insert_candidate_stmt i s as_of p d)) = db_runs d"
    using proven by (auto simp: insert_candidate_stmt_def act_simps same_tables_def cand_row_ok_def
      split: sum.split intro!: new_candidate_step intro: store_step_same)
qed

lemma new_evidence_step:
  assumes "(k, c) \<notin> (\<lambda>e. (er_CandidateID e, er_ClaimID e)) ` set (db_evidence d)"
    and "k \<in> cnd_ID ` set (db_candidates d)" and "c \<in> cr_ID ` set (db_claims d)"
  shows "store_step d (d\<lparr>db_evidence := db_evidence d @
      [\<lparr>er_CandidateID = k, er_ClaimID = c, er_Contribution = x\<rparr>]\<rparr>)"
  unfolding store_step_def
proof (intro impI conjI)
  let ?d = "d\<lparr>db_evidence := db_evidence d @ [\<lparr>er_CandidateID = k, er_ClaimID = c, er_Contribution = x\<rparr>]\<rparr>"
  assume ok: "schema_ok d"
  have jobs: "jobs_ok ?d" using ok by (simp add: schema_ok_def jobs_ok_def)
  have "keys_ok ?d" using ok assms by (simp add: schema_ok_def keys_ok_def)
  moreover have "refs_ok ?d" using ok assms unfolding schema_ok_def refs_ok_def by simp
  ultimately show "schema_ok ?d"
    using ok jobs by (simp add: schema_ok_def checks_ok_def versions_ok_def uuids_ok_def)
  show "grows d ?d" by (simp add: grows_def cited_kept_same jobs_evolve_same)
qed

lemma insert_evidence_ranking: "keeps (ranking_step i s) (insert_evidence_stmt k ev)"
  unfolding keeps_def
proof (intro allI ranking_stepI impI)
  fix d
  show "store_step d (snd (insert_evidence_stmt k ev d)) \<and> db_runs (snd (insert_evidence_stmt k ev d)) = db_runs d"
    by (auto simp: insert_evidence_stmt_def act_simps store.R_refl split: sum.split intro!: new_evidence_step)
qed

lemma delete_candidates_ranking: "keeps (ranking_step i s) (delete_candidates_stmt i)"
  using delete_candidates_store [of i]
  by (simp add: keeps_def ranking_step_def) (simp add: delete_candidates_stmt_def act_simps split: sum.split)

lemma insertCandidates_ranking: "keeps (on_db (ranking_step i s)) (insertCandidates i s cs)"
  unfolding insertCandidates_def insert_position_def
  by (intro ranking_world.keeps_intros ranking.keeps_pg_exec
      delete_candidates_ranking insert_candidate_ranking insert_evidence_ranking)

lemma complete_run_stmt_Inr:
  assumes "complete_run_stmt i s k c e d = (Inr x, d')"
  shows "\<exists>r \<in> set (db_runs d). \<exists>stored key sum engine. uuid_in i = Inr (run_ID r) \<and> in_progress r \<and> x = run_StrategyID r
    \<and> jsonb_in s = Inr stored \<and> text_in k = Inr key \<and> char64_in c = Inr sum \<and> text_in e = Inr engine
    \<and> d' = d\<lparr>db_runs := update_where (\<lambda>q. run_ID q = run_ID r \<and> in_progress q)
        (finished_row stored key sum engine (db_now d)) (db_runs d)\<rparr>"
  using assms by (fastforce simp: complete_run_stmt_def act_simps one_row_def find_Some_iff
      split: sum.splits option.splits)

lemma complete_run_Inr:
  assumes "complete_run i result key w = (Inr x, w')"
  shows "complete_run_stmt i (or_empty_object (res_Summary result)) key (res_ResultChecksum result)
    (res_EngineVersion result) (w_db w) = (Inr x, w_db w')"
proof -
  have "pg_exec (complete_run_stmt i (or_empty_object (res_Summary result)) key (res_ResultChecksum result)
    (res_EngineVersion result)) w = (Inr x, w')"
    using assms by (auto simp: complete_run_def attempt_def ok_def fail_def split: prod.splits sum.splits if_splits)
  then show ?thesis by (auto dest: pg_exec_Inr)
qed

text \<open>After the run's row is completed the ranking may be written.\<close>

lemma completed_run_proven:
  assumes "complete_run i result key w = (Inr x, w')" and "schema_ok (w_db w)"
  shows "uuid_in x = Inr x \<and> (\<forall>u. uuid_in i = Inr u \<longrightarrow> (u, x) \<in> proven_runs (w_db w'))"
proof -
  let ?d = "w_db w"
  from complete_run_stmt_Inr [OF complete_run_Inr [OF assms(1)]] obtain r stored k c e where
    r: "r \<in> set (db_runs ?d)" "uuid_in i = Inr (run_ID r)" "in_progress r" "x = run_StrategyID r"
    and w': "w_db w' = ?d\<lparr>db_runs := update_where (\<lambda>q. run_ID q = run_ID r \<and> in_progress q)
        (finished_row stored k c e (db_now ?d)) (db_runs ?d)\<rparr>"
    by blast
  have "x \<in> st_ID ` set (db_strategies ?d)"
    using assms(2) r(1,4) by (auto simp: schema_ok_def refs_ok_def)
  then have "uuid_in x = Inr x" using assms(2) by (auto simp: schema_ok_def uuids_ok_def)
  moreover have "finished_row stored k c e (db_now ?d) r \<in> set (db_runs (w_db w'))"
    using r by (auto simp: w' set_update_where)
  then have "(run_ID r, x) \<in> proven_runs (w_db w')"
    unfolding proven_runs_def
    by (intro image_eqI [of _ _ "finished_row stored k c e (db_now ?d) r"]) (simp_all add: finished_row_def r(4))
  ultimately show ?thesis using r(2) by simp
qed

lemma CompleteBacktest_store [effects]:
  "keeps (on_db store_step) (CompleteBacktest i result key :: ('a world_scheme, unit) act)"
proof -
  have "store_step (w_db w) (w_db (snd (and_then (complete_run i result key) (\<lambda>s.
      and_then (insertCandidates i s cs) (\<lambda>_. ok (m, ()))) w)))"
    (is "store_step _ (w_db (snd (?body w)))") for cs and m :: string and w :: "'a world_scheme"
  proof -
    obtain r1 w1 where 1: "complete_run i result key w = (r1, w1)" by fastforce
    have "keeps (on_db store_step) (complete_run i result key)" by (rule effects)
    then have s1: "store_step (w_db w) (w_db w1)" using 1 by (auto simp: on_db_def dest: keepsD)
    show "store_step (w_db w) (w_db (snd (?body w)))"
    proof (cases r1)
      case (Inl e)
      then show ?thesis using 1 s1 by (simp add: and_then_def)
    next
      case (Inr x)
      obtain r2 w2 where 2: "insertCandidates i x cs w1 = (r2, w2)" by fastforce
      from keepsD [OF insertCandidates_ranking 2] have "ranking_step i x (w_db w1) (w_db w2)"
        by (simp add: on_db_def)
      moreover have "schema_ok (w_db w) \<Longrightarrow> \<forall>u v. uuid_in i = Inr u \<longrightarrow> uuid_in x = Inr v \<longrightarrow> (u, v) \<in> proven_runs (w_db w1)"
        using completed_run_proven [of i result key w x w1] 1 Inr by simp
      ultimately have "schema_ok (w_db w) \<Longrightarrow> store_step (w_db w1) (w_db w2)"
        unfolding ranking_step_def by blast
      then have "store_step (w_db w) (w_db w2)"
        using s1 store.R_trans store_step_def by metis
      then show ?thesis using 1 2 Inr by (cases r2) (auto simp: and_then_def ok_def)
    qed
  qed
  then have "keeps (on_db store_step) (and_then (complete_run i result key) (\<lambda>s.
      and_then (insertCandidates i s cs) (\<lambda>_. ok (m, ()))) :: ('a world_scheme, string \<times> unit) act)"
    for cs and m :: string
    by (simp add: keeps_def on_db_def)
  then show ?thesis unfolding CompleteBacktest_def
    by (auto split: option.split intro!: store.keeps_transaction store_world.keeps_fail)
qed

section \<open>What completing a run achieves\<close>

lemma delete_candidates_Inr:
  assumes "delete_candidates_stmt i d = (Inr x, d')" and "uuid_in i = Inr u"
  shows "db_runs d' = db_runs d \<and> db_uuid d' = db_uuid d
    \<and> db_candidates d' = filter (\<lambda>c. cnd_RunID c \<noteq> u) (db_candidates d)
    \<and> db_evidence d' = filter (\<lambda>e. er_CandidateID e \<notin> cnd_ID ` {c \<in> set (db_candidates d). cnd_RunID c = u}) (db_evidence d)"
  using assms by (auto simp: delete_candidates_stmt_def act_simps)

definition evidence_of :: "db \<Rightarrow> string \<Rightarrow> string set" where
  "evidence_of d k = er_ClaimID ` {e \<in> set (db_evidence d). er_CandidateID e = k}"

definition attributed :: "candidate_evidence list \<Rightarrow> string set" where
  "attributed evs = {c. Inr c \<in> uuid_in ` ev_ClaimID ` set evs}"

text \<open>A position as it is stored, with the claims attributed to it.\<close>

definition candidate_stored :: "db \<Rightarrow> string \<Rightarrow> time \<Rightarrow> candidate_position \<Rightarrow> cand_row \<Rightarrow> bool" where
  "candidate_stored d u t p row \<longleftrightarrow>
     cnd_RunID row = u \<and> cnd_Symbol row = cp_Symbol p \<and> cnd_Rank row = cp_Rank p
     \<and> cnd_Weight row = cp_Weight p \<and> cnd_Score row = cp_Score p \<and> cnd_Momentum row = cp_Momentum p
     \<and> cnd_MomentumRank row = Some (cp_MomentumRank p) \<and> cnd_ClaimSupport row = cp_ClaimSupport p
     \<and> cnd_AsOf row = date_of_time t \<and> evidence_of d (cnd_ID row) = attributed (cp_Evidence p)"

text \<open>What the loops rely on: evidence is under candidates, and new ids are canonical.\<close>

definition evidence_ready :: "db \<Rightarrow> bool" where
  "evidence_ready d \<longleftrightarrow> er_CandidateID ` set (db_evidence d) \<subseteq> cnd_ID ` set (db_candidates d)
     \<and> (\<forall>n. uuid_in (db_uuid d n) = Inr (db_uuid d n))"

lemma attributed_one: "uuid_in (ev_ClaimID ev) = Inr c \<Longrightarrow> attributed [ev] = {c}"
  by (auto simp: attributed_def)

lemma insert_evidence_cases:
  assumes "insert_evidence_stmt k ev d = (Inr x, d')" and "uuid_in k = Inr k"
  obtains (known) c where "uuid_in (ev_ClaimID ev) = Inr c" "d' = d"
      "(k, c) \<in> (\<lambda>e. (er_CandidateID e, er_ClaimID e)) ` set (db_evidence d)"
  | (stored) c where "uuid_in (ev_ClaimID ev) = Inr c" "k \<in> cnd_ID ` set (db_candidates d)"
      "d' = d\<lparr>db_evidence := db_evidence d @ [\<lparr>er_CandidateID = k, er_ClaimID = c, er_Contribution = ev_Contribution ev\<rparr>]\<rparr>"
proof (cases "uuid_in (ev_ClaimID ev)")
  case (Inl e)
  then show ?thesis using assms by (simp add: insert_evidence_stmt_def act_simps)
next
  case (Inr c)
  show ?thesis
  proof (cases "(k, c) \<in> (\<lambda>e. (er_CandidateID e, er_ClaimID e)) ` set (db_evidence d)")
    case True
    then show ?thesis using assms Inr by (intro known) (simp_all add: insert_evidence_stmt_def act_simps)
  next
    case False
    then have k: "k \<in> cnd_ID ` set (db_candidates d)" and run: "insert_evidence_stmt k ev d = (Inr (), d\<lparr>db_evidence :=
        db_evidence d @ [\<lparr>er_CandidateID = k, er_ClaimID = c, er_Contribution = ev_Contribution ev\<rparr>]\<rparr>)"
      using assms Inr by (simp_all add: insert_evidence_stmt_def act_simps split: if_splits)
    have "d' = snd (insert_evidence_stmt k ev d)" using assms(1) by simp
    with k show ?thesis by (intro stored [OF Inr]) (simp_all only: run snd_conv)
  qed
qed

lemma evidence_of_append: "db_evidence d' = db_evidence d @ [e] \<Longrightarrow>
    evidence_of d' j = evidence_of d j \<union> (if j = er_CandidateID e then {er_ClaimID e} else {})"
  by (auto simp: evidence_of_def)

lemma insert_evidence_Inr:
  assumes "insert_evidence_stmt k ev d = (Inr x, d')" and "uuid_in k = Inr k"
  shows "db_candidates d' = db_candidates d \<and> db_runs d' = db_runs d \<and> (evidence_ready d \<longrightarrow> evidence_ready d')
    \<and> (\<forall>j. evidence_of d' j = evidence_of d j \<union> (if j = k then attributed [ev] else {}))"
  using assms
proof (cases rule: insert_evidence_cases)
  case (known c)
  then have "c \<in> evidence_of d k" by (force simp: evidence_of_def)
  then show ?thesis using known(2) attributed_one [OF known(1)] by auto
next
  case (stored c)
  have "db_evidence d' = db_evidence d @ [\<lparr>er_CandidateID = k, er_ClaimID = c, er_Contribution = ev_Contribution ev\<rparr>]"
    by (simp add: stored(3))
  from evidence_of_append [OF this]
  have "evidence_of d' j = evidence_of d j \<union> (if j = k then {c} else {})" for j by simp
  then show ?thesis using stored attributed_one [OF stored(1)] by (simp add: evidence_ready_def)
qed

lemma insert_evidences_Inr:
  assumes "for_each (\<lambda>ev. wrapping m (as ev) (pg_exec (insert_evidence_stmt k ev))) evs w = (Inr x, w')"
    and "uuid_in k = Inr k"
  shows "db_candidates (w_db w') = db_candidates (w_db w) \<and> db_runs (w_db w') = db_runs (w_db w)
    \<and> (evidence_ready (w_db w) \<longrightarrow> evidence_ready (w_db w'))
    \<and> (\<forall>j. evidence_of (w_db w') j = evidence_of (w_db w) j \<union> (if j = k then attributed evs else {}))"
  using assms(1)
proof (induction evs arbitrary: w)
  case Nil
  then show ?case by (simp add: ok_def attributed_def)
next
  case (Cons ev evs)
  then obtain y w1 where first: "pg_exec (insert_evidence_stmt k ev) w = (Inr y, w1)"
    and rest: "for_each (\<lambda>ev. wrapping m (as ev) (pg_exec (insert_evidence_stmt k ev))) evs w1 = (Inr x, w')"
    by (auto simp: and_then_Inr wrapping_Inr)
  have "insert_evidence_stmt k ev (w_db w) = (Inr y, w_db w1)" using pg_exec_Inr [OF first] by auto
  note one = insert_evidence_Inr [OF this assms(2)]
  have "attributed (ev # evs) = attributed [ev] \<union> attributed evs" by (auto simp: attributed_def)
  then show ?case using one Cons.IH [OF rest] by auto
qed

lemma insert_candidate_Inr:
  assumes "insert_candidate_stmt i s t p d = (Inr k, d')" and "uuid_in i = Inr u"
  shows "k = db_uuid d (db_next d) \<and> k \<notin> cnd_ID ` set (db_candidates d) \<and> db_runs d' = db_runs d
    \<and> db_evidence d' = db_evidence d \<and> db_uuid d' = db_uuid d
    \<and> (\<exists>row. db_candidates d' = db_candidates d @ [row] \<and> cnd_ID row = k
         \<and> (\<forall>e. evidence_of e k = attributed (cp_Evidence p) \<longrightarrow> candidate_stored e u t p row))"
  using assms
  by (auto simp: insert_candidate_stmt_def act_simps candidate_stored_def split: sum.splits if_splits
      dest!: text_in_Inr int4_in_Inr)

lemma insert_position_Inr:
  assumes "insert_position i s t p w = (Inr x, w')" and "uuid_in i = Inr u" and "evidence_ready (w_db w)"
  shows "\<exists>row. db_candidates (w_db w') = db_candidates (w_db w) @ [row] \<and> candidate_stored (w_db w') u t p row
    \<and> cnd_ID row \<notin> cnd_ID ` set (db_candidates (w_db w)) \<and> evidence_ready (w_db w')
    \<and> db_runs (w_db w') = db_runs (w_db w)
    \<and> (\<forall>j \<in> cnd_ID ` set (db_candidates (w_db w)). evidence_of (w_db w') j = evidence_of (w_db w) j)
    \<and> (\<forall>e. evidence_of e (cnd_ID row) = evidence_of (w_db w') (cnd_ID row) \<longrightarrow> candidate_stored e u t p row)"
proof -
  from assms(1) obtain k w1 where k: "pg_exec (insert_candidate_stmt i s t p) w = (Inr k, w1)"
    and evs: "for_each (\<lambda>ev. wrapping ''attribute candidate %s to claim %s: %w'' [AS (cp_Symbol p), AS (ev_ClaimID ev)]
       (pg_exec (insert_evidence_stmt k ev))) (cp_Evidence p) w1 = (Inr x, w')"
    by (auto simp: insert_position_def and_then_Inr wrapping_Inr)
  have "insert_candidate_stmt i s t p (w_db w) = (Inr k, w_db w1)" using pg_exec_Inr [OF k] by auto
  note new = insert_candidate_Inr [OF this assms(2)]
  then obtain row where row: "db_candidates (w_db w1) = db_candidates (w_db w) @ [row]" "cnd_ID row = k"
    "\<And>e. evidence_of e k = attributed (cp_Evidence p) \<Longrightarrow> candidate_stored e u t p row" by blast
  have "uuid_in k = Inr k" using new assms(3) by (simp add: evidence_ready_def)
  note attr = insert_evidences_Inr [OF evs this]
  have ready: "evidence_ready (w_db w1)" using assms(3) new row(1) by (auto simp: evidence_ready_def)
  have same: "evidence_of (w_db w1) j = evidence_of (w_db w) j" for j using new by (simp add: evidence_of_def)
  have "k \<notin> er_CandidateID ` set (db_evidence (w_db w))"
    using assms(3) new by (meson evidence_ready_def subsetD)
  then have "evidence_of (w_db w) k = {}" by (auto simp: evidence_of_def)
  then have ev: "evidence_of (w_db w') k = attributed (cp_Evidence p)" using attr same by simp
  have "evidence_of (w_db w') j = evidence_of (w_db w) j" if "j \<in> cnd_ID ` set (db_candidates (w_db w))" for j
  proof -
    have "j \<noteq> k" using new that by metis
    then show ?thesis using attr same by simp
  qed
  moreover have "candidate_stored e u t p row" if "evidence_of e (cnd_ID row) = evidence_of (w_db w') (cnd_ID row)" for e
    using row(2,3) ev that by simp
  moreover have "db_candidates (w_db w') = db_candidates (w_db w) @ [row]" using attr row(1) by simp
  moreover have "evidence_ready (w_db w')" "db_runs (w_db w') = db_runs (w_db w)" using attr ready new by simp_all
  moreover have "cnd_ID row \<notin> cnd_ID ` set (db_candidates (w_db w))" unfolding row(2) using new by (elim conjE)
  ultimately show ?thesis by (intro exI [of _ row]) simp
qed

lemma insert_positions_Inr:
  assumes "for_each (insert_position i s t) ps w = (Inr x, w')" and "uuid_in i = Inr u"
    and "evidence_ready (w_db w)"
  shows "\<exists>new. db_candidates (w_db w') = db_candidates (w_db w) @ new
    \<and> list_all2 (candidate_stored (w_db w') u t) ps new \<and> db_runs (w_db w') = db_runs (w_db w)
    \<and> (\<forall>j \<in> cnd_ID ` set (db_candidates (w_db w)). evidence_of (w_db w') j = evidence_of (w_db w) j)"
  using assms(1,3)
proof (induction ps arbitrary: w)
  case Nil
  then show ?case by (simp add: ok_def)
next
  case (Cons p ps)
  then obtain y w1 where "insert_position i s t p w = (Inr y, w1)"
    and rest: "for_each (insert_position i s t) ps w1 = (Inr x, w')"
    by (auto simp: and_then_Inr)
  from insert_position_Inr [OF this(1) assms(2) Cons.prems(2)] obtain row where
    row: "db_candidates (w_db w1) = db_candidates (w_db w) @ [row]" "evidence_ready (w_db w1)"
      "db_runs (w_db w1) = db_runs (w_db w)"
      "\<forall>j \<in> cnd_ID ` set (db_candidates (w_db w)). evidence_of (w_db w1) j = evidence_of (w_db w) j"
    and stored: "\<And>e. evidence_of e (cnd_ID row) = evidence_of (w_db w1) (cnd_ID row) \<Longrightarrow> candidate_stored e u t p row"
    by blast
  from Cons.IH [OF rest row(2)] obtain new where
    new: "db_candidates (w_db w') = db_candidates (w_db w1) @ new" "list_all2 (candidate_stored (w_db w') u t) ps new"
      "db_runs (w_db w') = db_runs (w_db w1)"
      "\<forall>j \<in> cnd_ID ` set (db_candidates (w_db w1)). evidence_of (w_db w') j = evidence_of (w_db w1) j"
    by blast
  have "candidate_stored (w_db w') u t p row" using stored new(4) row(1) by simp
  then show ?case using row new by (intro exI [of _ "row # new"]) simp
qed

lemma completion_effect:
  assumes "complete_run i result key w = (Inr s, v1)"
    and "pg_exec (delete_candidates_stmt i) v1 = (Inr x2, v2)"
    and "for_each (insert_position i s (cs_AsOf (res_Candidates result))) (cs_Positions (res_Candidates result)) v2 = (Inr x3, w2)"
    and "schema_ok (w_db w)"
  shows "\<exists>row \<in> set (db_runs (w_db w)). \<exists>summary checksum. uuid_in i = Inr (run_ID row) \<and> in_progress row
        \<and> jsonb_in (or_empty_object (res_Summary result)) = Inr summary
        \<and> char64_in (res_ResultChecksum result) = Inr checksum
        \<and> db_runs (w_db w2) = map (\<lambda>q. if q = row then finished_row summary key checksum
              (res_EngineVersion result) (db_now (w_db w)) row else q) (db_runs (w_db w))
        \<and> list_all2 (candidate_stored (w_db w2) (run_ID row) (cs_AsOf (res_Candidates result)))
             (cs_Positions (res_Candidates result)) (filter (\<lambda>c. cnd_RunID c = run_ID row) (db_candidates (w_db w2)))
        \<and> filter (\<lambda>c. cnd_RunID c \<noteq> run_ID row) (db_candidates (w_db w2))
            = filter (\<lambda>c. cnd_RunID c \<noteq> run_ID row) (db_candidates (w_db w))"
proof -
  let ?d = "w_db w" and ?t = "cs_AsOf (res_Candidates result)" and ?ps = "cs_Positions (res_Candidates result)"
  from complete_run_stmt_Inr [OF complete_run_Inr [OF assms(1)]] obtain row summary k c e where
    row: "row \<in> set (db_runs ?d)" "uuid_in i = Inr (run_ID row)" "in_progress row"
      "jsonb_in (or_empty_object (res_Summary result)) = Inr summary"
      "text_in key = Inr k" "char64_in (res_ResultChecksum result) = Inr c" "text_in (res_EngineVersion result) = Inr e"
    and v1: "w_db v1 = ?d\<lparr>db_runs := update_where (\<lambda>q. run_ID q = run_ID row \<and> in_progress q)
      (finished_row summary k c e (db_now ?d)) (db_runs ?d)\<rparr>"
    by blast
  let ?u = "run_ID row"
  have "distinct (map run_ID (db_runs ?d))" using assms(4) by (simp add: schema_ok_def keys_ok_def)
  then have only: "run_ID q = ?u \<and> in_progress q \<longleftrightarrow> q = row" if "q \<in> set (db_runs ?d)" for q
    using row(1,3) that by (auto simp: distinct_map dest: inj_onD)
  have runs: "db_runs (w_db v1) = map (\<lambda>q. if q = row then finished_row summary key c
      (res_EngineVersion result) (db_now ?d) row else q) (db_runs ?d)"
    using only row(5,7) by (auto simp: v1 update_where_def dest!: text_in_Inr)
  have del: "delete_candidates_stmt i (w_db v1) = (Inr x2, w_db v2)" using pg_exec_Inr [OF assms(2)] by auto
  have gone: "db_runs (w_db v2) = db_runs (w_db v1)" "db_uuid (w_db v2) = db_uuid ?d"
    "db_candidates (w_db v2) = filter (\<lambda>c. cnd_RunID c \<noteq> ?u) (db_candidates ?d)"
    "db_evidence (w_db v2) = filter (\<lambda>e. er_CandidateID e \<notin> cnd_ID ` {c \<in> set (db_candidates ?d). cnd_RunID c = ?u}) (db_evidence ?d)"
    using delete_candidates_Inr [OF del row(2)] by (simp_all add: v1)
  have "er_CandidateID ` set (db_evidence ?d) \<subseteq> cnd_ID ` set (db_candidates ?d)"
    using assms(4) by (simp add: schema_ok_def refs_ok_def)
  then have "er_CandidateID ` set (db_evidence (w_db v2)) \<subseteq> cnd_ID ` set (db_candidates (w_db v2))"
    unfolding gone(3,4) by force
  then have "evidence_ready (w_db v2)"
    using assms(4) gone(2) by (simp add: evidence_ready_def schema_ok_def uuids_ok_def)
  from insert_positions_Inr [OF assms(3) row(2) this] obtain new where new: "db_candidates (w_db w2) = db_candidates (w_db v2) @ new"
    "list_all2 (candidate_stored (w_db w2) ?u ?t) ?ps new" "db_runs (w_db w2) = db_runs (w_db v2)" by blast
  have "\<forall>c \<in> set new. cnd_RunID c = ?u"
    using new(2) by (auto simp: list_all2_conv_all_nth in_set_conv_nth candidate_stored_def)
  then have "filter (\<lambda>c. cnd_RunID c = ?u) (db_candidates (w_db w2)) = new"
    "filter (\<lambda>c. cnd_RunID c \<noteq> ?u) (db_candidates (w_db w2)) = filter (\<lambda>c. cnd_RunID c \<noteq> ?u) (db_candidates ?d)"
    by (simp_all add: new(1) gone(3) filter_id_conv filter_empty_conv)
  then show ?thesis
    using row new(2,3) gone(1) runs by (intro bexI [OF _ row(1)] exI [of _ summary] exI [of _ c]) simp
qed

lemma complete_backtest_cases:
  assumes "CompleteBacktest i result key w = (r, w')" and "schema_ok (w_db w)"
  shows "((\<exists>e. r = Inl e) \<and> w_db w' = w_db w)
    \<or> (\<exists>row \<in> set (db_runs (w_db w)). \<exists>summary checksum. uuid_in i = Inr (run_ID row) \<and> in_progress row
        \<and> jsonb_in (or_empty_object (res_Summary result)) = Inr summary
        \<and> char64_in (res_ResultChecksum result) = Inr checksum
        \<and> db_runs (w_db w') = map (\<lambda>q. if q = row then finished_row summary key checksum
              (res_EngineVersion result) (db_now (w_db w)) row else q) (db_runs (w_db w))
        \<and> list_all2 (candidate_stored (w_db w') (run_ID row) (cs_AsOf (res_Candidates result)))
             (cs_Positions (res_Candidates result)) (filter (\<lambda>c. cnd_RunID c = run_ID row) (db_candidates (w_db w')))
        \<and> filter (\<lambda>c. cnd_RunID c \<noteq> run_ID row) (db_candidates (w_db w'))
            = filter (\<lambda>c. cnd_RunID c \<noteq> run_ID row) (db_candidates (w_db w)))"
proof (cases "candidate_set_validate (res_Candidates result)")
  case (Some err)
  then show ?thesis using assms(1) by (auto simp: CompleteBacktest_def fail_def)
next
  case None
  from assms(1) [unfolded CompleteBacktest_def None option.case] show ?thesis
  proof (cases rule: transaction_cases)
    case (committed m y w1 w2)
    have w1: "w_db w1 = w_db w" using next_fault_same [OF committed(1)] by simp
    from committed(2) obtain s v1 x2 v2 x3 where
      1: "complete_run i result key w1 = (Inr s, v1)" and
      2: "pg_exec (delete_candidates_stmt i) v1 = (Inr x2, v2)" and
      3: "for_each (insert_position i s (cs_AsOf (res_Candidates result))) (cs_Positions (res_Candidates result)) v2 = (Inr x3, w2)"
      by (auto simp: and_then_Inr wrapping_Inr insertCandidates_def ok_def)
    from completion_effect [OF 1 2 3, unfolded w1] show ?thesis using assms(2) committed(3) by (intro disjI2) simp
  qed simp
qed

text \<open>
  C6 A ranking never exists without the run that proves it. Whatever faults occur, \<open>CompleteBacktest\<close>
  either changes nothing and reports an error, or finds the run queued or running, records its
  summary, artifact, checksum and engine and completes it, and replaces the run's candidates by
  the given positions in their order, each with exactly the claims attributed to it. Candidates of
  other runs, and all other runs, stay. Success is reported only for the second.
\<close>

theorem complete_backtest_atomic:
  assumes "CompleteBacktest i result key w = (r, w')" and "schema_ok (w_db w)"
  shows "((\<exists>e. r = Inl e) \<and> w_db w' = w_db w)
    \<or> (\<exists>row \<in> set (db_runs (w_db w)). \<exists>summary checksum. uuid_in i = Inr (run_ID row) \<and> in_progress row
        \<and> jsonb_in (or_empty_object (res_Summary result)) = Inr summary
        \<and> char64_in (res_ResultChecksum result) = Inr checksum
        \<and> db_runs (w_db w') = map (\<lambda>q. if q = row then finished_row summary key checksum
              (res_EngineVersion result) (db_now (w_db w)) row else q) (db_runs (w_db w))
        \<and> list_all2 (candidate_stored (w_db w') (run_ID row) (cs_AsOf (res_Candidates result)))
             (cs_Positions (res_Candidates result)) (filter (\<lambda>c. cnd_RunID c = run_ID row) (db_candidates (w_db w')))
        \<and> filter (\<lambda>c. cnd_RunID c \<noteq> run_ID row) (db_candidates (w_db w'))
            = filter (\<lambda>c. cnd_RunID c \<noteq> run_ID row) (db_candidates (w_db w)))"
  by (rule complete_backtest_cases [OF assms])

end
