(* ===== verification/CandidateStore.thy ===== *)
theory CandidateStore
  imports BacktestStore
begin

text \<open>
  \<open>internal/store/candidates.go\<close>: the ranked positions of completed runs, with the claims behind them.
\<close>

definition nullable_uuid :: "string \<Rightarrow> string option result" where
  "nullable_uuid value = opt_in uuid_in (if value = [] then None else Some value)"

text \<open>
  \<open>SELECT DISTINCT ON (strategy_id) id ... ORDER BY strategy_id, completed_at DESC NULLS LAST,
  created_at DESC\<close>: the first run of each strategy in this order.
\<close>

definition later_run :: "backtest_run \<Rightarrow> backtest_run \<Rightarrow> bool" where
  "later_run a b \<longleftrightarrow>
     (case (run_CompletedAt a, run_CompletedAt b) of
        (Some x, Some y) \<Rightarrow> y < x \<or> (x = y \<and> run_CreatedAt b < run_CreatedAt a)
      | (Some x, None) \<Rightarrow> True
      | (None, Some y) \<Rightarrow> False
      | (None, None) \<Rightarrow> run_CreatedAt b < run_CreatedAt a)"

fun first_of_each :: "string list \<Rightarrow> backtest_run list \<Rightarrow> backtest_run list" where
  "first_of_each seen [] = []"
| "first_of_each seen (r # rs) =
     (if run_StrategyID r \<in> set seen then first_of_each seen rs
      else r # first_of_each (run_StrategyID r # seen) rs)"

definition eligible_runs :: "string option \<Rightarrow> string option \<Rightarrow> db \<Rightarrow> backtest_run list" where
  "eligible_runs strategy backtest d =
     filter (\<lambda>r. run_Status r = ''completed''
        \<and> (case strategy of None \<Rightarrow> True | Some u \<Rightarrow> run_StrategyID r = u)
        \<and> (case backtest of None \<Rightarrow> True | Some u \<Rightarrow> run_ID r = u)) (db_runs d)"

definition selected_runs :: "string option \<Rightarrow> string option \<Rightarrow> db \<Rightarrow> backtest_run list" where
  "selected_runs strategy backtest d =
     first_of_each [] (sort_slice later_run (eligible_runs strategy backtest d))"

text \<open>A candidate joined with its run and its strategy; \<open>Evidence\<close> starts empty.\<close>

definition listed_candidate :: "cand_row \<Rightarrow> backtest_run \<Rightarrow> strategy \<Rightarrow> candidate" where
  "listed_candidate c r s =
     \<lparr>cand_ID = cnd_ID c, cand_BacktestRunID = cnd_RunID c, cand_StrategyID = cnd_StrategyID c,
      cand_StrategySlug = st_Slug s, cand_StrategyVersion = st_Version s,
      cand_EngineVersion = run_EngineVersion r, cand_ResultChecksum = run_ResultChecksum r,
      cand_AsOf = cnd_AsOf c, cand_Symbol = cnd_Symbol c, cand_Rank = cnd_Rank c,
      cand_Weight = cnd_Weight c, cand_Score = cnd_Score c, cand_Momentum = cnd_Momentum c,
      cand_MomentumRank = cnd_MomentumRank c, cand_ClaimSupport = cnd_ClaimSupport c, cand_Evidence = []\<rparr>"

definition joined_rows :: "backtest_run list \<Rightarrow> db \<Rightarrow> cand_row \<Rightarrow> candidate list" where
  "joined_rows runs d c =
     concat (map (\<lambda>r. map (listed_candidate c r)
         (filter (\<lambda>s. st_ID s = cnd_StrategyID c) (db_strategies d)))
       (filter (\<lambda>r. run_ID r = cnd_RunID c) runs))"

definition joined_candidates :: "backtest_run list \<Rightarrow> db \<Rightarrow> candidate list" where
  "joined_candidates runs d = concat (map (joined_rows runs d) (db_candidates d))"

definition candidate_before :: "db \<Rightarrow> candidate \<Rightarrow> candidate \<Rightarrow> bool" where
  "candidate_before d a b \<longleftrightarrow>
     db_collation d (cand_StrategySlug a) (cand_StrategySlug b)
     \<or> (\<not> db_collation d (cand_StrategySlug b) (cand_StrategySlug a)
        \<and> (cand_StrategyVersion b < cand_StrategyVersion a
           \<or> (cand_StrategyVersion a = cand_StrategyVersion b \<and> cand_Rank a < cand_Rank b)))"

definition list_candidates_stmt :: "candidate_filter \<Rightarrow> candidate list stmt" where
  "list_candidates_stmt f =
     and_then (convert (nullable_uuid (cf_StrategyID f))) (\<lambda>strategy.
     and_then (convert (nullable_uuid (cf_BacktestID f))) (\<lambda>backtest.
     read_db (\<lambda>d. take (nat (cf_Limit f)) (sort_slice (candidate_before d)
       (joined_candidates (selected_runs strategy backtest d) d)))))"

text \<open>The evidence rows of a set of candidates, each with the candidate it is for.\<close>

definition evidence_claims :: "db \<Rightarrow> evidence_row \<Rightarrow> (string \<times> candidate_claim) list" where
  "evidence_claims d e =
     map (\<lambda>c. (er_CandidateID e, \<lparr>cc_Claim = c, cc_Contribution = er_Contribution e\<rparr>))
       (joined_claims d (filter (\<lambda>c. cr_ID c = er_ClaimID e) (db_claims d)))"

definition evidence_stmt :: "string list \<Rightarrow> (string \<times> candidate_claim) list stmt" where
  "evidence_stmt ids =
     and_then (convert (all_in uuid_in ids)) (\<lambda>us.
     read_db (\<lambda>d. sort_slice
       (\<lambda>a b. (fst a, sc_EffectiveAt (cc_Claim (snd a)), sc_ID (cc_Claim (snd a)))
            < (fst b, sc_EffectiveAt (cc_Claim (snd b)), sc_ID (cc_Claim (snd b))))
       (concat (map (evidence_claims d) (filter (\<lambda>e. er_CandidateID e \<in> set us) (db_evidence d))))))"

text \<open>The index from candidate ids to positions; a later candidate with the same id overwrites.\<close>

definition candidate_index :: "candidate list \<Rightarrow> string \<Rightarrow> nat option" where
  "candidate_index cs = map_of (rev (zip (map cand_ID cs) [0..<length cs]))"

fun attach_evidence :: "(string \<Rightarrow> nat option) \<Rightarrow> candidate list \<Rightarrow> (string \<times> candidate_claim) list \<Rightarrow> candidate list" where
  "attach_evidence index cs [] = cs"
| "attach_evidence index cs ((k, ev) # evs) =
     (case index k of
        None \<Rightarrow> attach_evidence index cs evs
      | Some n \<Rightarrow> attach_evidence index (cs[n := (cs ! n)\<lparr>cand_Evidence := cand_Evidence (cs ! n) @ [ev]\<rparr>]) evs)"

definition attachCandidateEvidence :: "candidate list \<Rightarrow> ('x world_scheme, candidate list) act" where
  "attachCandidateEvidence cs =
     and_then (pg_query ''list candidate evidence: %w'' ''iterate candidate evidence: %w''
       (evidence_stmt (map cand_ID cs))) (\<lambda>evs.
     ok (attach_evidence (candidate_index cs) cs evs))"

definition ListCandidates :: "candidate_filter \<Rightarrow> ('x world_scheme, candidate list) act" where
  "ListCandidates f =
     and_then (pg_query ''list candidates: %w'' ''iterate candidates: %w'' (list_candidates_stmt (normalized f))) (\<lambda>cs.
     if cs = [] then ok [] else attachCandidateEvidence cs)"

lemma ListCandidates_store [effects]: "keeps (on_db store_step) (ListCandidates f)"
  unfolding ListCandidates_def attachCandidateEvidence_def by (auto intro!: store_rules)

section \<open>Attaching evidence\<close>

text \<open>
  Over candidates with pairwise different ids the index finds the position of each, and the loop
  gives every candidate its own evidence in the order of the rows.
\<close>

definition with_evidence :: "(string \<times> candidate_claim) list \<Rightarrow> candidate \<Rightarrow> candidate" where
  "with_evidence evs c = c\<lparr>cand_Evidence := cand_Evidence c @ map snd (filter (\<lambda>e. fst e = cand_ID c) evs)\<rparr>"

lemma with_evidence_ID [simp]: "cand_ID (with_evidence evs c) = cand_ID c"
  by (simp add: with_evidence_def)

lemma index_of_ids:
  assumes "distinct ids"
  shows "map_of (rev (zip ids [0..<length ids])) k = Some n \<longleftrightarrow> n < length ids \<and> ids ! n = k"
proof -
  have "map_of (rev (zip ids [0..<length ids])) k = Some n \<longleftrightarrow> (k, n) \<in> set (zip ids [0..<length ids])"
    using assms by (subst map_of_eq_Some_iff) (simp_all add: rev_map [symmetric])
  also have "\<dots> \<longleftrightarrow> n < length ids \<and> ids ! n = k" by (auto simp: set_zip)
  finally show ?thesis .
qed

lemma attach_evidence_map:
  assumes "distinct (map cand_ID cs)" and "map cand_ID cs = map cand_ID bs"
  shows "attach_evidence (candidate_index bs) cs evs = map (with_evidence evs) cs"
  using assms
proof (induction evs arbitrary: cs)
  case Nil
  then show ?case by (simp add: with_evidence_def cong: map_cong)
next
  case (Cons p evs)
  obtain k ev where p: "p = (k, ev)" by fastforce
  have len: "length cs = length bs" using Cons.prems(2) by (metis length_map)
  have index: "candidate_index bs k = Some n \<longleftrightarrow> n < length cs \<and> cand_ID (cs ! n) = k" for n
    using index_of_ids [OF Cons.prems(1), of k n] len nth_map [of n cs cand_ID]
    unfolding candidate_index_def Cons.prems(2) [symmetric] length_map len [symmetric] by auto
  show ?case
  proof (cases "candidate_index bs k")
    case None
    then have "\<forall>c \<in> set cs. cand_ID c \<noteq> k" using index by (metis in_set_conv_nth option.distinct(1))
    then have "map (with_evidence ((k, ev) # evs)) cs = map (with_evidence evs) cs"
      by (auto simp: with_evidence_def)
    then show ?thesis using None Cons by (simp add: p)
  next
    case (Some n)
    then have n: "n < length cs" "cand_ID (cs ! n) = k" using index by simp_all
    let ?cs = "cs[n := (cs ! n)\<lparr>cand_Evidence := cand_Evidence (cs ! n) @ [ev]\<rparr>]"
    have ids: "map cand_ID ?cs = map cand_ID cs" using n(1) list_update_id [of "map cand_ID cs" n] by (simp add: map_update)
    have "map (with_evidence evs) ?cs = map (with_evidence ((k, ev) # evs)) cs"
    proof (rule nth_equalityI)
      fix j assume "j < length (map (with_evidence evs) ?cs)"
      then have j: "j < length cs" by simp
      show "map (with_evidence evs) ?cs ! j = map (with_evidence ((k, ev) # evs)) cs ! j"
      proof (cases "j = n")
        case False
        then have "cand_ID (cs ! j) \<noteq> k"
          using j n Cons.prems(1) by (metis length_map nth_eq_iff_index_eq nth_map)
        then show ?thesis using j False by (simp add: with_evidence_def)
      qed (use n in \<open>simp add: with_evidence_def\<close>)
    qed simp
    then show ?thesis using Some Cons.IH [of ?cs] Cons.prems ids by (simp add: p)
  qed
qed

section \<open>What a listing holds\<close>

lemma first_of_each_first:
  assumes "sorted_wrt R rs" and "r \<in> set (first_of_each seen rs)"
  shows "r \<in> set rs \<and> run_StrategyID r \<notin> set seen
    \<and> (\<forall>q \<in> set rs. run_StrategyID q = run_StrategyID r \<longrightarrow> q = r \<or> R r q)"
  using assms by (induction rs arbitrary: seen) (fastforce split: if_splits)+

lemma first_of_each_subset: "set (first_of_each seen rs) \<subseteq> set rs"
  by (induction rs arbitrary: seen) auto

lemma first_of_each_distinct: "distinct (map run_ID rs) \<Longrightarrow> distinct (map run_ID (first_of_each seen rs))"
proof (induction rs arbitrary: seen)
  case (Cons a rs)
  have "run_ID a \<notin> run_ID ` set (first_of_each s rs)" for s
    using Cons.prems image_mono [OF first_of_each_subset, of run_ID s rs] by auto
  then show ?case using Cons by simp
qed simp

lemma later_run_strict: "strict_weak later_run"
  by (auto simp: strict_weak_def later_run_def split: option.splits)

text \<open>The run selected for a strategy is the one completed last.\<close>

lemma selected_run:
  assumes "r \<in> set (selected_runs strategy backtest d)"
  shows "r \<in> set (eligible_runs strategy backtest d)
    \<and> (\<forall>q \<in> set (eligible_runs strategy backtest d). run_StrategyID q = run_StrategyID r \<longrightarrow> \<not> later_run q r)"
proof -
  let ?rs = "sort_slice later_run (eligible_runs strategy backtest d)"
  have "sorted_wrt (\<lambda>x y. \<not> later_run y x) ?rs" by (rule go_sort.srt_ordered [OF later_run_strict])
  from first_of_each_first [OF this] assms
  have "r \<in> set ?rs \<and> (\<forall>q \<in> set ?rs. run_StrategyID q = run_StrategyID r \<longrightarrow> q = r \<or> \<not> later_run q r)"
    by (simp add: selected_runs_def)
  moreover have "\<not> later_run r r" by (auto simp: later_run_def split: option.splits)
  ultimately show ?thesis unfolding go_sort.srt_set by blast
qed

text \<open>Over sound tables every candidate of a selected run is listed once.\<close>

lemma joined_rows_cases:
  assumes ok: "schema_ok d" and c: "c \<in> set (db_candidates d)"
    and runs: "distinct (map run_ID runs)" "set runs \<subseteq> set (db_runs d)"
  shows "joined_rows runs d c = [] \<or> (\<exists>r \<in> set runs. \<exists>s \<in> set (db_strategies d). run_ID r = cnd_RunID c
    \<and> st_ID s = cnd_StrategyID c \<and> joined_rows runs d c = [listed_candidate c r s])"
proof (cases "\<exists>r \<in> set runs. run_ID r = cnd_RunID c")
  case True
  then obtain r where r: "r \<in> set runs" "run_ID r = cnd_RunID c" by blast
  have "(\<lambda>c. (cnd_RunID c, cnd_StrategyID c)) ` set (db_candidates d)
      \<subseteq> (\<lambda>r. (run_ID r, run_StrategyID r)) ` {r \<in> set (db_runs d). run_ResultChecksum r \<noteq> None}"
    "run_StrategyID ` set (db_runs d) \<subseteq> st_ID ` set (db_strategies d)"
    using ok by (simp_all add: schema_ok_def refs_ok_def)
  then have "(cnd_RunID c, cnd_StrategyID c) \<in> (\<lambda>r. (run_ID r, run_StrategyID r)) ` {r \<in> set (db_runs d). run_ResultChecksum r \<noteq> None}"
    using c by (simp only: image_subset_iff)
  then have "cnd_StrategyID c \<in> run_StrategyID ` set (db_runs d)" by auto
  then have "cnd_StrategyID c \<in> st_ID ` set (db_strategies d)"
    using \<open>run_StrategyID ` set (db_runs d) \<subseteq> _\<close> by (rule rev_subsetD)
  then obtain s where s: "s \<in> set (db_strategies d)" "st_ID s = cnd_StrategyID c" by auto
  have "distinct (map st_ID (db_strategies d))" using ok by (simp add: schema_ok_def keys_ok_def)
  from filter_key_unique [OF this s(1)] filter_key_unique [OF runs(1) r(1)]
  have "joined_rows runs d c = [listed_candidate c r s]" by (simp add: joined_rows_def r(2) s(2))
  then show ?thesis using r s by blast
next
  case False
  then have "filter (\<lambda>r. run_ID r = cnd_RunID c) runs = []" by (simp add: filter_empty_conv)
  then show ?thesis by (simp add: joined_rows_def)
qed

lemma listed_candidate_ID [simp]: "cand_ID (listed_candidate c r s) = cnd_ID c"
  by (simp add: listed_candidate_def)

lemma joined_candidates_rows:
  assumes ok: "schema_ok d" and runs: "distinct (map run_ID runs)" "set runs \<subseteq> set (db_runs d)"
    and cs: "set cs \<subseteq> set (db_candidates d)" "distinct (map cnd_ID cs)"
  shows "distinct (map cand_ID (concat (map (joined_rows runs d) cs)))"
proof -
  have "map cand_ID (concat (map (joined_rows runs d) cs)) = map cnd_ID (filter (\<lambda>c. joined_rows runs d c \<noteq> []) cs)"
    using cs(1)
  proof (induction cs)
    case (Cons c cs)
    have "joined_rows runs d c = [] \<or> map cand_ID (joined_rows runs d c) = [cnd_ID c]"
      using joined_rows_cases [OF ok _ runs, of c] Cons.prems by fastforce
    then show ?case using Cons by auto
  qed simp
  then show ?thesis using cs(2) by (simp only: distinct_map_filter)
qed

lemma evidence_claims_one:
  assumes ok: "schema_ok d" and e: "e \<in> set (db_evidence d)"
  shows "\<exists>c. sc_ID c = er_ClaimID e \<and>
    evidence_claims d e = [(er_CandidateID e, \<lparr>cc_Claim = c, cc_Contribution = er_Contribution e\<rparr>)]"
proof -
  have "er_ClaimID e \<in> cr_ID ` set (db_claims d)" using ok e by (auto simp: schema_ok_def refs_ok_def)
  then obtain row where row: "row \<in> set (db_claims d)" "cr_ID row = er_ClaimID e" by auto
  have "distinct (map cr_ID (db_claims d))" using ok by (simp add: schema_ok_def keys_ok_def)
  from filter_key_unique [OF this row(1)] row(2)
  have "filter (\<lambda>c. cr_ID c = er_ClaimID e) (db_claims d) = [row]" by simp
  moreover obtain p where "joined_claim d row = [stored_of row p]" using joined_claim_one [OF ok row(1)] by blast
  ultimately have "evidence_claims d e =
      [(er_CandidateID e, \<lparr>cc_Claim = stored_of row p, cc_Contribution = er_Contribution e\<rparr>)]"
    by (simp add: evidence_claims_def joined_claims_def)
  then show ?thesis using row(2) by (intro exI [of _ "stored_of row p"]) simp
qed

abbreviation evidence_pair :: "string \<times> candidate_claim \<Rightarrow> string \<times> string" where
  "evidence_pair p \<equiv> (fst p, sc_ID (cc_Claim (snd p)))"

lemma evidence_pairs:
  assumes "schema_ok d"
  shows "evidence_pair ` set (concat (map (evidence_claims d) (filter p (db_evidence d))))
    = (\<lambda>e. (er_CandidateID e, er_ClaimID e)) ` {e \<in> set (db_evidence d). p e}"
proof -
  have one: "evidence_pair ` set (evidence_claims d e) = {(er_CandidateID e, er_ClaimID e)}"
    if "e \<in> set (db_evidence d)" for e
    using evidence_claims_one [OF assms that] by auto
  have "evidence_pair ` set (concat (map (evidence_claims d) (filter p (db_evidence d))))
      = (\<Union>e \<in> {e \<in> set (db_evidence d). p e}. evidence_pair ` set (evidence_claims d e))"
    by (simp add: image_UN)
  also have "\<dots> = (\<Union>e \<in> {e \<in> set (db_evidence d). p e}. {(er_CandidateID e, er_ClaimID e)})"
    by (rule SUP_cong) (auto simp: one)
  finally show ?thesis by auto
qed

lemma with_evidence_claims:
  "cand_Evidence c = [] \<Longrightarrow>
     sc_ID ` cc_Claim ` set (cand_Evidence (with_evidence evs c)) = {j. (cand_ID c, j) \<in> evidence_pair ` set evs}"
  by (force simp: with_evidence_def)

text \<open>The candidates of the first query, and what the second one adds.\<close>

lemma ListCandidates_Inr:
  assumes "ListCandidates f w = (Inr cs, w')"
  shows "\<exists>s b cs0. nullable_uuid (cf_StrategyID f) = Inr s \<and> nullable_uuid (cf_BacktestID f) = Inr b
     \<and> cs0 = take (nat (cf_Limit (normalized f)))
         (sort_slice (candidate_before (w_db w)) (joined_candidates (selected_runs s b (w_db w)) (w_db w)))
     \<and> (cs0 = [] \<and> cs = [] \<or> (\<exists>us evs. all_in uuid_in (map cand_ID cs0) = Inr us
          \<and> cs = attach_evidence (candidate_index cs0) cs0 evs
          \<and> set evs = set (concat (map (evidence_claims (w_db w))
               (filter (\<lambda>e. er_CandidateID e \<in> set us) (db_evidence (w_db w)))))))"
proof -
  have same: "cf_StrategyID (normalized f) = cf_StrategyID f" "cf_BacktestID (normalized f) = cf_BacktestID f"
    by (simp_all add: normalized_def Let_def)
  from assms obtain cs0 w1 where first: "pg_query ''list candidates: %w'' ''iterate candidates: %w''
      (list_candidates_stmt (normalized f)) w = (Inr cs0, w1)"
    and rest: "(if cs0 = [] then ok [] else attachCandidateEvidence cs0) w1 = (Inr cs, w')"
    unfolding ListCandidates_def and_then_Inr by blast
  from pg_query_Inr [OF first] obtain d' where stmt: "list_candidates_stmt (normalized f) (w_db w) = (Inr cs0, d')"
    and w1: "w_db w1 = w_db w" by blast
  from stmt obtain s b where sb: "nullable_uuid (cf_StrategyID f) = Inr s" "nullable_uuid (cf_BacktestID f) = Inr b"
    "cs0 = take (nat (cf_Limit (normalized f)))
      (sort_slice (candidate_before (w_db w)) (joined_candidates (selected_runs s b (w_db w)) (w_db w)))"
    by (auto simp: list_candidates_stmt_def act_simps same split: sum.splits)
  show ?thesis
  proof (cases "cs0 = []")
    case True
    then have "cs = []" using rest by (simp add: ok_def)
    then show ?thesis using sb True by blast
  next
    case False
    with rest obtain evs w2 where second: "pg_query ''list candidate evidence: %w'' ''iterate candidate evidence: %w''
        (evidence_stmt (map cand_ID cs0)) w1 = (Inr evs, w2)" and cs: "cs = attach_evidence (candidate_index cs0) cs0 evs"
      by (auto simp: attachCandidateEvidence_def and_then_Inr ok_def)
    from pg_query_Inr [OF second] w1 obtain d2 where "evidence_stmt (map cand_ID cs0) (w_db w) = (Inr evs, d2)" by auto
    then obtain us where "all_in uuid_in (map cand_ID cs0) = Inr us"
      "set evs = set (concat (map (evidence_claims (w_db w)) (filter (\<lambda>e. er_CandidateID e \<in> set us) (db_evidence (w_db w)))))"
      by (auto simp: evidence_stmt_def act_simps go_sort.srt_set split: sum.splits)
    then show ?thesis using sb cs by blast
  qed
qed

text \<open>The rows of a listing: pairwise different candidates, each under one of the selected runs.\<close>

lemma selected_runs_rows:
  assumes "schema_ok d"
  shows "distinct (map run_ID (selected_runs s b d)) \<and> set (selected_runs s b d) \<subseteq> set (db_runs d)"
proof
  have "distinct (map run_ID (eligible_runs s b d))"
    using assms by (simp add: schema_ok_def keys_ok_def eligible_runs_def distinct_map_filter)
  then show "distinct (map run_ID (selected_runs s b d))"
    unfolding selected_runs_def by (intro first_of_each_distinct) (simp add: go_sort.srt_distinct_key)
  show "set (selected_runs s b d) \<subseteq> set (db_runs d)" using selected_run by (fastforce simp: eligible_runs_def)
qed

lemma listing_rows:
  assumes ok: "schema_ok d"
    and cs: "cs = take n (sort_slice (candidate_before d) (joined_candidates (selected_runs s b d) d))"
  shows "distinct (map cand_ID cs)
    \<and> (\<forall>x \<in> set cs. \<exists>c \<in> set (db_candidates d). \<exists>r \<in> set (selected_runs s b d). \<exists>t.
         x = listed_candidate c r t \<and> run_ID r = cnd_RunID c)"
proof
  let ?runs = "selected_runs s b d"
  have runs: "distinct (map run_ID ?runs)" "set ?runs \<subseteq> set (db_runs d)" using selected_runs_rows [OF ok] by simp_all
  have "distinct (map cnd_ID (db_candidates d))" using ok by (simp add: schema_ok_def keys_ok_def)
  then have "distinct (map cand_ID (joined_candidates ?runs d))"
    unfolding joined_candidates_def by (rule joined_candidates_rows [OF ok runs subset_refl])
  then show "distinct (map cand_ID cs)"
    unfolding cs take_map [symmetric] by (intro distinct_take) (simp add: go_sort.srt_distinct_key)
  show "\<forall>x \<in> set cs. \<exists>c \<in> set (db_candidates d). \<exists>r \<in> set ?runs. \<exists>t. x = listed_candidate c r t \<and> run_ID r = cnd_RunID c"
  proof
    fix x
    assume "x \<in> set cs"
    then have "x \<in> set (joined_candidates ?runs d)"
      unfolding cs using set_take_subset [of n] by (fastforce simp: go_sort.srt_set)
    then obtain c where c: "c \<in> set (db_candidates d)" "x \<in> set (joined_rows ?runs d c)"
      by (auto simp: joined_candidates_def)
    from joined_rows_cases [OF ok c(1) runs] c(2) obtain r t where
      "r \<in> set ?runs" "run_ID r = cnd_RunID c" "x = listed_candidate c r t" by auto
    then show "\<exists>c \<in> set (db_candidates d). \<exists>r \<in> set ?runs. \<exists>t. x = listed_candidate c r t \<and> run_ID r = cnd_RunID c"
      using c(1) by blast
  qed
qed

text \<open>The run of a listed candidate: completed, with its result, and the latest of its strategy unless one was asked for.\<close>

lemma listed_run:
  assumes ok: "schema_ok d" and c: "c \<in> set (db_candidates d)"
    and r: "r \<in> set (selected_runs s b d)" "run_ID r = cnd_RunID c"
  shows "r \<in> set (db_runs d) \<and> run_Status r = ''completed'' \<and> run_StrategyID r = cnd_StrategyID c
    \<and> run_ResultChecksum r \<noteq> None
    \<and> (b = None \<longrightarrow> (\<forall>q \<in> set (db_runs d). run_Status q = ''completed'' \<and> run_StrategyID q = run_StrategyID r
         \<longrightarrow> \<not> later_run q r))"
proof -
  have r_db: "r \<in> set (db_runs d)" using selected_runs_rows [OF ok] r(1) by blast
  have keys: "distinct (map run_ID (db_runs d))" using ok by (simp add: schema_ok_def keys_ok_def)
  have "(cnd_RunID c, cnd_StrategyID c) \<in> proven_runs d"
    using ok c by (auto simp: schema_ok_def refs_ok_def proven_runs_def)
  then obtain q where q: "q \<in> set (db_runs d)" "run_ID q = cnd_RunID c" "run_StrategyID q = cnd_StrategyID c"
    "run_ResultChecksum q \<noteq> None" by (auto simp: proven_runs_def)
  have "q = r" by (rule inj_onD [of run_ID "set (db_runs d)"]) (use keys q r r_db in \<open>simp_all add: distinct_map\<close>)
  moreover have "\<not> later_run q r" if "b = None" "q \<in> set (db_runs d)" "run_Status q = ''completed''"
    "run_StrategyID q = run_StrategyID r" for q
  proof -
    have "q \<in> set (eligible_runs s b d)"
      using selected_run [OF r(1)] that by (auto simp: eligible_runs_def split: option.splits)
    then show ?thesis using selected_run [OF r(1)] that(4) by blast
  qed
  ultimately show ?thesis using r_db q(3,4) selected_run [OF r(1)] by (auto simp: eligible_runs_def)
qed

lemma listed_evidence:
  assumes ok: "schema_ok d" and i: "cnd_ID c \<in> set us"
    and evs: "set evs = set (concat (map (evidence_claims d) (filter (\<lambda>e. er_CandidateID e \<in> set us) (db_evidence d))))"
  shows "sc_ID ` cc_Claim ` set (cand_Evidence (with_evidence evs (listed_candidate c r t))) = evidence_of d (cnd_ID c)"
proof -
  have "evidence_pair ` set evs = (\<lambda>e. (er_CandidateID e, er_ClaimID e)) ` {e \<in> set (db_evidence d). er_CandidateID e \<in> set us}"
    unfolding evs by (rule evidence_pairs [OF ok])
  then have "{j. (cnd_ID c, j) \<in> evidence_pair ` set evs} = evidence_of d (cnd_ID c)"
    using i by (auto simp: evidence_of_def image_iff)
  then show ?thesis using with_evidence_claims [of "listed_candidate c r t" evs] by (simp add: listed_candidate_def)
qed

lemma attach_to_none: "attach_evidence (candidate_index []) [] evs = []"
  by (induction evs) (auto simp: candidate_index_def)

text \<open>
  C13 A listing shows nothing but proven, current positions with their evidence: at most the maximal
  page of candidates, each once, each a stored position of a completed run whose checksum it
  carries, no run of the same strategy having completed later unless an exact run was asked for,
  and each with exactly the claims attributed to it.
\<close>

theorem list_candidates_spec:
  assumes "ListCandidates f w = (Inr cs, w')" and "schema_ok (w_db w)"
  shows "length cs \<le> nat MaxCandidateLimit \<and> distinct (map cand_ID cs)
    \<and> (\<forall>x \<in> set cs. \<exists>c \<in> set (db_candidates (w_db w)). \<exists>r \<in> set (db_runs (w_db w)).
         cand_ID x = cnd_ID c \<and> cand_Symbol x = cnd_Symbol c \<and> cand_Rank x = cnd_Rank c \<and> cand_Weight x = cnd_Weight c
         \<and> cnd_RunID c = run_ID r \<and> cand_BacktestRunID x = run_ID r \<and> cand_StrategyID x = run_StrategyID r
         \<and> run_Status r = ''completed'' \<and> cand_ResultChecksum x = run_ResultChecksum r \<and> run_ResultChecksum r \<noteq> None
         \<and> (cf_BacktestID f = [] \<longrightarrow> (\<forall>q \<in> set (db_runs (w_db w)). run_Status q = ''completed''
              \<and> run_StrategyID q = run_StrategyID r \<longrightarrow> \<not> later_run q r))
         \<and> sc_ID ` cc_Claim ` set (cand_Evidence x) = evidence_of (w_db w) (cand_ID x))"
proof -
  let ?d = "w_db w"
  from ListCandidates_Inr [OF assms(1)] obtain s b cs0 where
    cs0: "cs0 = take (nat (cf_Limit (normalized f))) (sort_slice (candidate_before ?d) (joined_candidates (selected_runs s b ?d) ?d))"
    and b: "nullable_uuid (cf_BacktestID f) = Inr b"
    and rest: "cs0 = [] \<and> cs = [] \<or> (\<exists>us evs. all_in uuid_in (map cand_ID cs0) = Inr us
        \<and> cs = attach_evidence (candidate_index cs0) cs0 evs
        \<and> set evs = set (concat (map (evidence_claims ?d) (filter (\<lambda>e. er_CandidateID e \<in> set us) (db_evidence ?d)))))"
    by blast
  note rows = listing_rows [OF assms(2) cs0]
  have len: "length cs0 \<le> nat MaxCandidateLimit" using normalized_bound [of f] unfolding cs0 by simp
  show ?thesis
  proof (cases "cs0 = []")
    case True
    then have "cs = []" using rest attach_to_none by auto
    then show ?thesis by simp
  next
    case False
    with rest obtain us evs where us: "all_in uuid_in (map cand_ID cs0) = Inr us"
      and cs: "cs = attach_evidence (candidate_index cs0) cs0 evs"
      and evs: "set evs = set (concat (map (evidence_claims ?d) (filter (\<lambda>e. er_CandidateID e \<in> set us) (db_evidence ?d))))"
      by blast
    have "\<forall>i \<in> set (map cand_ID cs0). uuid_in i = Inr i"
      using rows assms(2) by (fastforce simp: schema_ok_def uuids_ok_def listed_candidate_def)
    from all_in_fix [OF this] us have ids: "us = map cand_ID cs0" by (simp only: sum.inject)
    have cs_map: "cs = map (with_evidence evs) cs0" unfolding cs using rows by (intro attach_evidence_map) simp_all
    show ?thesis
    proof (intro conjI ballI)
      show "length cs \<le> nat MaxCandidateLimit" using len by (simp only: cs_map length_map)
      show "distinct (map cand_ID cs)" using rows by (simp add: cs_map comp_def)
      fix x assume "x \<in> set cs"
      then obtain y where y: "y \<in> set cs0" "x = with_evidence evs y" unfolding cs_map by auto
      then obtain c r t where c: "c \<in> set (db_candidates ?d)" and r: "r \<in> set (selected_runs s b ?d)" "run_ID r = cnd_RunID c"
        and y_eq: "y = listed_candidate c r t" using rows by blast
      note run = listed_run [OF assms(2) c r]
      have "cnd_ID c \<in> set us" using y(1) by (force simp: ids y_eq listed_candidate_def)
      note evidence = listed_evidence [OF assms(2) this evs, of r t]
      have "cf_BacktestID f = [] \<Longrightarrow> b = None" using b by (simp add: nullable_uuid_def)
      then show "\<exists>c \<in> set (db_candidates ?d). \<exists>r \<in> set (db_runs ?d).
         cand_ID x = cnd_ID c \<and> cand_Symbol x = cnd_Symbol c \<and> cand_Rank x = cnd_Rank c \<and> cand_Weight x = cnd_Weight c
         \<and> cnd_RunID c = run_ID r \<and> cand_BacktestRunID x = run_ID r \<and> cand_StrategyID x = run_StrategyID r
         \<and> run_Status r = ''completed'' \<and> cand_ResultChecksum x = run_ResultChecksum r \<and> run_ResultChecksum r \<noteq> None
         \<and> (cf_BacktestID f = [] \<longrightarrow> (\<forall>q \<in> set (db_runs ?d). run_Status q = ''completed''
              \<and> run_StrategyID q = run_StrategyID r \<longrightarrow> \<not> later_run q r))
         \<and> sc_ID ` cc_Claim ` set (cand_Evidence x) = evidence_of ?d (cand_ID x)"
        using run evidence r(2)
        by (intro bexI [OF _ c] bexI [OF _ conjunct1 [OF run]]) (simp add: y(2) y_eq with_evidence_def listed_candidate_def)
    qed
  qed
qed

end
