(* ===== verification/StoreSamples.thy ===== *)
theory StoreSamples
  imports CandidateStore
begin

text \<open>
  The properties of the store at concrete tables: a document with a reviewed claim, a strategy that
  cites it, a snapshot, a run in progress and a completed one with its ranking.
\<close>

definition doc_id :: string where "doc_id = ''0a000000-0000-4000-8000-000000000001''"
definition page_id1 :: string where "page_id1 = ''0a000000-0000-4000-8000-000000000002''"
definition claim_id1 :: string where "claim_id1 = ''0a000000-0000-4000-8000-000000000003''"
definition strategy_id1 :: string where "strategy_id1 = ''0a000000-0000-4000-8000-000000000004''"
definition snapshot_id1 :: string where "snapshot_id1 = ''0a000000-0000-4000-8000-000000000005''"
definition run_id1 :: string where "run_id1 = ''0a000000-0000-4000-8000-000000000006''"
definition run_id2 :: string where "run_id2 = ''0a000000-0000-4000-8000-000000000007''"
definition candidate_id1 :: string where "candidate_id1 = ''0a000000-0000-4000-8000-000000000008''"

definition new_ids :: "string list" where
  "new_ids = [''0b000000-0000-4000-8000-000000000001'', ''0b000000-0000-4000-8000-000000000002'',
              ''0b000000-0000-4000-8000-000000000003'']"

definition sample_uuid :: "nat \<Rightarrow> string" where
  "sample_uuid n = (if n < length new_ids then new_ids ! n else sample_id)"

definition sample_document :: doc_row where
  "sample_document =
     \<lparr>doc_ID = doc_id, doc_Filename = ''a.pdf'', doc_StorageKey = ''documents/a.pdf'', doc_SHA256 = ''0'',
      doc_Status = ''ready'', doc_UploadedAt = 1000, doc_SourcePublishedAt = None, dw_Metadata = NoBytes\<rparr>"

definition sample_claim :: claim_row where
  "sample_claim =
     \<lparr>cr_ID = claim_id1, cr_DocumentID = doc_id, cr_PageID = page_id1, cr_Ticker = Some ''SPY'',
      cr_Kind = ''macro'', cr_Direction = ''positive'', cr_Text = ''Up.'', cr_EvidenceQuote = ''Up.'',
      cr_HorizonDays = Some 30, cr_Confidence = round64 (of_int 500 / 1000), cr_EffectiveAt = 2000,
      cr_ValidationStatus = ''accepted'', cr_CreatedAt = 1000\<rparr>"

definition sample_run :: "string \<Rightarrow> string \<Rightarrow> string option \<Rightarrow> backtest_run" where
  "sample_run i status result =
     \<lparr>run_ID = i, run_StrategyID = strategy_id1, run_MarketDataSnapshotID = snapshot_id1,
      run_DocumentCutoffAt = 5000, run_Status = status, run_Parameters = empty_object,
      run_Summary = empty_object, run_EngineVersion = result, run_ResultArtifactKey = result,
      run_ResultChecksum = result, run_CreatedAt = 3000, run_CompletedAt = map_option (\<lambda>_. 4000) result\<rparr>"

definition sample_candidate :: cand_row where
  "sample_candidate =
     \<lparr>cnd_ID = candidate_id1, cnd_RunID = run_id2, cnd_StrategyID = strategy_id1, cnd_Symbol = ''SPY'',
      cnd_Rank = 1, cnd_Weight = Fin (1 / 2), cnd_Score = Fin 1, cnd_Momentum = Fin 1,
      cnd_MomentumRank = Some (Fin 1), cnd_ClaimSupport = Fin 1, cnd_AsOf = 0\<rparr>"

definition sample_db :: db where
  "sample_db =
     \<lparr>db_documents = [sample_document],
      db_pages = [\<lparr>pg_ID = page_id1, pg_DocumentID = doc_id, pg_PageNumber = 1, pg_Content = ''Up.''\<rparr>],
      db_claims = [sample_claim],
      db_strategies = [\<lparr>st_ID = strategy_id1, st_Slug = ''momentum'', st_Version = 1, st_Name = ''Momentum'',
        st_Spec = empty_object, st_CreatedAt = 2500\<rparr>],
      db_citations = [(strategy_id1, claim_id1)],
      db_snapshots = [\<lparr>snap_ID = snapshot_id1, snap_Provider = ''p'', snap_Symbols = [''SPY''], snap_Interval = ''1d'',
        snap_StartDate = ''2024-01-02'', snap_EndDate = ''2024-01-03'', snap_StorageKey = Some ''market-data/a.csv'',
        snap_Checksum = Some ''0'', snap_RetrievedAt = 2000\<rparr>],
      db_runs = [sample_run run_id1 ''running'' None, sample_run run_id2 ''completed'' (Some ''v4'')],
      db_candidates = [sample_candidate],
      db_evidence = [\<lparr>er_CandidateID = candidate_id1, er_ClaimID = claim_id1, er_Contribution = Fin 1\<rparr>],
      db_jobs = [], db_now = 9000, db_uuid = sample_uuid, db_next = 0, db_collation = (\<lambda>a b. a < b)\<rparr>"

definition sample_world :: world where
  "sample_world = \<lparr>w_db = sample_db, w_faults = [], w_clock = 9500\<rparr>"

lemmas sample_ids = doc_id_def page_id1_def claim_id1_def strategy_id1_def snapshot_id1_def run_id1_def run_id2_def
  candidate_id1_def

lemmas sample_rows = sample_db_def sample_document_def sample_claim_def sample_run_def sample_candidate_def

lemma uuid_in_samples:
  "uuid_in doc_id = Inr doc_id" "uuid_in claim_id1 = Inr claim_id1" "uuid_in strategy_id1 = Inr strategy_id1"
  "uuid_in run_id1 = Inr run_id1" "uuid_in run_id2 = Inr run_id2" "uuid_in candidate_id1 = Inr candidate_id1"
  "uuid_in (new_ids ! 0) = Inr (new_ids ! 0)" "uuid_in (new_ids ! 1) = Inr (new_ids ! 1)"
  "uuid_in (new_ids ! 2) = Inr (new_ids ! 2)"
  unfolding sample_ids new_ids_def by code_simp+

lemma uuid_in_sample_uuid: "uuid_in (sample_uuid n) = Inr (sample_uuid n)"
proof -
  have "n < length new_ids \<longleftrightarrow> n = 0 \<or> n = 1 \<or> n = 2" by (auto simp: new_ids_def)
  then show ?thesis using uuid_in_samples(7-9) uuid_in_sample_id by (auto simp: sample_uuid_def)
qed

lemma sample_uuid_new: "sample_uuid 0 = new_ids ! 0" "sample_uuid (Suc 0) = new_ids ! 1" "sample_uuid (Suc (Suc 0)) = new_ids ! 2"
  by (simp_all add: sample_uuid_def new_ids_def)

lemma new_ids_differ:
  "new_ids ! Suc 0 \<noteq> new_ids ! 0" "new_ids ! 2 \<noteq> claim_id1" "new_ids ! 0 \<noteq> strategy_id1" "new_ids ! 0 \<noteq> candidate_id1"
  "uuid_in (new_ids ! Suc 0) = Inr (new_ids ! Suc 0)" "run_id2 \<noteq> run_id1" "run_id1 \<noteq> run_id2" "strategy_id1 \<noteq> new_ids ! 0"
  using uuid_in_samples(8) by (simp_all add: new_ids_def sample_ids)

text \<open>The conversions of the sample values.\<close>

lemma text_in_samples:
  "text_in ''Up.'' = Inr ''Up.''" "text_in ''SPY'' = Inr ''SPY''" "text_in ''momentum'' = Inr ''momentum''"
  "text_in ''Momentum'' = Inr ''Momentum''" "text_in ''v4'' = Inr ''v4''" "text_in [] = Inr []"
  "text_in ''backtests/a.csv'' = Inr ''backtests/a.csv''"
  by code_simp+

lemma confidence_in_one: "confidence_in (Fin 1) = Inr (Fin 1)"
proof -
  have "\<lfloor>2001 / 2 :: rat\<rfloor> = 1000" by (rule floor_unique) simp_all
  then show ?thesis by (simp add: confidence_in_def round_half_away_def round64_1 shortest_units)
qed

lemmas run_simps = act_simps transaction_def pg_exec_def next_fault_def gen_random_uuid_def

lemma sample_ok: "schema_ok sample_db"
proof -
  have "stored_confidence (round64 (of_int 500 / 1000))"
    unfolding stored_confidence_def by (rule bexI [of _ 500]) simp_all
  then have "checks_ok sample_db"
    by (simp add: checks_ok_def sample_rows document_statuses_def claim_row_ok_def valid_claim_kind_def
        valid_direction_def run_row_ok_def run_statuses_def cand_row_ok_def pg_positive_def)
  moreover have "keys_ok sample_db" by (simp add: keys_ok_def sample_rows run_id1_def run_id2_def)
  moreover have "(run_id2, strategy_id1) \<in> (\<lambda>r. (run_ID r, run_StrategyID r))
      ` {r \<in> set (db_runs sample_db). run_ResultChecksum r \<noteq> None}"
    by (rule image_eqI [of _ _ "sample_run run_id2 ''completed'' (Some ''v4'')"]) (simp_all add: sample_rows)
  then have "refs_ok sample_db" by (simp add: refs_ok_def) (simp add: sample_rows)
  moreover have "versions_ok sample_db" by (simp add: versions_ok_def sample_rows)
  moreover have "uuids_ok sample_db" 
  proof -
    have "db_uuid sample_db = sample_uuid" by (simp add: sample_db_def)
    then show ?thesis unfolding uuids_ok_def by (simp add: uuid_in_sample_uuid) (simp add: sample_rows uuid_in_samples)
  qed
  moreover have "jobs_ok sample_db" by (simp add: jobs_ok_def sample_rows)
  ultimately show ?thesis by (simp add: schema_ok_def)
qed

section \<open>Documents and extractions\<close>

definition sample_upload :: create_document_input where
  "sample_upload = \<lparr>cdi_Filename = ''b.pdf'', cdi_StorageKey = ''documents/b.pdf'', cdi_SHA256 = ''1'',
     cdi_SizeBytes = 10, cdi_MIMEType = ''application/pdf'', cdi_SourcePublishedAt = None\<rparr>"

theorem create_document_atomic_witness:
  "\<exists>x j w'. CreateDocumentWithExtractionJob sample_upload sample_world = (Inr (x, j, True), w')
     \<and> length (db_documents (w_db w')) = 2 \<and> length (db_jobs (w_db w')) = 1"
proof -
  have "returns (\<lambda>(x, j, c). c) (CreateDocumentWithExtractionJob sample_upload sample_world)" by code_simp
  then obtain x j w' where run: "CreateDocumentWithExtractionJob sample_upload sample_world = (Inr (x, j, True), w')"
    by (auto dest!: returnsE)
  from create_document_atomic [OF run] have "length (db_documents (w_db w')) = 2 \<and> length (db_jobs (w_db w')) = 1"
    by (auto simp: sample_world_def sample_db_def)
  with run show ?thesis by blast
qed

definition sample_extraction :: extraction where
  "sample_extraction =
     \<lparr>ex_Pages = [\<lparr>page_Number = 1, page_Content = ''Up.''\<rparr>, \<lparr>page_Number = 2, page_Content = []\<rparr>],
      ex_Claims = [\<lparr>cl_PageNumber = 1, cl_Ticker = Some ''SPY'', cl_Kind = ''macro'', cl_Direction = ''positive'',
        cl_Text = ''Up.'', cl_EvidenceQuote = ''Up.'', cl_HorizonDays = Some 30, cl_Confidence = Fin 1,
        cl_EffectiveAt = 5000\<rparr>]\<rparr>"

text \<open>The tables before anything cites the document's claim.\<close>

definition uncited_world :: world where
  "uncited_world = sample_world\<lparr>w_db := sample_db\<lparr>db_citations := [], db_evidence := []\<rparr>\<rparr>"

lemma uncited_ok: "schema_ok (w_db uncited_world)"
proof -
  have "refs_ok (w_db uncited_world)" using sample_ok
    by (simp add: uncited_world_def schema_ok_def refs_ok_def)
  moreover have "keys_ok (w_db uncited_world)" using sample_ok
    by (simp add: uncited_world_def schema_ok_def keys_ok_def)
  ultimately show ?thesis using sample_ok
    by (simp add: uncited_world_def schema_ok_def checks_ok_def versions_ok_def jobs_ok_def uuids_ok_def)
qed

theorem replace_extraction_effect_witness:
  "\<exists>w'. ReplaceExtraction doc_id sample_extraction uncited_world = (Inr (), w')
     \<and> map pg_PageNumber (filter (\<lambda>p. pg_DocumentID p = doc_id) (db_pages (w_db w'))) = [1, 2]"
proof -
  have "extraction_validate sample_extraction = None"
    by (simp add: extraction_validate_iff sample_extraction_def claim_ok_def trim_space_note valid_claim_kind_def
        valid_direction_def fless_def)
  then have "returns (\<lambda>_. True) (ReplaceExtraction doc_id sample_extraction uncited_world)"
    by (simp add: returns_def ReplaceExtraction_def run_simps delete_pages_stmt_def insert_page_stmt_def
        document_status_stmt_def store_claim_def insert_claim_stmt_def page_id_def uuid_in_samples text_in_samples
        confidence_in_one int4_in_def uncited_world_def sample_world_def sample_rows sample_extraction_def
        sample_uuid_new new_ids_differ document_statuses_def valid_claim_kind_def valid_direction_def image_iff)
  then obtain w' where run: "ReplaceExtraction doc_id sample_extraction uncited_world = (Inr (), w')"
    by (auto dest!: returnsE)
  from replace_extraction_effect [OF run uncited_ok]
  have "map (\<lambda>p. (pg_PageNumber p, pg_Content p)) (filter (\<lambda>p. pg_DocumentID p = doc_id) (db_pages (w_db w')))
      = [(1, ''Up.''), (2, [])]"
    by (simp add: uuid_in_samples sample_extraction_def)
  from arg_cong [OF this, of "map fst"] show ?thesis using run by (simp add: comp_def)
qed

theorem replace_extraction_cited_witness:
  "\<exists>e w'. ReplaceExtraction doc_id sample_extraction sample_world = (Inl e, w') \<and> w_db w' = sample_db"
proof -
  obtain r w' where run: "ReplaceExtraction doc_id sample_extraction sample_world = (r, w')" by fastforce
  have "(\<exists>e. r = Inl e) \<and> w_db w' = w_db sample_world"
    by (rule replace_extraction_cited [OF run, of sample_claim])
      (use sample_ok in \<open>simp_all add: sample_world_def uuid_in_samples, simp_all add: sample_rows uuid_in_samples\<close>)
  then show ?thesis using run by (auto simp: sample_world_def)
qed

section \<open>Claims and strategies\<close>

definition sample_commit :: create_strategy_input where
  "sample_commit = \<lparr>cst_Slug = ''momentum'', cst_Name = ''Momentum'',
     cst_Spec = Raw (JObject [(''slug'', JString ''momentum''), (''version'', JInt 1)]), cst_ClaimIDs = [claim_id1]\<rparr>"

theorem create_strategy_atomic_witness:
  "\<exists>s w'. CreateStrategyWithCitations sample_commit sample_world = (Inr s, w') \<and> st_Version s = 2"
proof -
  have "text_free_of_nul (JObject [(''slug'', JString ''momentum''), (''version'', JInt 1)])" by code_simp
  then have "jsonb_in (cst_Spec sample_commit) = Inr (Raw (JObject (jsonb_fields [] [(''slug'', JString ''momentum''), (''version'', JInt 1)])))"
    unfolding sample_commit_def jsonb_in_def by (simp only: create_strategy_input.select_convs raw_message.case if_True jsonb_of.simps)
  then have "returns (\<lambda>_. True) (CreateStrategyWithCitations sample_commit sample_world)"
    by (simp add: returns_def CreateStrategyWithCitations_def run_simps accepted_count_stmt_def insert_strategy_stmt_def
        insert_citations_stmt_def next_version_def jsonb_set_def int4_in_def Let_def sample_commit_def
        uuid_in_samples text_in_samples sample_uuid_new new_ids_differ sample_world_def sample_rows)
  then obtain s w' where run: "CreateStrategyWithCitations sample_commit sample_world = (Inr s, w')"
    by (auto dest!: returnsE)
  have ok: "schema_ok (w_db sample_world)" using sample_ok by (simp add: sample_world_def)
  from create_strategy_atomic [OF run ok]
  have "st_Version s = 1 + int (card (slug_versions (cst_Slug sample_commit) (w_db sample_world)))"
    by (elim disjE exE conjE) simp_all
  then have v: "st_Version s = 1 + int (card (slug_versions ''momentum'' sample_db))"
    by (simp only: sample_commit_def sample_world_def create_strategy_input.select_convs world.select_convs)
  have "slug_versions ''momentum'' sample_db =
      set (map st_Version (filter (\<lambda>s. st_Slug s = ''momentum'') (db_strategies sample_db)))" by simp
  also have "\<dots> = {1}" by (simp add: sample_db_def)
  finally have "st_Version s = 1 + int (card {1 :: int})" using v by (simp only:)
  then show ?thesis using run by (intro exI [of _ s] exI [of _ w'] conjI) simp_all
qed

section \<open>Snapshots, runs and rankings\<close>

definition sample_snapshot_input :: create_snapshot_input where
  "sample_snapshot_input = \<lparr>csi_Provider = ''p'', csi_Symbols = [''SPY''], csi_Interval = ''1d'',
     csi_StartDate = ''2024-01-02'', csi_EndDate = ''2024-02-29'', csi_StorageKey = ''market-data/b.csv'',
     csi_Checksum = ''1'', csi_RetrievedAt = 7000\<rparr>"

theorem snapshot_roundtrip_witness:
  "\<exists>s (w' :: world). InsertMarketDataSnapshot sample_snapshot_input sample_world = (Inr s, w')
     \<and> GetMarketDataSnapshot (snap_ID s) (w'\<lparr>w_faults := []\<rparr>) = (Inr s, w'\<lparr>w_faults := []\<rparr>)"
proof -
  have "returns (\<lambda>_. True) (InsertMarketDataSnapshot sample_snapshot_input sample_world)" by code_simp
  then obtain s and w' :: world where run: "InsertMarketDataSnapshot sample_snapshot_input sample_world = (Inr s, w')"
    by (auto dest!: returnsE)
  have ok: "schema_ok (w_db sample_world)" using sample_ok by (simp add: sample_world_def)
  from snapshot_roundtrip [OF run ok, of "w'\<lparr>w_faults := []\<rparr>"] run show ?thesis
    by (simp add: store.R_refl)
qed

definition sample_result :: backtest_result where
  "sample_result =
     \<lparr>res_Summary = NoBytes, res_EquityCurveCSV = ''x'', res_ResultChecksum = ''2'', res_EngineVersion = ''v4'',
      res_Candidates = \<lparr>cs_AsOf = 5000, cs_Positions =
        [\<lparr>cp_Symbol = ''SPY'', cp_Rank = 1, cp_Weight = Fin (1 / 2), cp_Score = Fin 1, cp_Momentum = Fin 1,
          cp_MomentumRank = Fin 1, cp_ClaimSupport = Fin 1,
          cp_Evidence = [\<lparr>ev_ClaimID = claim_id1, ev_Contribution = Fin 1\<rparr>]\<rparr>]\<rparr>\<rparr>"

theorem complete_backtest_atomic_witness:
  "\<exists>w'. CompleteBacktest run_id1 sample_result ''backtests/a.csv'' sample_world = (Inr (), w')
     \<and> map cnd_Symbol (filter (\<lambda>c. cnd_RunID c = run_id1) (db_candidates (w_db w'))) = [''SPY'']"
proof -
  have "char64_in ''2'' = Inr (blank_padded ''2'')" by code_simp
  moreover have "candidate_set_validate (res_Candidates sample_result) = None"
    by (simp add: candidate_set_validate_iff sample_result_def fleq_def)
  ultimately have "returns (\<lambda>_. True) (CompleteBacktest run_id1 sample_result ''backtests/a.csv'' sample_world)"
    by (simp add: returns_def CompleteBacktest_def complete_run_def complete_run_stmt_def
        insertCandidates_def delete_candidates_stmt_def insert_position_def insert_candidate_stmt_def
        insert_evidence_stmt_def one_row_def update_where_def finished_row_def in_progress_def or_empty_object_def empty_object_def jsonb_in_def
        int4_in_def pg_positive_def run_simps fleq_def sample_result_def
        uuid_in_samples text_in_samples sample_uuid_new new_ids_differ sample_world_def sample_rows)
  then obtain w' where run: "CompleteBacktest run_id1 sample_result ''backtests/a.csv'' sample_world = (Inr (), w')"
    by (auto dest!: returnsE)
  have ok: "schema_ok (w_db sample_world)" using sample_ok by (simp add: sample_world_def)
  from complete_backtest_atomic [OF run ok]
  obtain d where "list_all2 (candidate_stored d run_id1 5000) (cs_Positions (res_Candidates sample_result))
      (filter (\<lambda>c. cnd_RunID c = run_id1) (db_candidates (w_db w')))"
    by (auto simp: uuid_in_samples sample_result_def)
  then have "map cnd_Symbol (filter (\<lambda>c. cnd_RunID c = run_id1) (db_candidates (w_db w'))) = [''SPY'']"
    by (auto simp: sample_result_def list_all2_Cons1 candidate_stored_def)
  with run show ?thesis by (intro exI [of _ w'] conjI)
qed

theorem list_candidates_spec_witness:
  "\<exists>cs w'. ListCandidates \<lparr>cf_StrategyID = [], cf_BacktestID = [], cf_Limit = 0\<rparr> sample_world = (Inr cs, w')
     \<and> cs \<noteq> [] \<and> (\<forall>x \<in> set cs. cand_BacktestRunID x = run_id2)"
proof -
  let ?f = "\<lparr>cf_StrategyID = [], cf_BacktestID = [], cf_Limit = 0\<rparr>"
  have "returns (\<lambda>cs. cs \<noteq> []) (ListCandidates ?f sample_world)" by code_simp
  then obtain cs w' where run: "ListCandidates ?f sample_world = (Inr cs, w')" "cs \<noteq> []"
    by (auto dest!: returnsE)
  have ok: "schema_ok (w_db sample_world)" using sample_ok by (simp add: sample_world_def)
  from list_candidates_spec [OF run(1) ok] have "\<forall>x \<in> set cs. cand_BacktestRunID x = run_id2"
    by (auto simp: sample_world_def sample_rows)
  with run show ?thesis by blast
qed

end
