(* ===== verification/StrategyService.thy ===== *)
theory StrategyService
  imports DraftBuilder SpecJson StoreSamples
begin

text \<open>
  \<open>internal/strategies/service.go\<close>: drafting a spec from reviewed claims, and committing a validated one.
\<close>

definition ErrInvalidSpec :: err where "ErrInvalidSpec = Sentinel ''invalid strategy spec''"
definition ErrNoClaims :: err where "ErrNoClaims = Sentinel ''at least one claim is required''"
definition ErrEmptyDraft :: err where "ErrEmptyDraft = Sentinel ''no accepted claims matched the draft request''"
definition ErrClaimMissing :: err where "ErrClaimMissing = Sentinel ''one or more claims were not found''"

record draft_input =
  di_ClaimIDs :: "string list"
  di_DocumentIDs :: "string list"

record create_input =
  ci_Spec :: spec
  ci_ClaimIDs :: "string list"

definition draft_claims_by_ids :: "string list \<Rightarrow> ('x world_scheme, stored_claim list) act" where
  "draft_claims_by_ids ids =
     (if ids = [] then ok []
      else and_then (GetClaimsByIDs ids) (\<lambda>found.
        if length found \<noteq> length ids then fail ErrClaimMissing else ok found))"

fun draft_claims_of_documents :: "string list \<Rightarrow> stored_claim list \<Rightarrow> ('x world_scheme, stored_claim list) act" where
  "draft_claims_of_documents [] claims = ok claims"
| "draft_claims_of_documents (i # is) claims =
     and_then (ListClaimsByDocument i) (\<lambda>found. draft_claims_of_documents is (claims @ found))"

definition StrategyService_Draft :: "(string \<Rightarrow> string) \<Rightarrow> draft_input \<Rightarrow> ('x world_scheme, draft) act" where
  "StrategyService_Draft ul input =
     (if di_ClaimIDs input = [] \<and> di_DocumentIDs input = []
      then fail (Errorf ''%w: provide claim_ids or document_ids'' [AW ErrNoClaims])
      else
        and_then (draft_claims_by_ids (di_ClaimIDs input)) (\<lambda>found.
        and_then (draft_claims_of_documents (di_DocumentIDs input) found) (\<lambda>claims.
        case build_draft ul claims of
          Inl e \<Rightarrow> fail (Errorf ''%w: %v'' [AW ErrEmptyDraft, AV e])
        | Inr draft \<Rightarrow> ok draft)))"

definition StrategyService_Create :: "create_input \<Rightarrow> ('x world_scheme, strategy) act" where
  "StrategyService_Create input =
     (if ci_ClaimIDs input = [] then fail ErrNoClaims
      else let spec = (ci_Spec input)\<lparr>spec_Version := 1\<rparr> in
        case spec_validate spec of
          Some e \<Rightarrow> fail (Errorf ''%w: %v'' [AW ErrInvalidSpec, AV e])
        | None \<Rightarrow>
            (case spec_json spec of
               Inl e \<Rightarrow> fail (Errorf ''encode strategy spec: %w'' [AW e])
             | Inr encoded \<Rightarrow> CreateStrategyWithCitations
                 \<lparr>cst_Slug = spec_Slug spec, cst_Name = spec_Name spec, cst_Spec = Raw encoded,
                  cst_ClaimIDs = ci_ClaimIDs input\<rparr>))"

definition StrategyService_List :: "('x world_scheme, strategy list) act" where
  "StrategyService_List = ListStrategies"

definition StrategyService_Get :: "string \<Rightarrow> ('x world_scheme, strategy \<times> stored_claim list) act" where
  "StrategyService_Get i = GetStrategyWithCitations i"

section \<open>Committing\<close>

lemma insert_strategy_version: "insert_strategy_stmt input d = (Inr s, d') \<Longrightarrow> int64_range (st_Version s)"
  by (auto simp: insert_strategy_stmt_def act_simps Let_def int4_in_def int64_range_def split: sum.splits if_splits)

lemma plain_version [simp]: "plain_spec (s\<lparr>spec_Version := v\<rparr>) = plain_spec s"
  by (simp add: plain_spec_def spec_filters_def)

lemma valid_version: "spec_validate (s\<lparr>spec_Version := 1\<rparr>) = None \<Longrightarrow> 1 \<le> v \<Longrightarrow> spec_validate (s\<lparr>spec_Version := v\<rparr>) = None"
  by (auto simp: spec_validate_def spec_filters_def split: if_splits option.splits)

lemma Create_Inr:
  assumes "StrategyService_Create input w = (Inr s, w')"
  shows "ci_ClaimIDs input \<noteq> [] \<and> spec_validate ((ci_Spec input)\<lparr>spec_Version := 1\<rparr>) = None
    \<and> (\<exists>j. spec_json ((ci_Spec input)\<lparr>spec_Version := 1\<rparr>) = Inr j
         \<and> CreateStrategyWithCitations
             \<lparr>cst_Slug = spec_Slug (ci_Spec input), cst_Name = spec_Name (ci_Spec input), cst_Spec = Raw j,
              cst_ClaimIDs = ci_ClaimIDs input\<rparr> w = (Inr s, w'))"
  using assms by (auto simp: StrategyService_Create_def Let_def fail_def split: if_splits option.splits sum.splits)

text \<open>
  C8 What is committed is what was validated. When \<open>Create\<close> succeeds, under whatever faults, the spec
  had passed validation; the stored row is the last of the table, carries the spec's slug and name, and
  its JSON decodes to the very spec submitted, numbered with the version the row has; the numbered spec
  is still valid, and \<open>UniverseSymbols\<close>, which the API, the worker and the drafting of signals use,
  reads exactly the symbols that were validated from it. (For specs of UTF-8 strings and of numbers
  other than minus zero, which JSON reads back as zero.)
\<close>

theorem committed_spec_reads_back:
  fixes w :: "'x world_scheme"
  assumes "StrategyService_Create input w = (Inr s, w')" and "plain_spec (ci_Spec input)" and "schema_ok (w_db w)"
  shows "last (db_strategies (w_db w')) = s \<and> db_strategies (w_db w') \<noteq> []
    \<and> st_Slug s = spec_Slug (ci_Spec input) \<and> st_Name s = spec_Name (ci_Spec input)
    \<and> unmarshal (dec_struct False (spec_dec False)) zero_spec (st_Spec s)
        = Inr ((ci_Spec input)\<lparr>spec_Version := st_Version s\<rparr>)
    \<and> spec_validate ((ci_Spec input)\<lparr>spec_Version := st_Version s\<rparr>) = None
    \<and> universe_symbols (st_Spec s) = Inr (uni_Symbols (spec_Universe (ci_Spec input)))"
proof -
  from Create_Inr [OF assms(1)] obtain j where
    valid: "spec_validate ((ci_Spec input)\<lparr>spec_Version := 1\<rparr>) = None" and
    json: "spec_json ((ci_Spec input)\<lparr>spec_Version := 1\<rparr>) = Inr j" and
    run: "CreateStrategyWithCitations
       \<lparr>cst_Slug = spec_Slug (ci_Spec input), cst_Name = spec_Name (ci_Spec input), cst_Spec = Raw j,
        cst_ClaimIDs = ci_ClaimIDs input\<rparr> w = (Inr s, w')" by blast
  from run show ?thesis
  proof (cases rule: CreateStrategy_run)
    case (committed t d x)
    then have ins: "insert_strategy_stmt
       \<lparr>cst_Slug = spec_Slug (ci_Spec input), cst_Name = spec_Name (ci_Spec input), cst_Spec = Raw j,
        cst_ClaimIDs = ci_ClaimIDs input\<rparr> (w_db w) = (Inr s, d)" by simp
    from insert_strategy_Inr [OF ins] obtain b where row: "db_strategies d = db_strategies (w_db w) @ [s]"
      "st_Slug s = spec_Slug (ci_Spec input)" "st_Name s = spec_Name (ci_Spec input)"
      "st_Version s = next_version (spec_Slug (ci_Spec input)) (w_db w)" and
      stored: "jsonb_in (Raw j) = Inr b" "jsonb_set b ''version'' (JInt (st_Version s)) = Inr (st_Spec s)"
      by auto
    have "unmarshal (dec_struct False (spec_dec False)) zero_spec (st_Spec s)
        = Inr ((ci_Spec input)\<lparr>spec_Version := 1\<rparr>\<lparr>spec_Version := st_Version s\<rparr>)
      \<and> universe_symbols (st_Spec s) = Inr (uni_Symbols (spec_Universe ((ci_Spec input)\<lparr>spec_Version := 1\<rparr>)))"
      by (rule spec_reads_back [OF _ json stored insert_strategy_version [OF ins]]) (simp add: assms(2))
    moreover have "1 \<le> st_Version s"
      using next_version_pos [of "w_db w" "spec_Slug (ci_Spec input)"] assms(3) row(4) by (simp add: schema_ok_def)
    moreover have "db_strategies (w_db w') = db_strategies (w_db w) @ [s]"
      using insert_citations_Inr [OF committed(2)] row(1) by auto
    ultimately show ?thesis using row valid_version [OF valid] by simp
  qed simp
qed

section \<open>At a concrete spec\<close>

definition plain_sample :: spec where
  "plain_sample = sample_spec\<lparr>spec_Version := 7, spec_Risk :=
     \<lparr>risk_MaxPositionWeight = Fin 1, risk_TransactionCostBps = Fin 0, risk_StopLossPct = None\<rparr>\<rparr>"

definition plain_sample_json :: json where
  "plain_sample_json =
     JObject [(''slug'', JString ''momentum''), (''version'', JInt 1), (''name'', JString ''Momentum''),
       (''universe'', JObject [(''name'', JString ''core''), (''asset_class'', JString ''etf''),
          (''symbols'', JArray [JString ''SPY'', JString ''IEF''])]),
       (''selection'', JObject [(''template'', JString ''quality-trend''), (''filters'', JNull)]),
       (''rebalance'', JObject [(''schedule'', JString ''weekly'')]),
       (''risk'', JObject [(''max_position_weight'', JInt 1), (''transaction_cost_bps'', JInt 0)])]"

lemma plain_sample_plain: "plain_spec plain_sample"
proof -
  have "is_ascii ''momentum''" "is_ascii ''Momentum''" "is_ascii ''core''" "is_ascii ''etf''" "is_ascii ''SPY''"
    "is_ascii ''IEF''" "is_ascii ''quality-trend''" "is_ascii ''weekly''" by code_simp+
  moreover have "round64 0 = Fin 0" by (simp add: round64_def)
  ultimately show ?thesis
    by (simp add: plain_spec_def plain_sample_def sample_spec_def spec_filters_def json_text_def json_string_ascii
        plain_risk_def json_number_def canonical_def round64_1)
qed

lemma plain_sample_encodes: "spec_json (plain_sample\<lparr>spec_Version := 1\<rparr>) = Inr plain_sample_json"
  using plain_sample_plain
  by (simp add: spec_json_def plain_sample_def sample_spec_def plain_sample_json_def universe_json_def selection_json_def
      risk_json_def json_float_def shortest_units plain_spec_def json_text_def spec_filters_def)

lemma plain_sample_valid: "spec_validate (plain_sample\<lparr>spec_Version := 1\<rparr>) = None"
  by (simp add: spec_validate_def plain_sample_def sample_spec_def trim_space_sample slug_pattern_def symbol_pattern_def
      byte_in_def slug_char_def valid_template_def check_risk_def fless_def fleq_def spec_filters_def)

theorem committed_spec_reads_back_witness:
  "\<exists>s w'. StrategyService_Create \<lparr>ci_Spec = plain_sample, ci_ClaimIDs = [claim_id1]\<rparr> sample_world = (Inr s, w')
     \<and> universe_symbols (st_Spec s) = Inr [''SPY'', ''IEF'']"
proof -
  let ?input = "\<lparr>ci_Spec = plain_sample, ci_ClaimIDs = [claim_id1]\<rparr>"
  have "text_free_of_nul plain_sample_json" unfolding plain_sample_json_def by code_simp
  then have "jsonb_in (Raw plain_sample_json) = Inr (Raw (jsonb_of plain_sample_json))" by (simp add: jsonb_in_def)
  moreover obtain kvs where "jsonb_of plain_sample_json = JObject kvs" by (auto simp: plain_sample_json_def)
  ultimately have "returns (\<lambda>_. True) (StrategyService_Create ?input sample_world)"
    using plain_sample_valid plain_sample_encodes
    by (simp add: StrategyService_Create_def Let_def)
      (simp add: returns_def CreateStrategyWithCitations_def run_simps accepted_count_stmt_def insert_strategy_stmt_def
        insert_citations_stmt_def next_version_def jsonb_set_def int4_in_def Let_def plain_sample_def sample_spec_def
        uuid_in_samples text_in_samples sample_uuid_new new_ids_differ sample_world_def sample_rows)
  then obtain s w' where run: "StrategyService_Create ?input sample_world = (Inr s, w')"
    by (auto dest!: returnsE)
  have ok: "schema_ok (w_db sample_world)" using sample_ok by (simp add: sample_world_def)
  have "universe_symbols (st_Spec s) = Inr (uni_Symbols (spec_Universe (ci_Spec ?input)))"
    using committed_spec_reads_back [OF run _ ok] plain_sample_plain by simp
  then show ?thesis using run by (simp add: plain_sample_def sample_spec_def)
qed

end
