(* ===== verification/Paths.thy ===== *)
theory Paths
  imports GoStrings
begin

text \<open>
  \<open>path/filepath\<close> on Unix, where \<open>ToSlash\<close> and \<open>FromSlash\<close> are the identity: \<open>Clean\<close>, \<open>Join\<close>, \<open>Abs\<close>
  and \<open>Rel\<close>, and the containment check of the file stores. A path is a list of components behind
  an optional slash; \<open>Clean\<close> walks the components once.
\<close>

definition slash :: char where "slash = CHR ''/''"

fun split_slash :: "string \<Rightarrow> string list" where
  "split_slash [] = [[]]"
| "split_slash (c # s) =
     (if c = CHR ''/'' then [] # split_slash s
      else (case split_slash s of p # ps \<Rightarrow> (c # p) # ps | [] \<Rightarrow> [[c]]))"

abbreviation join_slash :: "string list \<Rightarrow> string" where
  "join_slash \<equiv> join ''/''"

definition is_abs :: "string \<Rightarrow> bool" where
  "is_abs s \<longleftrightarrow> has_prefix s ''/''"

abbreviation dotdot :: string where "dotdot \<equiv> ''..''"

text \<open>The components so far are kept reversed; \<open>..\<close> removes one, or stays at the front of a relative path.\<close>

fun clean_parts :: "bool \<Rightarrow> string list \<Rightarrow> string list \<Rightarrow> string list" where
  "clean_parts rooted acc [] = rev acc"
| "clean_parts rooted acc (p # ps) =
     (if p = [] \<or> p = ''.'' then clean_parts rooted acc ps
      else if p = dotdot then
        (case acc of
           [] \<Rightarrow> clean_parts rooted (if rooted then [] else [dotdot]) ps
         | q # qs \<Rightarrow> if q = dotdot then clean_parts rooted (dotdot # acc) ps else clean_parts rooted qs ps)
      else clean_parts rooted (p # acc) ps)"

definition parts :: "string \<Rightarrow> string list" where
  "parts s = clean_parts (is_abs s) [] (split_slash s)"

definition path_clean :: "string \<Rightarrow> string" where
  "path_clean s =
     (if is_abs s then ''/'' @ join_slash (parts s)
      else if parts s = [] then ''.'' else join_slash (parts s))"

definition path_join :: "string list \<Rightarrow> string" where
  "path_join elems =
     (case dropWhile (\<lambda>e. e = []) elems of [] \<Rightarrow> [] | es \<Rightarrow> path_clean (join_slash es))"

text \<open>\<open>filepath.Abs\<close>, given what \<open>os.Getwd\<close> returns.\<close>

definition path_abs :: "string result \<Rightarrow> string \<Rightarrow> string result" where
  "path_abs cwd s =
     (if is_abs s then Inr (path_clean s)
      else case cwd of Inl e \<Rightarrow> Inl e | Inr c \<Rightarrow> Inr (path_join [c, s]))"

text \<open>\<open>filepath.Dir\<close> of a cleaned path with at least one component.\<close>

definition path_dir :: "string \<Rightarrow> string" where
  "path_dir s =
     (if is_abs s then ''/'' @ join_slash (butlast (parts s))
      else if length (parts s) \<le> 1 then ''.'' else join_slash (butlast (parts s)))"

fun strip_common :: "string list \<Rightarrow> string list \<Rightarrow> string list \<times> string list" where
  "strip_common (a # as) (b # bs) = (if a = b then strip_common as bs else (a # as, b # bs))"
| "strip_common as bs = (as, bs)"

definition path_rel :: "string \<Rightarrow> string \<Rightarrow> string result" where
  "path_rel base targ =
     (if is_abs base \<noteq> is_abs targ then
        Inl (Errorf ''Rel: can't make %s relative to %s'' [AS targ, AS base])
      else
        let (bs, ts) = strip_common (parts base) (parts targ) in
        if bs = [] \<and> ts = [] then Inr ''.''
        else if dotdot \<in> set bs then Inl (Errorf ''Rel: can't make %s relative to %s'' [AS targ, AS base])
        else Inr (join_slash (replicate (length bs) dotdot @ ts)))"

section \<open>Components of cleaned paths\<close>

lemma split_slash_nonempty [simp]: "split_slash s \<noteq> []"
  by (induction s) (auto split: list.splits)

lemma split_slash_free: "slash \<notin> set s \<Longrightarrow> split_slash s = [s]"
  by (induction s) (auto simp: slash_def)

lemma split_slash_append:
  "slash \<notin> set p \<Longrightarrow> split_slash (p @ CHR ''/'' # s) = p # split_slash s"
  by (induction p) (auto simp: slash_def)

lemma split_slash_parts: "p \<in> set (split_slash s) \<Longrightarrow> slash \<notin> set p"
proof (induction s arbitrary: p)
  case (Cons c s)
  obtain q qs where "split_slash s = q # qs" by (metis split_slash_nonempty list.exhaust)
  then show ?case using Cons by (auto simp: slash_def split: if_splits)
qed simp

lemma split_join: "ps \<noteq> [] \<Longrightarrow> \<forall>p \<in> set ps. slash \<notin> set p \<Longrightarrow> split_slash (join_slash ps) = ps"
proof (induction "''/''" ps rule: join.induct)
  case (3 x y ys)
  then show ?case using split_slash_append [of x "join_slash (y # ys)"] by simp
qed (simp_all add: split_slash_free)

text \<open>What cleaning leaves: proper components, \<open>..\<close> only at the front of a relative path.\<close>

definition proper :: "string \<Rightarrow> bool" where
  "proper p \<longleftrightarrow> p \<noteq> [] \<and> p \<noteq> ''.'' \<and> slash \<notin> set p"

definition normal_parts :: "bool \<Rightarrow> string list \<Rightarrow> bool" where
  "normal_parts rooted ps \<longleftrightarrow>
     (\<forall>p \<in> set ps. proper p)
     \<and> (\<exists>n qs. ps = replicate n dotdot @ qs \<and> dotdot \<notin> set qs \<and> (rooted \<longrightarrow> n = 0))"

lemma proper_dotdot: "proper dotdot"
  by (simp add: proper_def slash_def)

lemma clean_parts_normal:
  assumes "\<forall>p \<in> set ps. slash \<notin> set p" and "\<forall>p \<in> set acc. proper p"
    and "acc = qs @ replicate n dotdot" and "dotdot \<notin> set qs" and "rooted \<longrightarrow> n = 0"
  shows "normal_parts rooted (clean_parts rooted acc ps)"
  using assms
proof (induction rooted acc ps arbitrary: qs n rule: clean_parts.induct)
  case (1 rooted acc)
  then show ?case by (auto simp: normal_parts_def intro!: exI [of _ n] exI [of _ "rev qs"])
next
  case (2 rooted acc p ps)
  consider "p = [] \<or> p = ''.''" | "p = dotdot" "acc = []" | q rest where "p = dotdot" "acc = q # rest"
    | "p \<noteq> []" "p \<noteq> ''.''" "p \<noteq> dotdot" by (cases acc) auto
  then show ?case
  proof cases
    case 1
    then show ?thesis using 2 by simp
  next
    case 2
    show ?thesis
    proof (cases rooted)
      case True
      then show ?thesis using "2.IH"(2) [of "[]" 0] "2.prems" 2 by simp
    next
      case False
      then show ?thesis using "2.IH"(2) [of "[]" 1] "2.prems" 2 proper_dotdot by simp
    qed
  next
    case 3
    show ?thesis
    proof (cases "q = dotdot")
      case True
      then have "qs = []" using 3(2) "2.prems"(3,4) by (cases qs) auto
      then have acc: "acc = replicate n dotdot" using "2.prems"(3) by simp
      have "\<not> rooted" using "2.prems"(5) acc 3(2) by auto
      then show ?thesis using "2.IH"(3) [of q rest "[]" "Suc n"] "2.prems"(1,2) 3 True acc proper_dotdot
        by (simp add: 3(2) [symmetric])
    next
      case False
      then have "qs \<noteq> []" using 3(2) "2.prems"(3) by (cases n) auto
      then obtain qs' where qs: "qs = q # qs'" using 3(2) "2.prems"(3) by (cases qs) auto
      then show ?thesis using "2.IH"(4) [of q rest qs' n] "2.prems" 3 False by simp
    qed
  next
    case 4
    then show ?thesis using "2.IH"(5) [of "p # qs" n] "2.prems" by (simp add: proper_def)
  qed
qed

lemma parts_normal: "normal_parts (is_abs s) (parts s)"
  unfolding parts_def by (rule clean_parts_normal [of _ _ "[]" 0]) (auto dest: split_slash_parts)

text \<open>Cleaning is idempotent on components that are already clean.\<close>

lemma clean_parts_ordinary:
  "\<forall>p \<in> set ps. p \<noteq> [] \<and> p \<noteq> ''.'' \<and> p \<noteq> dotdot \<Longrightarrow> clean_parts rooted acc ps = rev acc @ ps"
  by (induction rooted acc ps rule: clean_parts.induct) auto

lemma clean_parts_append_ordinary:
  "\<forall>p \<in> set ps. p \<noteq> [] \<and> p \<noteq> ''.'' \<and> p \<noteq> dotdot \<Longrightarrow>
     clean_parts rooted acc (qs @ ps) = clean_parts rooted acc qs @ ps"
proof (induction rooted acc qs rule: clean_parts.induct)
  case (1 rooted acc)
  then show ?case by (simp add: clean_parts_ordinary)
qed (auto split: list.split)

lemma is_abs_Cons [simp]: "is_abs (CHR ''/'' # s)"
  by (simp add: is_abs_def has_prefix_def)

lemma is_abs_iff: "is_abs s \<longleftrightarrow> (\<exists>t. s = CHR ''/'' # t)"
  by (auto simp: is_abs_def has_prefix_append)

lemma is_abs_append: "is_abs s \<Longrightarrow> is_abs (s @ t)"
  by (auto simp: is_abs_iff)

lemma split_slash_join_two: "split_slash (s @ CHR ''/'' # t) = split_slash s @ split_slash t"
proof (induction s)
  case (Cons c s)
  obtain q qs where "split_slash s = q # qs" by (metis split_slash_nonempty list.exhaust)
  then show ?case using Cons by simp
qed simp

lemma join_proper_not_abs: "\<forall>p \<in> set ps. proper p \<Longrightarrow> \<not> is_abs (join_slash ps)"
proof (induction "''/''" ps rule: join.induct)
  case (2 x)
  then show ?case by (auto simp: is_abs_iff proper_def slash_def)
next
  case (3 x y ys)
  then have "x \<noteq> []" "slash \<notin> set x" by (simp_all add: proper_def)
  then show ?case by (cases x) (auto simp: is_abs_iff slash_def)
qed (simp add: is_abs_iff)

lemma parts_relative:
  assumes "\<forall>p \<in> set ps. proper p" and "dotdot \<notin> set ps"
  shows "parts (join_slash ps) = ps"
proof (cases "ps = []")
  case True
  then show ?thesis by (simp add: parts_def)
next
  case False
  have "split_slash (join_slash ps) = ps" using False assms(1) by (intro split_join) (auto simp: proper_def)
  moreover have "\<forall>p \<in> set ps. p \<noteq> [] \<and> p \<noteq> ''.'' \<and> p \<noteq> dotdot" using assms by (auto simp: proper_def)
  ultimately show ?thesis by (simp add: parts_def clean_parts_ordinary)
qed

lemma parts_absolute:
  assumes "\<forall>p \<in> set ps. proper p" and "dotdot \<notin> set ps"
  shows "parts (''/'' @ join_slash ps) = ps"
proof (cases "ps = []")
  case True
  then show ?thesis by (simp add: parts_def)
next
  case False
  have "split_slash (join_slash ps) = ps" using False assms(1) by (intro split_join) (auto simp: proper_def)
  moreover have "\<forall>p \<in> set ps. p \<noteq> [] \<and> p \<noteq> ''.'' \<and> p \<noteq> dotdot" using assms by (auto simp: proper_def)
  ultimately show ?thesis by (simp add: parts_def clean_parts_ordinary)
qed

lemma absolute_parts: "is_abs s \<Longrightarrow> (\<forall>p \<in> set (parts s). proper p) \<and> dotdot \<notin> set (parts s)"
  using parts_normal [of s] by (auto simp: normal_parts_def)

lemma path_clean_absolute: "is_abs s \<Longrightarrow> is_abs (path_clean s) \<and> parts (path_clean s) = parts s"
  using absolute_parts [of s] parts_absolute [of "parts s"] by (simp add: path_clean_def)

text \<open>Absolute paths are known by their components once they are clean.\<close>

lemma path_clean_inj:
  assumes "is_abs s" and "is_abs t"
  shows "path_clean s = path_clean t \<longleftrightarrow> parts s = parts t"
  using path_clean_absolute [OF assms(1)] path_clean_absolute [OF assms(2)] assms
  by (metis path_clean_def)

section \<open>Paths below a root\<close>

text \<open>A clean relative path that does not start with \<open>..\<close> has no \<open>..\<close> at all.\<close>

lemma relative_parts:
  assumes "\<not> is_abs s" and "parts s = [] \<or> hd (parts s) \<noteq> dotdot"
  shows "(\<forall>p \<in> set (parts s). proper p) \<and> dotdot \<notin> set (parts s)"
proof -
  from parts_normal [of s] obtain n qs where ps: "\<forall>p \<in> set (parts s). proper p"
    "parts s = replicate n dotdot @ qs" "dotdot \<notin> set qs"
    by (auto simp: normal_parts_def)
  then have "n = 0" using assms(2) by (cases n) auto
  then show ?thesis using ps by simp
qed

lemma join_below:
  assumes "is_abs rt" and "\<forall>p \<in> set ps. proper p" and "dotdot \<notin> set ps" and "ps \<noteq> []"
  shows "is_abs (path_join [rt, join_slash ps]) \<and> parts (path_join [rt, join_slash ps]) = parts rt @ ps"
proof -
  let ?s = "rt @ ''/'' @ join_slash ps"
  have "rt \<noteq> []" using assms(1) by (auto simp: is_abs_iff)
  moreover have "join_slash ps \<noteq> []"
  proof -
    obtain x xs where "ps = x # xs" using assms(4) by (cases ps) auto
    then show ?thesis using assms(2) by (cases xs) (auto simp: proper_def)
  qed
  ultimately have joined: "path_join [rt, join_slash ps] = path_clean ?s" by (simp add: path_join_def)
  have abs: "is_abs ?s" using assms(1) by (rule is_abs_append)
  have "split_slash ?s = split_slash rt @ ps"
    using split_slash_join_two [of rt "join_slash ps"] assms split_join [of ps] by (simp add: proper_def)
  moreover have "\<forall>p \<in> set ps. p \<noteq> [] \<and> p \<noteq> ''.'' \<and> p \<noteq> dotdot" using assms(2,3) by (auto simp: proper_def)
  ultimately have "parts ?s = parts rt @ ps"
    using assms(1) abs by (simp add: parts_def clean_parts_append_ordinary)
  then show ?thesis using path_clean_absolute [OF abs] by (simp add: joined)
qed

lemma strip_common_prefix: "strip_common as (as @ bs) = ([], bs)"
  by (induction as) (cases bs, auto)

lemma path_rel_below:
  assumes "is_abs rt" and "is_abs p" and "parts p = parts rt @ ps" and "ps \<noteq> []"
  shows "path_rel rt p = Inr (join_slash ps)"
  using assms by (simp add: path_rel_def strip_common_prefix)

lemma path_abs_abs: "path_abs cwd s = Inr t \<Longrightarrow> (\<forall>c. cwd = Inr c \<longrightarrow> is_abs c) \<Longrightarrow> is_abs t"
proof (cases "is_abs s")
  case True
  then show "path_abs cwd s = Inr t \<Longrightarrow> is_abs t" using path_clean_absolute by (auto simp: path_abs_def)
next
  case False
  assume t: "path_abs cwd s = Inr t" and cwd: "\<forall>c. cwd = Inr c \<longrightarrow> is_abs c"
  with False obtain c where c: "cwd = Inr c" "t = path_join [c, s]" "is_abs c"
    by (auto simp: path_abs_def split: sum.splits)
  then have "c \<noteq> []" by (auto simp: is_abs_iff)
  then have "t = path_clean (join_slash [c, s])" using c(2) by (simp add: path_join_def)
  moreover have "is_abs (join_slash [c, s])" using c(3) by (simp add: is_abs_append)
  ultimately show "is_abs t" using path_clean_absolute by simp
qed

end
