(* ===== verification/Sha256.thy ===== *)
theory Sha256
  imports GoStrings "HOL-Library.Word"
begin

text \<open>
  \<open>crypto/sha256\<close> and \<open>encoding/hex\<close>: the checksum the stores and the snapshot service compute over
  file contents, as FIPS 180-4 defines it on 32-bit words, and its hexadecimal text.
\<close>

unbundle bit_operations_syntax

type_synonym w32 = "32 word"

section \<open>Padding\<close>

definition byte_word :: "char \<Rightarrow> w32" where
  "byte_word c = word_of_nat (code c)"

definition nat_byte :: "nat \<Rightarrow> w32" where
  "nat_byte n = word_of_nat (n mod 256)"

text \<open>The length in bits as eight bytes, most significant first.\<close>

definition length_bytes :: "nat \<Rightarrow> w32 list" where
  "length_bytes bits = map (\<lambda>k. nat_byte (bits div 256 ^ k)) (rev [0..<8])"

definition padded :: "string \<Rightarrow> w32 list" where
  "padded s =
     map byte_word s @ [0x80] @ replicate ((119 - length s mod 64) mod 64) 0 @ length_bytes (8 * length s)"

fun words_of :: "w32 list \<Rightarrow> w32 list" where
  "words_of (a # b # c # d # r) =
     (push_bit 24 a OR push_bit 16 b OR push_bit 8 c OR d) # words_of r"
| "words_of _ = []"

fun blocks_of :: "nat \<Rightarrow> w32 list \<Rightarrow> w32 list list" where
  "blocks_of 0 ws = []"
| "blocks_of (Suc n) ws = take 16 ws # blocks_of n (drop 16 ws)"

section \<open>Compression\<close>

definition rot :: "nat \<Rightarrow> w32 \<Rightarrow> w32" where
  "rot n x = drop_bit n x OR push_bit (32 - n) x"

definition Ch :: "w32 \<Rightarrow> w32 \<Rightarrow> w32 \<Rightarrow> w32" where
  "Ch x y z = (x AND y) XOR (NOT x AND z)"

definition Maj :: "w32 \<Rightarrow> w32 \<Rightarrow> w32 \<Rightarrow> w32" where
  "Maj x y z = (x AND y) XOR (x AND z) XOR (y AND z)"

definition big_sigma0 :: "w32 \<Rightarrow> w32" where "big_sigma0 x = rot 2 x XOR rot 13 x XOR rot 22 x"
definition big_sigma1 :: "w32 \<Rightarrow> w32" where "big_sigma1 x = rot 6 x XOR rot 11 x XOR rot 25 x"
definition small_sigma0 :: "w32 \<Rightarrow> w32" where "small_sigma0 x = rot 7 x XOR rot 18 x XOR drop_bit 3 x"
definition small_sigma1 :: "w32 \<Rightarrow> w32" where "small_sigma1 x = rot 17 x XOR rot 19 x XOR drop_bit 10 x"

text \<open>The first 32 bits of the fractional parts of the cube roots of the first 64 primes, in decimal.\<close>

definition round_constants :: "w32 list" where
  "round_constants =
     [1116352408, 1899447441, 3049323471, 3921009573, 961987163, 1508970993, 2453635748, 2870763221,
      3624381080, 310598401, 607225278, 1426881987, 1925078388, 2162078206, 2614888103, 3248222580,
      3835390401, 4022224774, 264347078, 604807628, 770255983, 1249150122, 1555081692, 1996064986,
      2554220882, 2821834349, 2952996808, 3210313671, 3336571891, 3584528711, 113926993, 338241895,
      666307205, 773529912, 1294757372, 1396182291, 1695183700, 1986661051, 2177026350, 2456956037,
      2730485921, 2820302411, 3259730800, 3345764771, 3516065817, 3600352804, 4094571909, 275423344,
      430227734, 506948616, 659060556, 883997877, 958139571, 1322822218, 1537002063, 1747873779,
      1955562222, 2024104815, 2227730452, 2361852424, 2428436474, 2756734187, 3204031479, 3329325298]"

text \<open>The schedule grows at its end; \<open>ws\<close> is kept reversed.\<close>

fun schedule :: "nat \<Rightarrow> w32 list \<Rightarrow> w32 list" where
  "schedule 0 ws = rev ws"
| "schedule (Suc n) ws =
     schedule n ((small_sigma1 (ws ! 1) + ws ! 6 + small_sigma0 (ws ! 14) + ws ! 15) # ws)"

record working =
  wa :: w32
  wb :: w32
  wc :: w32
  wd :: w32
  we :: w32
  wf :: w32
  wg :: w32
  wh :: w32

definition one_round :: "w32 \<times> w32 \<Rightarrow> working \<Rightarrow> working" where
  "one_round kw v =
     (let t1 = wh v + big_sigma1 (we v) + Ch (we v) (wf v) (wg v) + fst kw + snd kw;
          t2 = big_sigma0 (wa v) + Maj (wa v) (wb v) (wc v)
      in \<lparr>wa = t1 + t2, wb = wa v, wc = wb v, wd = wc v, we = wd v + t1, wf = we v, wg = wf v, wh = wg v\<rparr>)"

definition compress :: "w32 list \<Rightarrow> working \<Rightarrow> working" where
  "compress block h =
     (let v = fold one_round (zip round_constants (schedule 48 (rev block))) h
      in \<lparr>wa = wa h + wa v, wb = wb h + wb v, wc = wc h + wc v, wd = wd h + wd v,
          we = we h + we v, wf = wf h + wf v, wg = wg h + wg v, wh = wh h + wh v\<rparr>)"

definition initial_hash :: working where
  "initial_hash =
     \<lparr>wa = 1779033703, wb = 3144134277, wc = 1013904242, wd = 2773480762,
      we = 1359893119, wf = 2600822924, wg = 528734635, wh = 1541459225\<rparr>"

definition sha256_words :: "string \<Rightarrow> w32 list" where
  "sha256_words s =
     (let ws = words_of (padded s); h = fold compress (blocks_of (length ws div 16) ws) initial_hash
      in [wa h, wb h, wc h, wd h, we h, wf h, wg h, wh h])"

section \<open>Hexadecimal text\<close>

definition hex_char :: "nat \<Rightarrow> char" where
  "hex_char n = ''0123456789abcdef'' ! n"

text \<open>\<open>hex.EncodeToString\<close> of bytes.\<close>

definition hex_of_bytes :: "string \<Rightarrow> string" where
  "hex_of_bytes s = concat (map (\<lambda>c. [hex_char (code c div 16), hex_char (code c mod 16)]) s)"

definition word_bytes :: "w32 \<Rightarrow> string" where
  "word_bytes x = map (\<lambda>k. char_of (unat (drop_bit (8 * k) x) mod 256)) [3, 2, 1, 0]"

definition sha256_hex :: "string \<Rightarrow> string" where
  "sha256_hex s = hex_of_bytes (concat (map word_bytes (sha256_words s)))"

lemma hex_char_digit: "n < 16 \<Longrightarrow> byte_in 48 57 (hex_char n) \<or> byte_in 97 102 (hex_char n)"
proof -
  assume "n < 16"
  then have "n \<in> set [0..<16]" by simp
  moreover have "list_all (\<lambda>n. byte_in 48 57 (hex_char n) \<or> byte_in 97 102 (hex_char n)) [0..<16]" by code_simp
  ultimately show ?thesis by (simp only: list_all_iff)
qed

lemma hex_of_bytes_digits: "c \<in> set (hex_of_bytes s) \<Longrightarrow> byte_in 48 57 c \<or> byte_in 97 102 c"
proof -
  have "code d < 256" for d :: char by (metis of_char_mod_256 mod_less_divisor zero_less_numeral)
  then have "code d div 16 < 16" for d :: char by (simp add: div_less_iff_less_mult)
  then have "byte_in 48 57 (hex_char (code d div 16)) \<or> byte_in 97 102 (hex_char (code d div 16))" for d :: char
    by (intro hex_char_digit)
  moreover have "byte_in 48 57 (hex_char (code d mod 16)) \<or> byte_in 97 102 (hex_char (code d mod 16))" for d :: char
    by (intro hex_char_digit) simp
  ultimately show "c \<in> set (hex_of_bytes s) \<Longrightarrow> byte_in 48 57 c \<or> byte_in 97 102 c"
    unfolding hex_of_bytes_def by auto
qed

lemma length_hex_of_bytes: "length (hex_of_bytes s) = 2 * length s"
  by (induction s) (simp_all add: hex_of_bytes_def)

lemma length_sha256_hex: "length (sha256_hex s) = 64"
  by (simp add: sha256_hex_def length_hex_of_bytes sha256_words_def Let_def word_bytes_def)

lemma hex_ascii: "is_ascii (hex_of_bytes s)"
  using hex_of_bytes_digits [of _ s] by (fastforce simp: is_ascii_def list_all_iff byte_in_def)

end
