(* ===== verification/QuantWire.thy ===== *)
theory QuantWire
  imports Domain
begin

text \<open>
  What \<open>internal/quant\<close> puts on the wire to the quant service: the structs that are marshalled into the
  bodies of its three requests.
\<close>

record extraction_request =
  xr_DocumentID :: string
  xr_StorageKey :: string
  xr_EffectiveAt :: time

record wire_signal =
  ws_ClaimID :: string
  ws_Symbol :: string
  ws_Direction :: string
  ws_Confidence :: float64
  ws_EffectiveAt :: time
  ws_HorizonDays :: "int option"

record wire_backtest =
  wb_BacktestID :: string
  wb_Spec :: raw_message
  wb_SnapshotStorageKey :: string
  wb_SnapshotChecksum :: string
  wb_DocumentCutoffAt :: time
  wb_Parameters :: raw_message
  wb_Signals :: "wire_signal list"

datatype quant_request =
    ExtractClaimsRequest extraction_request
  | MarketDataRequest market_data_request
  | BacktestRequest wire_backtest

definition rawOrEmpty :: "raw_message \<Rightarrow> raw_message" where
  "rawOrEmpty value = (if value = NoBytes then Raw (JObject []) else value)"

definition claimSignals :: "claim_signal list \<Rightarrow> wire_signal list" where
  "claimSignals signals =
     map (\<lambda>s. \<lparr>ws_ClaimID = sig_ClaimID s, ws_Symbol = sig_Symbol s, ws_Direction = sig_Direction s,
       ws_Confidence = sig_Confidence s, ws_EffectiveAt = sig_EffectiveAt s, ws_HorizonDays = sig_HorizonDays s\<rparr>) signals"

definition wire_request :: "backtest_request \<Rightarrow> wire_backtest" where
  "wire_request r =
     \<lparr>wb_BacktestID = br_BacktestID r, wb_Spec = br_Spec r, wb_SnapshotStorageKey = br_SnapshotStorageKey r,
      wb_SnapshotChecksum = br_SnapshotChecksum r, wb_DocumentCutoffAt = br_DocumentCutoffAt r,
      wb_Parameters = rawOrEmpty (br_Parameters r), wb_Signals = claimSignals (br_Signals r)\<rparr>"

end
