(* ===== verification/Site.thy ===== *)
theory Site
  imports Paths Sha256 Database QuantWire
begin

text \<open>
  What the processes touch besides the database: the files of the shared volume, the operating
  system's randomness, and the quant service at the other end of HTTP. Files are keyed by their
  absolute clean path; directories are not kept, so a call that fails over one fails by the script
  of faults, which holds one entry for each system call.
\<close>

section \<open>State\<close>

text \<open>A call goes through, or fails with an error; a write fails after the given number of bytes.\<close>

datatype os_fault = Works | Breaks nat err

text \<open>
  A reply of the quant service: the bytes of its body with the JSON value they spell, and the error,
  if any, with which the connection ends before the body does.
\<close>

record quant_response =
  qr_StatusCode :: int
  qr_Status :: string
  qr_Bytes :: string
  qr_Body :: raw_message
  qr_ReadError :: "err option"

datatype quant_reply = Unreachable err | Replied quant_response

text \<open>
  \<open>s_random k\<close> is what the \<open>k\<close>-th \<open>rand.Read\<close> of 16 bytes yields and \<open>s_suffix k\<close> the \<open>k\<close>-th number
  \<open>os.CreateTemp\<close> tries; \<open>s_replies\<close> is how the service will answer, and \<open>s_sent\<close> what it was asked.
\<close>

record site = world +
  s_files :: "string \<Rightarrow> string option"
  s_cwd :: string
  s_tmpdir :: string
  s_os :: "os_fault list"
  s_random :: "nat \<Rightarrow> string"
  s_drawn :: nat
  s_suffix :: "nat \<Rightarrow> nat"
  s_tried :: nat
  s_replies :: "quant_reply list"
  s_sent :: "quant_request list"

section \<open>System calls\<close>

definition next_os :: "'x site_scheme \<Rightarrow> os_fault \<times> 'x site_scheme" where
  "next_os w = (case s_os w of [] \<Rightarrow> (Works, w) | f # fs \<Rightarrow> (f, w\<lparr>s_os := fs\<rparr>))"

text \<open>The path a name refers to, seen from the working directory.\<close>

definition place :: "string \<Rightarrow> string \<Rightarrow> string" where
  "place cwd p = (if is_abs p then path_clean p else path_join [cwd, p])"

definition os_call :: "('x site_scheme, unit) act" where
  "os_call w =
     (case next_os w of (Works, w1) \<Rightarrow> (Inr (), w1) | (Breaks n e, w1) \<Rightarrow> (Inl e, w1))"

definition set_file :: "string \<Rightarrow> string option \<Rightarrow> 'x site_scheme \<Rightarrow> 'x site_scheme" where
  "set_file p c w = w\<lparr>s_files := (s_files w)(place (s_cwd w) p := c)\<rparr>"

definition file_at :: "string \<Rightarrow> 'x site_scheme \<Rightarrow> string option" where
  "file_at p w = s_files w (place (s_cwd w) p)"

definition os_ErrNotExist :: err where "os_ErrNotExist = Sentinel ''file does not exist''"
definition os_ErrExist :: err where "os_ErrExist = Sentinel ''file already exists''"

definition MkdirAll :: "string \<Rightarrow> ('x site_scheme, unit) act" where
  "MkdirAll p = os_call"

definition Getwd :: "('x site_scheme, string) act" where
  "Getwd = and_then os_call (\<lambda>_ w. (Inr (s_cwd w), w))"

definition file_Abs :: "string \<Rightarrow> ('x site_scheme, string) act" where
  "file_Abs p = (if is_abs p then ok (path_clean p) else and_then Getwd (\<lambda>c. convert (path_abs (Inr c) p)))"

definition rand_Read :: "('x site_scheme, string) act" where
  "rand_Read = and_then os_call (\<lambda>_ w. (Inr (s_random w (s_drawn w)), w\<lparr>s_drawn := Suc (s_drawn w)\<rparr>))"

definition Remove :: "string \<Rightarrow> ('x site_scheme, unit) act" where
  "Remove p =
     and_then os_call (\<lambda>_ w.
     if file_at p w = None then (Inl (Errorf ''remove %s: %w'' [AS p, AW os_ErrNotExist]), w)
     else (Inr (), set_file p None w))"

definition Rename :: "string \<Rightarrow> string \<Rightarrow> ('x site_scheme, unit) act" where
  "Rename old new =
     and_then os_call (\<lambda>_ w.
     case file_at old w of
       None \<Rightarrow> (Inl (Errorf ''rename %s %s: %w'' [AS old, AS new, AW os_ErrNotExist]), w)
     | Some c \<Rightarrow> (Inr (), set_file new (Some c) (set_file old None w)))"

text \<open>The bytes written so far, and the error if not all of them were.\<close>

definition write_file :: "string \<Rightarrow> string \<Rightarrow> 'x site_scheme \<Rightarrow> (nat \<times> err option) \<times> 'x site_scheme" where
  "write_file p data w =
     (let content = (case file_at p w of None \<Rightarrow> [] | Some c \<Rightarrow> c)
      in case next_os w of
        (Works, w1) \<Rightarrow> ((length data, None), set_file p (Some (content @ data)) w1)
      | (Breaks n e, w1) \<Rightarrow>
          ((min n (length data), Some e), set_file p (Some (content @ take n data)) w1))"

text \<open>
  \<open>os.CreateTemp(dir, prefix + "*")\<close>: 10000 numbers are tried until the name is free; an empty
  directory is the system's directory of temporary files.
\<close>

definition join_path :: "string \<Rightarrow> string \<Rightarrow> string" where
  "join_path dir name = (if dir \<noteq> [] \<and> last dir = slash then dir @ name else dir @ slash # name)"

fun temp_tries :: "nat \<Rightarrow> string \<Rightarrow> string \<Rightarrow> ('x site_scheme, string) act" where
  "temp_tries 0 dir pre w = (Inl (Errorf ''createtemp %s: %w'' [AS (join_path dir pre @ ''*''), AW os_ErrExist]), w)"
| "temp_tries (Suc n) dir pre w =
     (let p = join_path dir (pre @ digits_of (s_suffix w (s_tried w)));
          w1 = w\<lparr>s_tried := Suc (s_tried w)\<rparr>
      in if file_at p w1 \<noteq> None then temp_tries n dir pre w1
         else and_then os_call (\<lambda>_ w2. (Inr p, set_file p (Some []) w2)) w1)"

definition CreateTemp :: "string \<Rightarrow> string \<Rightarrow> ('x site_scheme, string) act" where
  "CreateTemp dir pre w = temp_tries 10000 (if dir = [] then s_tmpdir w else dir) pre w"

text \<open>A deferred or ignored call: \<open>_ = f()\<close>, then on with \<open>g\<close>.\<close>

definition ignoring :: "('w, 'a) act \<Rightarrow> ('w, 'b) act \<Rightarrow> ('w, 'b) act" where
  "ignoring f g = attempt f (\<lambda>_. g)"

section \<open>What system calls leave alone\<close>

text \<open>Everything of the world but the files and the scripts.\<close>

definition same_store :: "'x site_scheme \<Rightarrow> 'x site_scheme \<Rightarrow> bool" where
  "same_store w w' \<longleftrightarrow>
     w_db w' = w_db w \<and> w_faults w' = w_faults w \<and> w_clock w' = w_clock w
     \<and> s_cwd w' = s_cwd w \<and> s_tmpdir w' = s_tmpdir w \<and> s_replies w' = s_replies w \<and> s_sent w' = s_sent w
     \<and> s_random w' = s_random w"

interpretation same_store: state_preorder same_store
  by unfold_locales (simp_all add: same_store_def)

named_theorems os_keeps \<open>system calls leave the tables and the connections alone\<close>

lemma same_store_set_file [simp]: "same_store w (set_file p c w') \<longleftrightarrow> same_store w w'"
  by (simp add: same_store_def set_file_def)

lemma next_os_same: "next_os w = (f, w1) \<Longrightarrow> same_store w w1 \<and> s_files w1 = s_files w"
  by (auto simp: next_os_def same_store_def split: list.splits)

lemma os_call_frame: "same_store w (snd (os_call w)) \<and> s_files (snd (os_call w)) = s_files w"
  by (auto simp: os_call_def split: prod.splits os_fault.splits dest: next_os_same)

lemma os_call_same [os_keeps]: "keeps same_store os_call"
  by (simp add: keeps_def os_call_frame)

lemma Getwd_same [os_keeps]: "keeps same_store Getwd"
  unfolding Getwd_def by (rule same_store.keeps_and_then [OF os_call_same])
    (simp add: keeps_def same_store.R_refl)

lemma keeps_convert_any: "state_preorder R \<Longrightarrow> keeps R (convert r)"
  by (simp add: keeps_def convert_def state_preorder_def)

lemma file_Abs_same [os_keeps]: "keeps same_store (file_Abs p)"
  unfolding file_Abs_def
  by (simp add: same_store.keeps_ok same_store.keeps_and_then [OF Getwd_same] keeps_convert_any
      same_store.state_preorder_axioms)

lemma rand_Read_same [os_keeps]: "keeps same_store rand_Read"
  unfolding rand_Read_def by (rule same_store.keeps_and_then [OF os_call_same])
    (simp add: keeps_def same_store_def)

lemma Remove_same [os_keeps]: "keeps same_store (Remove p)"
  unfolding Remove_def by (rule same_store.keeps_and_then [OF os_call_same])
    (simp add: keeps_def same_store.R_refl)

lemma Rename_same [os_keeps]: "keeps same_store (Rename a b)"
  unfolding Rename_def by (rule same_store.keeps_and_then [OF os_call_same])
    (simp add: keeps_def same_store.R_refl split: option.split)

lemma MkdirAll_same [os_keeps]: "keeps same_store (MkdirAll p)"
  by (simp add: MkdirAll_def os_call_same)

lemma write_file_same: "write_file p data w = (r, w') \<Longrightarrow> same_store w w'"
  by (auto simp: write_file_def Let_def split: prod.splits os_fault.splits option.splits dest: next_os_same)

lemma temp_tries_same: "keeps same_store (temp_tries n dir pre)"
  unfolding keeps_def
proof
  fix w :: "'a site_scheme"
  show "same_store w (snd (temp_tries n dir pre w))"
  proof (induction n arbitrary: w)
    case (Suc n)
    let ?w = "w\<lparr>s_tried := Suc (s_tried w)\<rparr>"
    have w: "same_store w ?w" by (simp add: same_store_def)
    have "keeps same_store (and_then os_call (\<lambda>_ w2. (Inr p, set_file p (Some []) w2)))" for p
      by (rule same_store.keeps_and_then [OF os_call_same]) (simp add: keeps_def same_store.R_refl)
    then show ?case
      using w Suc.IH [of ?w] by (auto simp: Let_def keeps_def intro: same_store.R_trans)
  qed (simp add: same_store.R_refl)
qed

lemma CreateTemp_same [os_keeps]: "keeps same_store (CreateTemp dir pre)"
  unfolding keeps_def CreateTemp_def using temp_tries_same [unfolded keeps_def] by blast

lemma ignoring_keeps: "state_preorder R \<Longrightarrow> keeps R f \<Longrightarrow> keeps R g \<Longrightarrow> keeps R (ignoring f g)"
  by (simp add: ignoring_def state_preorder.keeps_attempt)

end
