(* ===== verification/QuantClient.thy ===== *)
theory QuantClient
  imports JsonCodec Site Dates
begin

text \<open>
  \<open>internal/quant\<close>: the HTTP client of the quant service. A request is sent and recorded; the reply is
  whatever the script of replies holds next, and is read, checked and decoded as the client does it.
\<close>

definition maxResponseBytes :: nat where "maxResponseBytes = 20971520"

text \<open>
  The base address; \<open>qc_URLError\<close> is what \<open>http.NewRequest\<close> says of a URL, if it does not accept it.
\<close>

record quant_client =
  qc_baseURL :: string
  qc_URLError :: "string \<Rightarrow> err option"

definition NewClient :: "(string \<Rightarrow> err option) \<Rightarrow> string \<Rightarrow> quant_client" where
  "NewClient url_error baseURL = \<lparr>qc_baseURL = trim_right_char slash baseURL, qc_URLError = url_error\<rparr>"

section \<open>Encoding\<close>

text \<open>
  What makes \<open>json.Marshal\<close> refuse a request: a float that is not finite, an instant whose year has not
  four digits, raw JSON that is none.
\<close>

definition marshal_error :: err where "marshal_error = External ''json: unsupported value''"

definition marshals_float :: "float64 \<Rightarrow> bool" where
  "marshals_float x \<longleftrightarrow> finite_val x \<noteq> None"

definition marshals_time :: "time \<Rightarrow> bool" where
  "marshals_time t \<longleftrightarrow> midnight 0 1 1 \<le> t \<and> t < midnight 10000 1 1"

definition marshals_raw :: "raw_message \<Rightarrow> bool" where
  "marshals_raw m \<longleftrightarrow> (case m of NotJson s \<Rightarrow> False | _ \<Rightarrow> True)"

definition marshals_signal :: "wire_signal \<Rightarrow> bool" where
  "marshals_signal s \<longleftrightarrow> marshals_float (ws_Confidence s) \<and> marshals_time (ws_EffectiveAt s)"

definition marshals :: "quant_request \<Rightarrow> bool" where
  "marshals request \<longleftrightarrow>
     (case request of
        ExtractClaimsRequest r \<Rightarrow> marshals_time (xr_EffectiveAt r)
      | MarketDataRequest r \<Rightarrow> True
      | BacktestRequest r \<Rightarrow>
          marshals_raw (wb_Spec r) \<and> marshals_time (wb_DocumentCutoffAt r) \<and> marshals_raw (wb_Parameters r)
          \<and> list_all marshals_signal (wb_Signals r))"

section \<open>A round trip\<close>

definition http_do :: "quant_request \<Rightarrow> ('x site_scheme, quant_response) act" where
  "http_do request w =
     (let w1 = w\<lparr>s_sent := s_sent w @ [request]\<rparr>
      in case s_replies w of
        [] \<Rightarrow> (Inl (External ''connection refused''), w1)
      | reply # rest \<Rightarrow>
          (case reply of
             Unreachable e \<Rightarrow> (Inl e, w1\<lparr>s_replies := rest\<rparr>)
           | Replied response \<Rightarrow> (Inr response, w1\<lparr>s_replies := rest\<rparr>)))"

text \<open>
  The messages of one endpoint: the encoding, the request, the call, the reading, the size, the status.
  \<open>io.ReadAll\<close> of the limited body fails only when the connection ends before the limit.
\<close>

record endpoint =
  ep_path :: string
  ep_encode :: string
  ep_create :: string
  ep_call :: string
  ep_read :: string
  ep_size :: string
  ep_status :: string
  ep_decode :: string

definition read_reply :: "endpoint \<Rightarrow> quant_response \<Rightarrow> raw_message result" where
  "read_reply ep response =
     (if length (qr_Bytes response) > maxResponseBytes then Inl (Errorf (ep_size ep) [])
      else case qr_ReadError response of
        Some e \<Rightarrow> Inl (Errorf (ep_read ep) [AW e])
      | None \<Rightarrow>
          if qr_StatusCode response < 200 \<or> 300 \<le> qr_StatusCode response
          then Inl (Errorf (ep_status ep) [AS (qr_Status response), AS (trim_space (qr_Bytes response))])
          else Inr (qr_Body response))"

definition call_quant ::
    "quant_client \<Rightarrow> endpoint \<Rightarrow> quant_request \<Rightarrow> 'r field \<Rightarrow> 'r \<Rightarrow> ('x site_scheme, 'r) act" where
  "call_quant client ep request dec zero =
     (if \<not> marshals request then fail (Errorf (ep_encode ep) [AW marshal_error])
      else case qc_URLError client (qc_baseURL client @ ep_path ep) of
        Some e \<Rightarrow> fail (Errorf (ep_create ep) [AW e])
      | None \<Rightarrow>
          and_then (wrapping (ep_call ep) [] (http_do request)) (\<lambda>response.
          case read_reply ep response of
            Inl e \<Rightarrow> fail e
          | Inr body \<Rightarrow>
              (case unmarshal dec zero body of
                 Inl e \<Rightarrow> fail (Errorf (ep_decode ep) [AW e])
               | Inr result \<Rightarrow> ok result)))"

section \<open>Extraction\<close>

record extraction_page =
  xp_PageNumber :: int
  xp_Content :: string

record extraction_claim =
  xc_PageNumber :: int
  xc_Ticker :: "string option"
  xc_Claim :: string
  xc_EvidenceQuote :: string
  xc_ClaimKind :: string
  xc_Direction :: string
  xc_HorizonDays :: "int option"
  xc_Confidence :: float64
  xc_EffectiveAt :: time

record extraction_response =
  xs_Pages :: "extraction_page list"
  xs_Claims :: "extraction_claim list"

definition extraction_page_dec :: "(string \<times> extraction_page field) list" where
  "extraction_page_dec =
     [(''page_number'', dec_int (\<lambda>n r. r\<lparr>xp_PageNumber := n\<rparr>)), (''content'', dec_string (\<lambda>s r. r\<lparr>xp_Content := s\<rparr>))]"

definition zero_extraction_page :: extraction_page where
  "zero_extraction_page = \<lparr>xp_PageNumber = 0, xp_Content = []\<rparr>"

definition extraction_claim_dec :: "(string \<times> extraction_claim field) list" where
  "extraction_claim_dec =
     [(''page_number'', dec_int (\<lambda>n r. r\<lparr>xc_PageNumber := n\<rparr>)),
      (''ticker'', dec_pointer dec_string (\<lambda>s r. r\<lparr>xc_Ticker := s\<rparr>)),
      (''claim'', dec_string (\<lambda>s r. r\<lparr>xc_Claim := s\<rparr>)),
      (''evidence_quote'', dec_string (\<lambda>s r. r\<lparr>xc_EvidenceQuote := s\<rparr>)),
      (''claim_kind'', dec_string (\<lambda>s r. r\<lparr>xc_ClaimKind := s\<rparr>)),
      (''direction'', dec_string (\<lambda>s r. r\<lparr>xc_Direction := s\<rparr>)),
      (''horizon_days'', dec_pointer dec_int (\<lambda>n r. r\<lparr>xc_HorizonDays := n\<rparr>)),
      (''confidence'', dec_float (\<lambda>x r. r\<lparr>xc_Confidence := x\<rparr>)),
      (''effective_at'', dec_time (\<lambda>t r. r\<lparr>xc_EffectiveAt := t\<rparr>))]"

definition zero_extraction_claim :: extraction_claim where
  "zero_extraction_claim =
     \<lparr>xc_PageNumber = 0, xc_Ticker = None, xc_Claim = [], xc_EvidenceQuote = [], xc_ClaimKind = [], xc_Direction = [],
      xc_HorizonDays = None, xc_Confidence = fzero, xc_EffectiveAt = 0\<rparr>"

definition extraction_response_dec :: "(string \<times> extraction_response field) list" where
  "extraction_response_dec =
     [(''pages'', dec_slice (dec_elem (dec_struct False extraction_page_dec) zero_extraction_page)
        (\<lambda>ps r. r\<lparr>xs_Pages := items ps\<rparr>)),
      (''claims'', dec_slice (dec_elem (dec_struct False extraction_claim_dec) zero_extraction_claim)
        (\<lambda>cs r. r\<lparr>xs_Claims := items cs\<rparr>))]"

definition extract_endpoint :: endpoint where
  "extract_endpoint =
     \<lparr>ep_path = ''/v1/extract-claims'', ep_encode = ''encode extraction request: %w'',
      ep_create = ''create extraction request: %w'', ep_call = ''call quant extraction service: %w'',
      ep_read = ''read extraction response: %w'', ep_size = ''extraction response exceeds size limit'',
      ep_status = ''quant extraction service returned %s: %s'', ep_decode = ''decode extraction response: %w''\<rparr>"

definition domain_extraction :: "extraction_response \<Rightarrow> extraction" where
  "domain_extraction r =
     \<lparr>ex_Pages = map (\<lambda>p. \<lparr>page_Number = xp_PageNumber p, page_Content = xp_Content p\<rparr>) (xs_Pages r),
      ex_Claims = map (\<lambda>c. \<lparr>cl_PageNumber = xc_PageNumber c, cl_Ticker = xc_Ticker c, cl_Kind = xc_ClaimKind c,
        cl_Direction = xc_Direction c, cl_Text = xc_Claim c, cl_EvidenceQuote = xc_EvidenceQuote c,
        cl_HorizonDays = xc_HorizonDays c, cl_Confidence = xc_Confidence c, cl_EffectiveAt = xc_EffectiveAt c\<rparr>)
        (xs_Claims r)\<rparr>"

definition ExtractClaims :: "quant_client \<Rightarrow> document \<Rightarrow> ('x site_scheme, extraction) act" where
  "ExtractClaims client x =
     (let effectiveAt = (case doc_SourcePublishedAt x of None \<Rightarrow> doc_UploadedAt x | Some t \<Rightarrow> t)
      in and_then (call_quant client extract_endpoint
           (ExtractClaimsRequest \<lparr>xr_DocumentID = doc_ID x, xr_StorageKey = doc_StorageKey x, xr_EffectiveAt = effectiveAt\<rparr>)
           (dec_struct False extraction_response_dec) \<lparr>xs_Pages = [], xs_Claims = []\<rparr>) (\<lambda>result.
         case extraction_validate (domain_extraction result) of
           Some e \<Rightarrow> fail (Errorf ''validate extraction response: %w'' [AW e])
         | None \<Rightarrow> ok (domain_extraction result)))"

section \<open>Market data\<close>

definition bar_dec :: "(string \<times> bar field) list" where
  "bar_dec =
     [(''symbol'', dec_string (\<lambda>s b. b\<lparr>bar_Symbol := s\<rparr>)), (''date'', dec_string (\<lambda>s b. b\<lparr>bar_Date := s\<rparr>)),
      (''open'', dec_float (\<lambda>x b. b\<lparr>bar_Open := x\<rparr>)), (''high'', dec_float (\<lambda>x b. b\<lparr>bar_High := x\<rparr>)),
      (''low'', dec_float (\<lambda>x b. b\<lparr>bar_Low := x\<rparr>)), (''close'', dec_float (\<lambda>x b. b\<lparr>bar_Close := x\<rparr>)),
      (''adj_close'', dec_float (\<lambda>x b. b\<lparr>bar_AdjClose := x\<rparr>)), (''volume'', dec_int (\<lambda>n b. b\<lparr>bar_Volume := n\<rparr>))]"

definition zero_bar :: bar where
  "zero_bar = \<lparr>bar_Symbol = [], bar_Date = [], bar_Open = fzero, bar_High = fzero, bar_Low = fzero, bar_Close = fzero,
     bar_AdjClose = fzero, bar_Volume = 0\<rparr>"

definition market_data_dec :: "(string \<times> market_data_result field) list" where
  "market_data_dec =
     [(''provider'', dec_string (\<lambda>s r. r\<lparr>mres_Provider := s\<rparr>)),
      (''bars'', dec_slice (dec_elem (dec_struct False bar_dec) zero_bar) (\<lambda>bs r. r\<lparr>mres_Bars := items bs\<rparr>)),
      (''retrieved_at'', dec_time (\<lambda>t r. r\<lparr>mres_RetrievedAt := t\<rparr>))]"

definition market_data_endpoint :: endpoint where
  "market_data_endpoint =
     \<lparr>ep_path = ''/v1/market-data'', ep_encode = ''encode market data request: %w'',
      ep_create = ''create market data request: %w'', ep_call = ''call quant market data service: %w'',
      ep_read = ''read market data response: %w'', ep_size = ''market data response exceeds size limit'',
      ep_status = ''quant market data service returned %s: %s'', ep_decode = ''decode market data response: %w''\<rparr>"

definition FetchMarketData :: "quant_client \<Rightarrow> market_data_request \<Rightarrow> ('x site_scheme, market_data_result) act" where
  "FetchMarketData client request =
     call_quant client market_data_endpoint (MarketDataRequest request) (dec_struct False market_data_dec)
       \<lparr>mres_Provider = [], mres_Bars = [], mres_RetrievedAt = 0\<rparr>"

section \<open>Backtests\<close>

record wire_candidate_set =
  wc_AsOf :: string
  wc_Positions :: "candidate_position list"

record backtest_response =
  bt_Summary :: raw_message
  bt_EquityCurveCSV :: string
  bt_Checksum :: string
  bt_EngineVersion :: string
  bt_Candidates :: wire_candidate_set

definition candidate_evidence_dec :: "(string \<times> candidate_evidence field) list" where
  "candidate_evidence_dec =
     [(''claim_id'', dec_string (\<lambda>s e. e\<lparr>ev_ClaimID := s\<rparr>)),
      (''contribution'', dec_float (\<lambda>x e. e\<lparr>ev_Contribution := x\<rparr>))]"

definition candidate_position_dec :: "(string \<times> candidate_position field) list" where
  "candidate_position_dec =
     [(''symbol'', dec_string (\<lambda>s p. p\<lparr>cp_Symbol := s\<rparr>)), (''rank'', dec_int (\<lambda>n p. p\<lparr>cp_Rank := n\<rparr>)),
      (''weight'', dec_float (\<lambda>x p. p\<lparr>cp_Weight := x\<rparr>)), (''score'', dec_float (\<lambda>x p. p\<lparr>cp_Score := x\<rparr>)),
      (''momentum'', dec_float (\<lambda>x p. p\<lparr>cp_Momentum := x\<rparr>)),
      (''momentum_rank'', dec_float (\<lambda>x p. p\<lparr>cp_MomentumRank := x\<rparr>)),
      (''claim_support'', dec_float (\<lambda>x p. p\<lparr>cp_ClaimSupport := x\<rparr>)),
      (''evidence'', dec_slice (dec_elem (dec_struct False candidate_evidence_dec) \<lparr>ev_ClaimID = [], ev_Contribution = fzero\<rparr>)
        (\<lambda>es p. p\<lparr>cp_Evidence := items es\<rparr>))]"

definition zero_position :: candidate_position where
  "zero_position = \<lparr>cp_Symbol = [], cp_Rank = 0, cp_Weight = fzero, cp_Score = fzero, cp_Momentum = fzero,
     cp_MomentumRank = fzero, cp_ClaimSupport = fzero, cp_Evidence = []\<rparr>"

definition candidate_set_dec :: "(string \<times> wire_candidate_set field) list" where
  "candidate_set_dec =
     [(''as_of'', dec_string (\<lambda>s r. r\<lparr>wc_AsOf := s\<rparr>)),
      (''positions'', dec_slice (dec_elem (dec_struct False candidate_position_dec) zero_position)
        (\<lambda>ps r. r\<lparr>wc_Positions := items ps\<rparr>))]"

definition backtest_response_dec :: "(string \<times> backtest_response field) list" where
  "backtest_response_dec =
     [(''summary'', dec_raw (\<lambda>m r. r\<lparr>bt_Summary := m\<rparr>)),
      (''equity_curve_csv'', dec_string (\<lambda>s r. r\<lparr>bt_EquityCurveCSV := s\<rparr>)),
      (''checksum'', dec_string (\<lambda>s r. r\<lparr>bt_Checksum := s\<rparr>)),
      (''engine_version'', dec_string (\<lambda>s r. r\<lparr>bt_EngineVersion := s\<rparr>)),
      (''candidates'', dec_within (dec_struct False candidate_set_dec) bt_Candidates (\<lambda>c r. r\<lparr>bt_Candidates := c\<rparr>))]"

definition zero_backtest_response :: backtest_response where
  "zero_backtest_response = \<lparr>bt_Summary = NoBytes, bt_EquityCurveCSV = [], bt_Checksum = [], bt_EngineVersion = [],
     bt_Candidates = \<lparr>wc_AsOf = [], wc_Positions = []\<rparr>\<rparr>"

text \<open>\<open>candidateSet.decode\<close>: the first piece of evidence without a claim id stops it.\<close>

definition decode_as_of :: "string \<Rightarrow> time result" where
  "decode_as_of s =
     (if s = [] then Inr 0
      else case parse_date s of
        None \<Rightarrow> Inl (Errorf ''decode candidate as_of: %w'' [AW (External ''parsing time'')])
      | Some t \<Rightarrow> Inr t)"

definition decode_positions :: "candidate_position list \<Rightarrow> candidate_position list result" where
  "decode_positions =
     all_in (\<lambda>p. if list_ex (\<lambda>e. ev_ClaimID e = []) (cp_Evidence p)
       then Inl (Errorf ''candidate %s cites an unidentified claim'' [AS (cp_Symbol p)]) else Inr p)"

definition decode_candidates :: "wire_candidate_set \<Rightarrow> candidate_set result" where
  "decode_candidates s =
     (case decode_as_of (wc_AsOf s) of
        Inl e \<Rightarrow> Inl e
      | Inr as_of \<Rightarrow>
          (case decode_positions (wc_Positions s) of
             Inl e \<Rightarrow> Inl e
           | Inr positions \<Rightarrow>
               (let decoded = \<lparr>cs_AsOf = as_of, cs_Positions = positions\<rparr>
                in case candidate_set_validate decoded of
                  Some e \<Rightarrow> Inl (Errorf ''quant backtest service returned invalid candidates: %w'' [AW e])
                | None \<Rightarrow> Inr decoded)))"

definition backtest_endpoint :: endpoint where
  "backtest_endpoint =
     \<lparr>ep_path = ''/v1/backtests'', ep_encode = ''encode backtest request: %w'',
      ep_create = ''create backtest request: %w'', ep_call = ''call quant backtest service: %w'',
      ep_read = ''read backtest response: %w'', ep_size = ''backtest response exceeds size limit'',
      ep_status = ''quant backtest service returned %s: %s'', ep_decode = ''decode backtest response: %w''\<rparr>"

definition RunBacktest :: "quant_client \<Rightarrow> backtest_request \<Rightarrow> ('x site_scheme, backtest_result) act" where
  "RunBacktest client request =
     and_then (call_quant client backtest_endpoint (BacktestRequest (wire_request request))
       (dec_struct False backtest_response_dec) zero_backtest_response) (\<lambda>result.
     if length (bt_Checksum result) \<noteq> 64 \<or> bt_EngineVersion result = [] \<or> bt_EquityCurveCSV result = []
     then fail (Errorf ''quant backtest service returned an invalid result'' [])
     else case decode_candidates (bt_Candidates result) of
       Inl e \<Rightarrow> fail e
     | Inr candidates \<Rightarrow> ok
         \<lparr>res_Summary = bt_Summary result, res_EquityCurveCSV = bt_EquityCurveCSV result,
          res_ResultChecksum = bt_Checksum result, res_EngineVersion = bt_EngineVersion result,
          res_Candidates = candidates\<rparr>)"

section \<open>What a call leaves alone\<close>

text \<open>A call consumes replies and is recorded at most once; nothing else of the world changes.\<close>

definition only_asks :: "quant_request \<Rightarrow> 'x site_scheme \<Rightarrow> 'x site_scheme \<Rightarrow> bool" where
  "only_asks request w w' \<longleftrightarrow>
     (\<exists>sent replies. set sent \<subseteq> {request} \<and> w' = w\<lparr>s_sent := s_sent w @ sent, s_replies := replies\<rparr>)"

lemma http_do_asks: "only_asks request w (snd (http_do request w))"
proof -
  have "\<exists>replies. snd (http_do request w) = w\<lparr>s_sent := s_sent w @ [request], s_replies := replies\<rparr>"
  proof (cases "s_replies w")
    case Nil
    then show ?thesis by (intro exI [of _ "[]"]) (simp add: http_do_def)
  next
    case (Cons reply rest)
    then show ?thesis by (intro exI [of _ rest]) (simp add: http_do_def Let_def split: quant_reply.split)
  qed
  then show ?thesis unfolding only_asks_def by (metis order_refl set_simps)
qed

lemma only_asks_refl: "only_asks request w w"
  unfolding only_asks_def by (intro exI [of _ "[]"] exI [of _ "s_replies w"]) simp

lemma call_quant_asks: "call_quant client ep request dec zero w = (r, w') \<Longrightarrow> only_asks request w w'"
  using http_do_asks [of request w] only_asks_refl [of request w]
  by (auto simp: call_quant_def and_then_def wrapping_def fail_def ok_def
      split: if_splits option.splits sum.splits prod.splits)

lemma ExtractClaims_asks:
  assumes "ExtractClaims client x w = (r, w')"
  shows "\<exists>x. only_asks (ExtractClaimsRequest x) w w'"
proof -
  let ?request = "ExtractClaimsRequest \<lparr>xr_DocumentID = doc_ID x, xr_StorageKey = doc_StorageKey x,
    xr_EffectiveAt = (case doc_SourcePublishedAt x of None \<Rightarrow> doc_UploadedAt x | Some t \<Rightarrow> t)\<rparr>"
  obtain c w1 where c: "call_quant client extract_endpoint ?request (dec_struct False extraction_response_dec)
      \<lparr>xs_Pages = [], xs_Claims = []\<rparr> w = (c, w1)" by fastforce
  have "w' = w1"
    using assms c by (auto simp: ExtractClaims_def Let_def and_then_def fail_def ok_def split: sum.splits option.splits)
  then show ?thesis using call_quant_asks [OF c] by blast
qed

lemma FetchMarketData_asks: "FetchMarketData client request w = (r, w') \<Longrightarrow> only_asks (MarketDataRequest request) w w'"
  unfolding FetchMarketData_def by (rule call_quant_asks)

lemma RunBacktest_asks:
  assumes "RunBacktest client request w = (r, w')"
  shows "only_asks (BacktestRequest (wire_request request)) w w'"
proof -
  obtain c w1 where c: "call_quant client backtest_endpoint (BacktestRequest (wire_request request))
      (dec_struct False backtest_response_dec) zero_backtest_response w = (c, w1)" by fastforce
  have "w' = w1"
    using assms c by (auto simp: RunBacktest_def and_then_def fail_def ok_def split: sum.splits if_splits)
  then show ?thesis using call_quant_asks [OF c] by blast
qed

section \<open>What a decoded answer satisfies\<close>

lemma ExtractClaims_valid: "ExtractClaims client x w = (Inr e, w') \<Longrightarrow> extraction_validate e = None"
  by (auto simp: ExtractClaims_def Let_def and_then_def fail_def ok_def split: sum.splits option.splits prod.splits)

lemma RunBacktest_valid:
  assumes "RunBacktest client request w = (Inr result, w')"
  shows "candidate_set_validate (res_Candidates result) = None \<and> length (res_ResultChecksum result) = 64
    \<and> res_EngineVersion result \<noteq> [] \<and> res_EquityCurveCSV result \<noteq> []
    \<and> (\<forall>p \<in> set (cs_Positions (res_Candidates result)). \<forall>e \<in> set (cp_Evidence p). ev_ClaimID e \<noteq> [])"
proof -
  have decoded: "candidate_set_validate c = None \<and> (\<forall>p \<in> set (cs_Positions c). \<forall>e \<in> set (cp_Evidence p). ev_ClaimID e \<noteq> [])"
    if dec: "decode_candidates s = Inr c" for s c
  proof -
    obtain t ps where *: "decode_positions (wc_Positions s) = Inr ps" "c = \<lparr>cs_AsOf = t, cs_Positions = ps\<rparr>"
      "candidate_set_validate c = None"
      using dec by (auto simp: decode_candidates_def Let_def split: sum.splits option.splits)
    have "list_all2 (\<lambda>p q. \<not> list_ex (\<lambda>e. ev_ClaimID e = []) (cp_Evidence p) \<and> q = p) (wc_Positions s) ps"
      using *(1) unfolding decode_positions_def all_in_Inr by (rule list_all2_mono) (simp split: if_splits)
    then have "\<forall>p \<in> set ps. \<not> list_ex (\<lambda>e. ev_ClaimID e = []) (cp_Evidence p)"
      by (induction rule: list_all2_induct) simp_all
    then show ?thesis using *(2,3) by (simp add: list_ex_iff)
  qed
  show ?thesis
    using assms decoded
    by (auto simp: RunBacktest_def and_then_def fail_def ok_def split: sum.splits if_splits prod.splits)
qed

end
