(* ===== verification/FileStores.thy ===== *)
theory FileStores
  imports Site Domain
begin

text \<open>
  The three stores of files: \<open>documents.FileStore\<close> for uploads, \<open>marketdata.SnapshotStore\<close> and
  \<open>backtests.ArtifactStore\<close> for what the worker writes. Each turns a storage key into a path below its
  root and puts a file there by writing a temporary one and renaming it.
\<close>

section \<open>Reading an upload\<close>

text \<open>
  An \<open>io.Reader\<close>: the bytes still to come, how many of them each \<open>Read\<close> hands out (at least one, at most
  the buffer, the whole buffer when nothing is said), and the error it ends with instead of \<open>io.EOF\<close>.
\<close>

record reader =
  rd_Bytes :: string
  rd_Sizes :: "nat list"
  rd_Error :: "err option"

definition read_some :: "nat \<Rightarrow> reader \<Rightarrow> string \<times> reader" where
  "read_some n r =
     (let k = min n (case rd_Sizes r of [] \<Rightarrow> n | s # ss \<Rightarrow> max 1 s)
      in (take k (rd_Bytes r), r\<lparr>rd_Bytes := drop k (rd_Bytes r), rd_Sizes := tl (rd_Sizes r)\<rparr>))"

lemma read_some_rest:
  "rd_Bytes r = fst (read_some n r) @ rd_Bytes (snd (read_some n r))
   \<and> rd_Error (snd (read_some n r)) = rd_Error r"
  by (simp add: read_some_def Let_def)

lemma read_some_bounds:
  "0 < n \<Longrightarrow> rd_Bytes r \<noteq> [] \<Longrightarrow> 0 < length (fst (read_some n r)) \<and> length (fst (read_some n r)) \<le> n"
  by (auto simp: read_some_def Let_def split: list.splits)

text \<open>\<open>io.ReadFull\<close> into a buffer of \<open>n\<close> bytes; \<open>None\<close> when the source ends first.\<close>

function read_full :: "nat \<Rightarrow> reader \<Rightarrow> string option \<times> reader" where
  "read_full n r =
     (if n = 0 then (Some [], r)
      else if rd_Bytes r = [] then (None, r)
      else case read_some n r of
        (chunk, r1) \<Rightarrow> (case read_full (n - length chunk) r1 of (rest, r2) \<Rightarrow> (map_option (\<lambda>s. chunk @ s) rest, r2)))"
  by pat_completeness auto
termination
proof (relation "measure fst", goal_cases)
  case (2 n r)
  then show ?case using read_some_bounds [of n r] by (cases "read_some n r") auto
qed simp

declare read_full.simps [simp del]

section \<open>documents/storage.go\<close>

definition ErrFileTooLarge :: err where
  "ErrFileTooLarge = Sentinel ''uploaded file exceeds the configured size limit''"

definition ErrInvalidPDF :: err where
  "ErrInvalidPDF = Sentinel ''uploaded file is not a PDF''"

record stored_file =
  sf_StorageKey :: string
  sf_SHA256 :: string
  sf_SizeBytes :: int

record file_store =
  fs_Root :: string
  fs_MaxBytes :: int

text \<open>Arithmetic on \<open>int64\<close> wraps.\<close>

definition int64 :: "int \<Rightarrow> int" where
  "int64 n = (n + 2 ^ 63) mod 2 ^ 64 - 2 ^ 63"

text \<open>\<open>limitedWriter\<close> over \<open>io.MultiWriter(temporary, hash)\<close>: the file's path and the bytes hashed so far.\<close>

record limited_writer =
  lw_path :: string
  lw_hash :: string
  lw_limit :: int
  lw_size :: int

definition multi_write :: "string \<Rightarrow> limited_writer \<Rightarrow> 'x site_scheme \<Rightarrow> (nat \<times> err option \<times> limited_writer) \<times> 'x site_scheme" where
  "multi_write data lw w =
     (case write_file (lw_path lw) data w of
        ((n, Some e), w1) \<Rightarrow> ((n, Some e, lw), w1)
      | ((n, None), w1) \<Rightarrow> ((n, None, lw\<lparr>lw_hash := lw_hash lw @ data\<rparr>), w1))"

definition lw_write :: "string \<Rightarrow> limited_writer \<Rightarrow> 'x site_scheme \<Rightarrow> (nat \<times> err option \<times> limited_writer) \<times> 'x site_scheme" where
  "lw_write data lw w =
     (if int64 (lw_size lw + int (length data)) > lw_limit lw then
        let remaining = int64 (lw_limit lw - lw_size lw) in
        if remaining > 0 then
          (case multi_write (take (nat remaining) data) lw w of
             ((n, e, lw1), w1) \<Rightarrow>
               let lw2 = lw1\<lparr>lw_size := int64 (lw_size lw + int n)\<rparr> in
               if e \<noteq> None then ((n, e, lw2), w1) else ((length data, Some ErrFileTooLarge, lw2), w1))
        else ((length data, Some ErrFileTooLarge, lw), w)
      else
        (case multi_write data lw w of
           ((n, e, lw1), w1) \<Rightarrow> ((n, e, lw1\<lparr>lw_size := int64 (lw_size lw + int n)\<rparr>), w1)))"

text \<open>\<open>io.Copy\<close> with its buffer of 32 KiB.\<close>

definition copy_buffer :: nat where "copy_buffer = 32768"

function io_copy ::
    "reader \<Rightarrow> limited_writer \<Rightarrow> 'x site_scheme \<Rightarrow> (err option \<times> limited_writer) \<times> 'x site_scheme" where
  "io_copy r lw w =
     (if rd_Bytes r = [] then ((rd_Error r, lw), w)
      else case lw_write (fst (read_some copy_buffer r)) lw w of
        ((n, Some e, lw1), w1) \<Rightarrow> ((Some e, lw1), w1)
      | ((n, None, lw1), w1) \<Rightarrow> io_copy (snd (read_some copy_buffer r)) lw1 w1)"
  by pat_completeness auto
termination
proof (relation "measure (\<lambda>(r, lw, w). length (rd_Bytes r))", goal_cases)
  case (2 r)
  then have "0 < length (fst (read_some copy_buffer r))"
    using read_some_bounds [of copy_buffer r] by (simp add: copy_buffer_def)
  moreover have "length (rd_Bytes r) = length (fst (read_some copy_buffer r)) + length (rd_Bytes (snd (read_some copy_buffer r)))"
    using read_some_rest [of r copy_buffer] by (metis length_append)
  ultimately have "length (rd_Bytes (snd (read_some copy_buffer r))) < length (rd_Bytes r)" by linarith
  then show ?case by simp
qed simp

declare io_copy.simps [simp del]

definition randomName :: "('x site_scheme, string) act" where
  "randomName = and_then rand_Read (\<lambda>bytes. ok (hex_of_bytes bytes))"

definition FileStore_pathFor :: "file_store \<Rightarrow> string \<Rightarrow> ('x site_scheme, string) act" where
  "FileStore_pathFor store storage_key =
     (let clean_key = path_clean storage_key in
      if clean_key = ''.'' \<or> is_abs clean_key \<or> clean_key = dotdot \<or> has_prefix clean_key ''../''
      then fail (Errorf ''invalid document storage key'' [])
      else
        and_then (wrapping ''resolve document storage root: %w'' [] (file_Abs (fs_Root store))) (\<lambda>rt.
        and_then (wrapping ''resolve document storage path: %w'' [] (file_Abs (path_join [rt, clean_key]))) (\<lambda>path.
        case path_rel rt path of
          Inl e \<Rightarrow> fail (Errorf ''document storage key escapes root'' [])
        | Inr relative \<Rightarrow>
            if relative = dotdot \<or> has_prefix relative ''../''
            then fail (Errorf ''document storage key escapes root'' [])
            else ok path)))"

text \<open>The part of \<open>Save\<close> between the creation of the temporary file and its renaming.\<close>

definition pdf_magic :: string where "pdf_magic = ''%PDF-''"

definition write_header :: "string \<Rightarrow> limited_writer \<Rightarrow> ('x site_scheme, limited_writer) act" where
  "write_header header lw w =
     (case lw_write header lw w of
        ((n, None, lw1), w1) \<Rightarrow> (Inr lw1, w1)
      | ((n, Some e, lw1), w1) \<Rightarrow> ignoring os_call (fail e) w1)"

definition write_rest :: "reader \<Rightarrow> limited_writer \<Rightarrow> ('x site_scheme, limited_writer) act" where
  "write_rest source lw w =
     (case io_copy source lw w of
        ((None, lw1), w1) \<Rightarrow> (Inr lw1, w1)
      | ((Some e, lw1), w1) \<Rightarrow>
          ignoring os_call
            (if errors_is e ErrFileTooLarge then fail ErrFileTooLarge
             else fail (Errorf ''write document: %w'' [AW e])) w1)"

definition write_upload :: "file_store \<Rightarrow> reader \<Rightarrow> string \<Rightarrow> ('x site_scheme, limited_writer) act" where
  "write_upload store source temporary =
     (case read_full (length pdf_magic) source of
        (None, rest) \<Rightarrow> ignoring os_call (fail ErrInvalidPDF)
      | (Some header, rest) \<Rightarrow>
          if header \<noteq> pdf_magic then ignoring os_call (fail ErrInvalidPDF)
          else
            and_then (write_header header
              \<lparr>lw_path = temporary, lw_hash = [], lw_limit = fs_MaxBytes store, lw_size = 0\<rparr>) (\<lambda>lw.
            write_rest rest lw))"

definition store_upload :: "file_store \<Rightarrow> reader \<Rightarrow> string \<Rightarrow> ('x site_scheme, stored_file) act" where
  "store_upload store source temporary =
     and_then (write_upload store source temporary) (\<lambda>lw.
     and_then (wrapping ''close temporary document: %w'' [] os_call) (\<lambda>_.
     and_then (wrapping ''generate storage key: %w'' [] randomName) (\<lambda>name.
     let storage_key = path_join [''documents'', name @ ''.pdf''] in
     and_then (FileStore_pathFor store storage_key) (\<lambda>destination.
     and_then (wrapping ''create document directory: %w'' [] (MkdirAll (path_dir destination))) (\<lambda>_.
     and_then (wrapping ''store document: %w'' [] (Rename temporary destination)) (\<lambda>_.
     ok \<lparr>sf_StorageKey = storage_key, sf_SHA256 = sha256_hex (lw_hash lw), sf_SizeBytes = lw_size lw\<rparr>))))))"

text \<open>The deferred clean-up removes the temporary file unless it was renamed.\<close>

definition FileStore_Save :: "file_store \<Rightarrow> reader \<Rightarrow> ('x site_scheme, stored_file) act" where
  "FileStore_Save store source =
     (if fs_MaxBytes store \<le> 0 then fail (Errorf ''document size limit must be positive'' [])
      else
        and_then (wrapping ''create document storage: %w'' [] (MkdirAll (fs_Root store))) (\<lambda>_.
        and_then (wrapping ''create temporary document: %w'' [] (CreateTemp (fs_Root store) ''.upload-'')) (\<lambda>temporary.
        attempt (store_upload store source temporary) (\<lambda>r. case r of
          Inl e \<Rightarrow> ignoring (Remove temporary) (fail e)
        | Inr stored \<Rightarrow> ok stored))))"

definition FileStore_Delete :: "file_store \<Rightarrow> string \<Rightarrow> ('x site_scheme, unit) act" where
  "FileStore_Delete store storage_key =
     and_then (FileStore_pathFor store storage_key) (\<lambda>path.
     attempt (Remove path) (\<lambda>r. case r of
       Inl e \<Rightarrow> if \<not> errors_is e os_ErrNotExist then fail (Errorf ''delete stored document: %w'' [AW e]) else ok ()
     | Inr u \<Rightarrow> ok ()))"

section \<open>marketdata/storage.go and backtests/storage.go\<close>

text \<open>\<open>file.Write\<close> when only its error matters, and a failing call that cleans up before it returns.\<close>

definition write_bytes :: "string \<Rightarrow> string \<Rightarrow> ('x site_scheme, unit) act" where
  "write_bytes p data w =
     (case write_file p data w of
        ((n, None), w1) \<Rightarrow> (Inr (), w1)
      | ((n, Some e), w1) \<Rightarrow> (Inl e, w1))"

definition cleaning :: "string \<Rightarrow> ('w, unit) act \<Rightarrow> ('w, 'a) act \<Rightarrow> ('w, 'a) act" where
  "cleaning msg cleanup f =
     attempt f (\<lambda>r. case r of Inl e \<Rightarrow> ignoring cleanup (fail (Errorf msg [AW e])) | Inr x \<Rightarrow> ok x)"

definition SnapshotStore_pathFor :: "string \<Rightarrow> string \<Rightarrow> ('x site_scheme, string) act" where
  "SnapshotStore_pathFor rt storage_key =
     (let clean_key = path_clean storage_key in
      if clean_key = ''.'' \<or> is_abs clean_key \<or> has_prefix clean_key ''..''
      then fail (Errorf ''invalid snapshot storage key'' [])
      else
        and_then (wrapping ''resolve snapshot storage root: %w'' [] (file_Abs rt)) (\<lambda>r.
        ok (path_join [r, clean_key])))"

definition SnapshotStore_Save :: "string \<Rightarrow> string \<Rightarrow> ('x site_scheme, string) act" where
  "SnapshotStore_Save rt csv =
     and_then (wrapping ''generate snapshot storage key: %w'' [] rand_Read) (\<lambda>name.
     let storage_key = path_join [''market-data'', hex_of_bytes name @ ''.csv''] in
     and_then (SnapshotStore_pathFor rt storage_key) (\<lambda>destination.
     and_then (wrapping ''create snapshot directory: %w'' [] (MkdirAll (path_dir destination))) (\<lambda>_.
     and_then (wrapping ''create temporary snapshot: %w'' [] (CreateTemp (path_dir destination) ''.snapshot-'')) (\<lambda>temporary.
     and_then (cleaning ''write snapshot: %w'' (ignoring os_call (Remove temporary)) (write_bytes temporary csv)) (\<lambda>_.
     and_then (cleaning ''close snapshot: %w'' (Remove temporary) os_call) (\<lambda>_.
     and_then (cleaning ''store snapshot: %w'' (Remove temporary) (Rename temporary destination)) (\<lambda>_.
     ok storage_key)))))))"

definition ArtifactStore_pathFor :: "string \<Rightarrow> string \<Rightarrow> ('x site_scheme, string) act" where
  "ArtifactStore_pathFor rt storage_key =
     (let clean_key = path_clean storage_key in
      if clean_key = ''.'' \<or> is_abs clean_key \<or> has_prefix clean_key ''..''
      then fail (Errorf ''invalid backtest storage key'' [])
      else
        and_then (wrapping ''resolve backtest storage root: %w'' [] (file_Abs rt)) (\<lambda>r.
        ok (path_join [r, clean_key])))"

definition ArtifactStore_Save :: "string \<Rightarrow> string \<Rightarrow> ('x site_scheme, string) act" where
  "ArtifactStore_Save rt content =
     and_then (wrapping ''generate backtest storage key: %w'' [] rand_Read) (\<lambda>name.
     let storage_key = path_join [''backtests'', hex_of_bytes name @ ''.csv''] in
     and_then (ArtifactStore_pathFor rt storage_key) (\<lambda>destination.
     and_then (wrapping ''create backtest directory: %w'' [] (MkdirAll (path_dir destination))) (\<lambda>_.
     and_then (wrapping ''create temporary backtest artifact: %w'' [] (CreateTemp (path_dir destination) ''.backtest-'')) (\<lambda>temporary.
     and_then (cleaning ''write backtest artifact: %w'' (ignoring os_call (Remove temporary)) (write_bytes temporary content)) (\<lambda>_.
     and_then (cleaning ''close backtest artifact: %w'' (Remove temporary) os_call) (\<lambda>_.
     and_then (cleaning ''store backtest artifact: %w'' (Remove temporary) (Rename temporary destination)) (\<lambda>_.
     ok storage_key)))))))"

section \<open>Keys lead below the root\<close>

text \<open>The part of the path of a place below another: at least one component more.\<close>

definition strictly_below :: "string \<Rightarrow> string \<Rightarrow> bool" where
  "strictly_below r q \<longleftrightarrow> (\<exists>ps. ps \<noteq> [] \<and> parts q = parts r @ ps)"

lemma parts_place:
  assumes "is_abs cwd"
  shows "is_abs (place cwd p)
    \<and> parts (place cwd p) = clean_parts True [] ((if is_abs p then [] else split_slash cwd) @ split_slash p)"
proof (cases "is_abs p")
  case True
  then have "parts p = clean_parts True [] (split_slash p)" by (simp add: parts_def)
  then show ?thesis using path_clean_absolute [OF True] True by (simp add: place_def)
next
  case False
  have abs: "is_abs (cwd @ CHR ''/'' # p)" using assms by (rule is_abs_append)
  moreover have "cwd \<noteq> []" using assms by (auto simp: is_abs_iff)
  then have "place cwd p = path_clean (cwd @ CHR ''/'' # p)" using False by (simp add: place_def path_join_def)
  moreover have "parts (cwd @ CHR ''/'' # p) = clean_parts True [] (split_slash cwd @ split_slash p)"
    using abs by (simp add: parts_def split_slash_join_two)
  ultimately show ?thesis using path_clean_absolute [OF abs] False by simp
qed

lemma clean_parts_trailing: "clean_parts rooted acc (ps @ [[]]) = clean_parts rooted acc ps"
  by (induction rooted acc ps rule: clean_parts.induct) (auto split: list.split)

lemma parts_join_path:
  assumes "is_abs cwd" and "dir \<noteq> []" and "proper name" and "name \<noteq> dotdot"
  shows "parts (place cwd (join_path dir name)) = parts (place cwd dir) @ [name]"
proof -
  let ?pre = "if is_abs dir then [] else split_slash cwd"
  have name: "split_slash name = [name]" "name \<noteq> []" "name \<noteq> ''.''"
    using assms(3) split_slash_free by (auto simp: proper_def)
  have abs: "is_abs (join_path dir name) = is_abs dir"
    using assms(2) by (cases dir) (auto simp: join_path_def is_abs_iff slash_def)
  have ordinary: "clean_parts True [] (qs @ [name]) = clean_parts True [] qs @ [name]" for qs
    by (rule clean_parts_append_ordinary) (use name assms(4) in auto)
  show ?thesis
  proof (cases "last dir = slash")
    case True
    then obtain d where d: "dir = d @ ''/''" using assms(2) by (metis append_butlast_last_id slash_def)
    then have "split_slash (join_path dir name) = split_slash d @ [name]"
      using name split_slash_join_two [of d name] by (simp add: join_path_def slash_def)
    moreover have "split_slash dir = split_slash d @ [[]]" using d split_slash_join_two [of d "[]"] by simp
    ultimately show ?thesis
      using parts_place [OF assms(1), of "join_path dir name"] parts_place [OF assms(1), of dir] abs
        ordinary [of "?pre @ split_slash d"] clean_parts_trailing [of True "[]" "?pre @ split_slash d"]
      by (cases "is_abs dir") simp_all
  next
    case False
    then have "split_slash (join_path dir name) = split_slash dir @ [name]"
      using name split_slash_join_two [of dir name] by (simp add: join_path_def slash_def)
    then show ?thesis
      using parts_place [OF assms(1), of "join_path dir name"] parts_place [OF assms(1), of dir] abs
        ordinary [of "?pre @ split_slash dir"]
      by (cases "is_abs dir") simp_all
  qed
qed

lemma place_abs: "is_abs p \<Longrightarrow> parts (place cwd p) = parts p"
  using path_clean_absolute [of p] by (simp add: place_def)

text \<open>Looking something up in the operating system: nothing that is kept changes.\<close>

definition reading :: "'x site_scheme \<Rightarrow> 'x site_scheme \<Rightarrow> bool" where
  "reading w w' \<longleftrightarrow> same_store w w' \<and> s_files w' = s_files w"

interpretation reading: state_preorder reading
  by unfold_locales (auto simp: reading_def same_store_def)

lemma os_call_reading: "keeps reading os_call"
  by (simp add: keeps_def reading_def os_call_frame)

lemma Getwd_reading: "keeps reading Getwd"
  unfolding Getwd_def by (rule reading.keeps_and_then [OF os_call_reading]) (simp add: keeps_def reading.R_refl)

lemma file_Abs_reading: "keeps reading (file_Abs p)"
  by (simp add: file_Abs_def reading.keeps_ok reading.keeps_and_then [OF Getwd_reading] keeps_convert_any
      reading.state_preorder_axioms)

lemma rand_Read_reading: "keeps reading rand_Read"
  unfolding rand_Read_def by (rule reading.keeps_and_then [OF os_call_reading])
    (simp add: keeps_def reading_def same_store_def)

lemma MkdirAll_reading: "keeps reading (MkdirAll p)"
  by (simp add: MkdirAll_def os_call_reading)

lemmas reading_rules = reading.keeps_intros os_call_reading file_Abs_reading rand_Read_reading MkdirAll_reading

lemma Getwd_Inr: "Getwd w = (Inr c, w') \<Longrightarrow> c = s_cwd w"
  using os_call_frame [of w] by (auto simp: Getwd_def and_then_Inr same_store_def)

lemma file_Abs_Inr: "file_Abs p w = (Inr q, w') \<Longrightarrow> q = place (s_cwd w) p"
  by (auto simp: file_Abs_def place_def ok_def and_then_Inr convert_def path_abs_def dest!: Getwd_Inr
      split: if_splits)

text \<open>
  What a store asks of the function that turns a key into a path, and what it promises: the path is
  strictly below the root, and finding it changes nothing.
\<close>

locale key_space =
  fixes path_for :: "string \<Rightarrow> ('x site_scheme, string) act" and rt :: string
  assumes lands: "path_for key w = (Inr p, w') \<Longrightarrow> is_abs (s_cwd w) \<Longrightarrow>
      is_abs p \<and> strictly_below (place (s_cwd w) rt) p"
    and reads_only: "keeps reading (path_for key)"
begin

text \<open>The directory of such a path is the root or below it, so a file beside it is below the root.\<close>

lemma beside:
  assumes "path_for key w = (Inr p, w')" and "is_abs (s_cwd w)" and "proper name" and "name \<noteq> dotdot"
  shows "strictly_below (place (s_cwd w) rt) (place (s_cwd w) (join_path (path_dir p) name))"
proof -
  obtain ps where p: "is_abs p" "ps \<noteq> []" "parts p = parts (place (s_cwd w) rt) @ ps"
    using lands [OF assms(1,2)] by (auto simp: strictly_below_def)
  have dir: "is_abs (path_dir p)" using p(1) by (simp add: path_dir_def)
  have "\<forall>x \<in> set (butlast (parts p)). proper x" "dotdot \<notin> set (butlast (parts p))"
    using absolute_parts [OF p(1)] by (auto dest: in_set_butlastD)
  then have "parts (path_dir p) = butlast (parts p)"
    using p(1) parts_absolute [of "butlast (parts p)"] by (simp add: path_dir_def)
  then have "parts (place (s_cwd w) (path_dir p)) = parts (place (s_cwd w) rt) @ butlast ps"
    using dir p(2,3) by (simp add: place_abs butlast_append)
  moreover have "path_dir p \<noteq> []" using dir by (auto simp: is_abs_iff)
  ultimately have "parts (place (s_cwd w) (join_path (path_dir p) name)) = parts (place (s_cwd w) rt) @ butlast ps @ [name]"
    using parts_join_path [OF assms(2) _ assms(3,4), of "path_dir p"] by simp
  then show ?thesis unfolding strictly_below_def by blast
qed

end

text \<open>A key that is not rejected is a relative path without \<open>..\<close>.\<close>

lemma accepted_key:
  assumes "path_clean key \<noteq> ''.''" and "\<not> is_abs (path_clean key)" and "path_clean key \<noteq> dotdot"
    and "\<not> has_prefix (path_clean key) ''../''"
  shows "path_clean key = join_slash (parts key) \<and> parts key \<noteq> [] \<and> (\<forall>p \<in> set (parts key). proper p)
    \<and> dotdot \<notin> set (parts key)"
proof -
  have rel: "\<not> is_abs key" using assms(2) path_clean_absolute by blast
  then have c: "path_clean key = join_slash (parts key)" "parts key \<noteq> []"
    using assms(1) by (auto simp: path_clean_def split: if_splits)
  obtain q qs where q: "parts key = q # qs" using c(2) by (cases "parts key") auto
  have "q \<noteq> dotdot" using assms(3,4) c(1) q by (cases qs) (auto simp: has_prefix_def)
  then show ?thesis using relative_parts [OF rel] c q by simp
qed

lemma below_root:
  assumes "path_clean key \<noteq> ''.''" and "\<not> is_abs (path_clean key)" and "path_clean key \<noteq> dotdot"
    and "\<not> has_prefix (path_clean key) ''../''" and "is_abs cwd"
  shows "is_abs (path_join [place cwd rt, path_clean key])
    \<and> parts (path_join [place cwd rt, path_clean key]) = parts (place cwd rt) @ parts key"
proof -
  note k = accepted_key [OF assms(1-4)]
  have "is_abs (place cwd rt)" using parts_place [OF assms(5)] by blast
  then show ?thesis using join_below [of "place cwd rt" "parts key"] k by simp
qed

lemma wrapping_Inr_iff: "wrapping m as f w = (Inr x, w') \<longleftrightarrow> f w = (Inr x, w')"
  by (rule wrapping_Inr)

interpretation document_keys: key_space "FileStore_pathFor store" "fs_Root store" for store
proof
  fix key p and w w' :: "'a site_scheme"
  assume run: "FileStore_pathFor store key w = (Inr p, w')" and cwd: "is_abs (s_cwd w)"
  let ?k = "path_clean key"
  have accepted: "?k \<noteq> ''.''" "\<not> is_abs ?k" "?k \<noteq> dotdot" "\<not> has_prefix ?k ''../''"
    using run by (auto simp: FileStore_pathFor_def Let_def fail_def split: if_splits)
  then obtain rt w1 q w2 where rt: "file_Abs (fs_Root store) w = (Inr rt, w1)"
    and path: "file_Abs (path_join [rt, ?k]) w1 = (Inr q, w2)"
    and check: "(case path_rel rt q of
          Inl e \<Rightarrow> fail (Errorf ''document storage key escapes root'' [])
        | Inr relative \<Rightarrow>
            if relative = dotdot \<or> has_prefix relative ''../''
            then fail (Errorf ''document storage key escapes root'' [])
            else ok q) w2 = (Inr p, w')"
    using run unfolding FileStore_pathFor_def Let_def and_then_Inr wrapping_Inr by (auto simp: and_then_Inr wrapping_Inr)
  have "q = p" using check by (auto simp: fail_def ok_def split: sum.splits if_splits)
  have "rt = place (s_cwd w) (fs_Root store)" using rt by (rule file_Abs_Inr)
  moreover note below_root [OF accepted cwd, of "fs_Root store"]
  moreover have "parts key \<noteq> []" using accepted_key [OF accepted] by blast
  moreover have "is_abs (path_join [rt, ?k]) \<Longrightarrow> p = path_clean (path_join [rt, ?k])"
    using file_Abs_Inr [OF path] \<open>q = p\<close> by (simp add: place_def)
  ultimately show "is_abs p \<and> strictly_below (place (s_cwd w) (fs_Root store)) p"
    using path_clean_absolute by (auto simp: strictly_below_def)
next
  fix key
  show "keeps reading (FileStore_pathFor store key)"
    unfolding FileStore_pathFor_def Let_def by (auto intro!: reading_rules split: sum.split)
qed

lemma has_prefix_dots: "\<not> has_prefix s ''..'' \<Longrightarrow> s \<noteq> dotdot \<and> \<not> has_prefix s ''../''"
  by (auto simp: has_prefix_append)

text \<open>The two other stores refuse more keys, every one whose clean form begins with two dots.\<close>

lemma simple_path_for:
  assumes run: "(if path_clean key = ''.'' \<or> is_abs (path_clean key) \<or> has_prefix (path_clean key) ''..'' then fail e
      else and_then (wrapping m [] (file_Abs rt)) (\<lambda>r. ok (path_join [r, path_clean key]))) w = (Inr p, w')"
    and cwd: "is_abs (s_cwd w)"
  shows "is_abs p \<and> strictly_below (place (s_cwd w) rt) p"
proof -
  have k: "path_clean key \<noteq> ''.''" "\<not> is_abs (path_clean key)" "\<not> has_prefix (path_clean key) ''..''"
    using run by (auto simp: fail_def split: if_splits)
  then have "p = path_join [place (s_cwd w) rt, path_clean key]"
    using run by (auto simp: and_then_Inr wrapping_Inr ok_def dest: file_Abs_Inr)
  moreover have dots: "path_clean key \<noteq> dotdot" "\<not> has_prefix (path_clean key) ''../''"
    using has_prefix_dots [OF k(3)] by blast+
  moreover have "parts key \<noteq> []" using accepted_key [OF k(1,2) dots] by blast
  ultimately show ?thesis using below_root [OF k(1,2) dots cwd, of rt] by (auto simp: strictly_below_def)
qed

interpretation snapshot_keys: key_space "SnapshotStore_pathFor rt" rt for rt
proof
  show "SnapshotStore_pathFor rt key w = (Inr p, w') \<Longrightarrow> is_abs (s_cwd w) \<Longrightarrow>
      is_abs p \<and> strictly_below (place (s_cwd w) rt) p" for key p and w w' :: "'a site_scheme"
    unfolding SnapshotStore_pathFor_def Let_def by (rule simple_path_for)
  show "keeps reading (SnapshotStore_pathFor rt key)" for key
    unfolding SnapshotStore_pathFor_def Let_def by (auto intro!: reading_rules)
qed

interpretation artifact_keys: key_space "ArtifactStore_pathFor rt" rt for rt
proof
  show "ArtifactStore_pathFor rt key w = (Inr p, w') \<Longrightarrow> is_abs (s_cwd w) \<Longrightarrow>
      is_abs p \<and> strictly_below (place (s_cwd w) rt) p" for key p and w w' :: "'a site_scheme"
    unfolding ArtifactStore_pathFor_def Let_def by (rule simple_path_for)
  show "keeps reading (ArtifactStore_pathFor rt key)" for key
    unfolding ArtifactStore_pathFor_def Let_def by (auto intro!: reading_rules)
qed

end
