(* ===== verification/FileSafety.thy ===== *)
theory FileSafety
  imports FileStores
begin

text \<open>
  What the file stores do under any faults of the operating system: every file they create, write,
  rename or remove lies below their root, and the tables and connections are left alone.
\<close>

section \<open>Steps from a known state\<close>

context state_preorder
begin

lemma step_and_then:
  assumes "R w (snd (f w))" and "\<And>x w1. f w = (Inr x, w1) \<Longrightarrow> R w w1 \<Longrightarrow> R w1 (snd (g x w1))"
  shows "R w (snd (and_then f g w))"
proof (cases "f w")
  case (Pair r w1)
  then show ?thesis
    using assms by (cases r) (auto simp: and_then_def intro: R_trans)
qed

lemma step_attempt:
  assumes "R w (snd (f w))" and "\<And>r w1. f w = (r, w1) \<Longrightarrow> R w w1 \<Longrightarrow> R w1 (snd (k r w1))"
  shows "R w (snd (attempt f k w))"
proof (cases "f w")
  case (Pair r w1)
  then show ?thesis using assms by (auto simp: attempt_def intro: R_trans)
qed

lemma step_wrapping: "R w (snd (f w)) \<Longrightarrow> R w (snd (wrapping m as f w))"
  by (cases "f w") (auto simp: wrapping_def split: sum.splits)

lemma step_keeps: "keeps R f \<Longrightarrow> R w (snd (f w))"
  by (simp add: keeps_def)

lemma step_ignoring: "R w (snd (f w)) \<Longrightarrow> (\<And>w1. R w w1 \<Longrightarrow> R w1 (snd (g w1))) \<Longrightarrow> R w (snd (ignoring f g w))"
  unfolding ignoring_def by (rule step_attempt) auto

lemma step_ok: "R w (snd (ok x w))"
  by (simp add: ok_def R_refl)

lemma step_fail: "R w (snd (fail e w))"
  by (simp add: fail_def R_refl)

lemmas steps = step_ok step_fail step_wrapping step_ignoring step_attempt step_and_then

end

section \<open>Confinement\<close>

definition confined :: "string \<Rightarrow> 'x site_scheme \<Rightarrow> 'x site_scheme \<Rightarrow> bool" where
  "confined base w w' \<longleftrightarrow> same_store w w' \<and> (\<forall>q. s_files w' q \<noteq> s_files w q \<longrightarrow> strictly_below base q)"

interpretation confined: state_preorder "confined base" for base
proof
  show "confined base w w" for w :: "'a site_scheme" by (simp add: confined_def same_store.R_refl)
  show "confined base a b \<Longrightarrow> confined base b c \<Longrightarrow> confined base a c" for a b c :: "'a site_scheme"
    unfolding confined_def using same_store.R_trans by metis
qed

text \<open>\<open>p\<close> names a file below \<open>base\<close>.\<close>

definition inside :: "string \<Rightarrow> string \<Rightarrow> 'x site_scheme \<Rightarrow> bool" where
  "inside base p w \<longleftrightarrow> strictly_below base (place (s_cwd w) p)"

lemma inside_confined: "confined base w w' \<Longrightarrow> inside base p w' = inside base p w"
  by (simp add: inside_def confined_def same_store_def)

lemma confined_reading: "reading w w' \<Longrightarrow> confined base w w'"
  by (simp add: confined_def reading_def)

lemma keeps_confined_reading: "keeps reading f \<Longrightarrow> confined base w (snd (f w))"
  by (simp add: keeps_def confined_reading)

lemma confined_set_file: "confined base w w1 \<Longrightarrow> inside base p w \<Longrightarrow> confined base w (set_file p c w1)"
  by (auto simp: confined_def set_file_def inside_def same_store_def)

lemma confined_os_call: "confined base w (snd (os_call w))"
  by (rule keeps_confined_reading) (rule os_call_reading)

lemma confined_MkdirAll: "confined base w (snd (MkdirAll p w))"
  by (rule keeps_confined_reading) (rule MkdirAll_reading)

lemma confined_next_os: "next_os w = (f, w1) \<Longrightarrow> confined base w w1"
  using next_os_same by (auto simp: confined_def)

lemma confined_Remove: "inside base p w \<Longrightarrow> confined base w (snd (Remove p w))"
  unfolding Remove_def
  by (rule confined.step_and_then [OF confined_os_call])
    (auto simp: confined.R_refl inside_confined intro!: confined_set_file)

lemma confined_Rename: "inside base p w \<Longrightarrow> inside base q w \<Longrightarrow> confined base w (snd (Rename p q w))"
  unfolding Rename_def
  by (rule confined.step_and_then [OF confined_os_call])
    (auto simp: confined.R_refl inside_confined intro!: confined_set_file split: option.split)

lemma confined_write_file: "inside base p w \<Longrightarrow> confined base w (snd (write_file p data w))"
  by (auto simp: write_file_def Let_def split: prod.split os_fault.split intro!: confined_set_file dest: confined_next_os)

lemma confined_lw_write: "inside base (lw_path lw) w \<Longrightarrow> confined base w (snd (lw_write data lw w))"
  using confined_write_file [of base "lw_path lw" w]
  by (auto simp: lw_write_def multi_write_def Let_def confined.R_refl split: prod.split option.split)
    (metis snd_conv)+

lemma lw_write_path: "lw_path (snd (snd (fst (lw_write data lw w)))) = lw_path lw"
  by (auto simp: lw_write_def multi_write_def Let_def split: prod.split option.split)

lemma confined_io_copy: "inside base (lw_path lw) w \<Longrightarrow> confined base w (snd (io_copy r lw w))"
proof (induction r lw w rule: io_copy.induct)
  case (1 r lw w)
  show ?case
  proof (cases "rd_Bytes r = []")
    case True
    then show ?thesis by (simp add: io_copy.simps [of r] confined.R_refl)
  next
    case False
    obtain n e lw1 w1 where step: "lw_write (fst (read_some copy_buffer r)) lw w = ((n, e, lw1), w1)"
      by (metis prod.exhaust)
    then have w1: "confined base w w1" using confined_lw_write [OF "1.prems"] by (metis snd_conv)
    have path: "lw_path lw1 = lw_path lw"
      using lw_write_path [of "fst (read_some copy_buffer r)" lw w] step by simp
    show ?thesis
    proof (cases e)
      case None
      have "confined base w1 (snd (io_copy (snd (read_some copy_buffer r)) lw1 w1))"
        using "1.IH" [OF False step [symmetric] refl refl] None "1.prems" w1 path by (simp add: inside_confined)
      then have "confined base w (snd (io_copy (snd (read_some copy_buffer r)) lw1 w1))"
        using w1 confined.R_trans by blast
      then show ?thesis using False step None by (simp add: io_copy.simps [of r])
    next
      case (Some err)
      then show ?thesis using False step w1 by (simp add: io_copy.simps [of r])
    qed
  qed
qed

section \<open>Temporary files\<close>

lemma temp_tries_confined:
  assumes "\<And>k. inside base (join_path dir (pre @ digits_of k)) w" and "temp_tries n dir pre w = (r, w')"
  shows "confined base w w' \<and> (\<forall>p. r = Inr p \<longrightarrow> inside base p w)"
  using assms
proof (induction n arbitrary: w)
  case 0
  then show ?case by (auto simp: confined.R_refl)
next
  case (Suc n)
  let ?w = "w\<lparr>s_tried := Suc (s_tried w)\<rparr>" and ?p = "join_path dir (pre @ digits_of (s_suffix w (s_tried w)))"
  have w: "confined base w ?w" by (simp add: confined_def same_store_def)
  have in1: "inside base (join_path dir (pre @ digits_of k)) ?w" for k
    using Suc.prems(1) by (simp add: inside_confined [OF w])
  show ?case
  proof (cases "file_at ?p ?w \<noteq> None")
    case True
    then have "temp_tries n dir pre ?w = (r, w')" using Suc.prems(2) by (simp add: Let_def)
    then show ?thesis using Suc.IH [OF in1] confined.R_trans [OF w] by (auto simp: inside_confined [OF w])
  next
    case False
    then have run: "and_then os_call (\<lambda>_ w2. (Inr ?p, set_file ?p (Some []) w2)) ?w = (r, w')"
      using Suc.prems(2) by (simp add: Let_def)
    have "confined base ?w (snd (and_then os_call (\<lambda>_ w2. (Inr ?p, set_file ?p (Some []) w2)) ?w))"
      by (rule confined.step_and_then [OF confined_os_call])
        (auto simp: inside_confined confined.R_refl in1 intro!: confined_set_file)
    then have "confined base w w'" using run confined.R_trans [OF w] by simp
    moreover have "\<forall>p. r = Inr p \<longrightarrow> p = ?p" using run by (auto simp: and_then_def split: prod.splits sum.splits)
    ultimately show ?thesis using Suc.prems(1) by blast
  qed
qed

text \<open>The number \<open>os.CreateTemp\<close> appends is written in digits.\<close>

lemma digits_of_digits: "c \<in> set (digits_of n) \<Longrightarrow> byte_in 48 57 c"
proof (induction n rule: digits_of.induct)
  case (1 n)
  have d: "byte_in 48 57 (char_of (48 + k :: nat))" if "k < 10" for k
  proof -
    have "k \<in> set [0..<10]" using that by simp
    moreover have "list_all (\<lambda>k. byte_in 48 57 (char_of (48 + k :: nat))) [0..<10]" by code_simp
    ultimately show ?thesis by (simp only: list_all_iff)
  qed
  show ?case using 1 d [of n] d [of "n mod 10"] by (auto simp: digits_of.simps [of n] split: if_splits)
qed

lemma temp_name_proper:
  assumes "pre = CHR ''.'' # c # s" and "c \<noteq> CHR ''.''" and "slash \<notin> set pre"
  shows "proper (pre @ digits_of n) \<and> pre @ digits_of n \<noteq> dotdot"
proof -
  have "slash \<notin> set (digits_of n)" using digits_of_digits [of slash n] by (auto simp: slash_def byte_in_def)
  then show ?thesis using assms by (simp add: proper_def)
qed

lemma CreateTemp_confined:
  assumes "\<And>k. inside base (join_path dir (pre @ digits_of k)) w" and "dir \<noteq> []"
  shows "confined base w (snd (CreateTemp dir pre w))
    \<and> (CreateTemp dir pre w = (Inr p, w') \<longrightarrow> inside base p w')"
proof (cases "CreateTemp dir pre w")
  case (Pair r w1)
  then have "temp_tries 10000 dir pre w = (r, w1)" using assms(2) by (simp add: CreateTemp_def)
  from temp_tries_confined [OF assms(1) this] show ?thesis using Pair by (auto simp: inside_confined)
qed

section \<open>The operations\<close>

lemma giving_up:
  assumes "confined base w w1"
  shows "confined base w (snd (ignoring os_call (fail e) w1)) \<and> fst (ignoring os_call (fail e) w1) = Inl e"
proof
  have "confined base w1 (snd (ignoring os_call (fail e) w1))"
    by (rule confined.step_ignoring [OF confined_os_call]) (rule confined.step_fail)
  then show "confined base w (snd (ignoring os_call (fail e) w1))" using assms confined.R_trans by blast
  show "fst (ignoring os_call (fail e) w1) = Inl e"
    by (simp add: ignoring_def attempt_def fail_def split: prod.split)
qed

lemma confined_write_header:
  assumes "inside base (lw_path lw) w"
  shows "confined base w (snd (write_header h lw w))"
    and "write_header h lw w = (Inr lw1, w1) \<Longrightarrow> lw_path lw1 = lw_path lw"
proof -
  obtain n e lw2 w2 where step: "lw_write h lw w = ((n, e, lw2), w2)" by (metis prod.exhaust)
  have w2: "confined base w w2" using confined_lw_write [OF assms, of h] step by simp
  then show "confined base w (snd (write_header h lw w))"
    using step by (cases e) (simp_all add: write_header_def giving_up [OF w2])
  assume run: "write_header h lw w = (Inr lw1, w1)"
  have "e = None"
  proof (rule ccontr)
    assume "e \<noteq> None"
    then obtain err where "e = Some err" by blast
    then have "fst (write_header h lw w) = Inl err" using step by (simp add: write_header_def giving_up [OF w2])
    then show False using run by simp
  qed
  then show "lw_path lw1 = lw_path lw"
    using run step lw_write_path [of h lw w] by (simp add: write_header_def)
qed

lemma confined_write_rest:
  assumes "inside base (lw_path lw) w"
  shows "confined base w (snd (write_rest r lw w))"
proof -
  obtain e lw1 w1 where step: "io_copy r lw w = ((e, lw1), w1)" by (metis prod.exhaust)
  then have w1: "confined base w w1" using confined_io_copy [OF assms, of r] by simp
  show ?thesis using step w1 by (cases e) (simp_all add: write_rest_def giving_up [OF w1])
qed

lemma confined_write_upload:
  assumes "inside base temporary w"
  shows "confined base w (snd (write_upload store source temporary w))"
proof -
  let ?lw = "\<lparr>lw_path = temporary, lw_hash = [], lw_limit = fs_MaxBytes store, lw_size = 0\<rparr>"
  have in0: "inside base (lw_path ?lw) w" using assms by simp
  have "confined base w (snd (and_then (write_header h ?lw) (\<lambda>lw. write_rest rest lw) w))" for h rest
  proof (rule confined.step_and_then)
    show "confined base w (snd (write_header h ?lw w))" by (rule confined_write_header(1) [OF in0])
    fix lw1 w1 assume run: "write_header h ?lw w = (Inr lw1, w1)" and w1: "confined base w w1"
    have "lw_path lw1 = temporary" using confined_write_header(2) [OF in0 run] by simp
    then show "confined base w1 (snd (write_rest rest lw1 w1))"
      using assms by (intro confined_write_rest) (simp add: inside_confined [OF w1])
  qed
  then show ?thesis
    by (simp add: write_upload_def giving_up confined.R_refl split: prod.split option.split)
qed

lemma confined_path_for:
  assumes "key_space path_for rt" and "is_abs (s_cwd w)" and "path_for key w = (Inr p, w1)"
  shows "confined (place (s_cwd w) rt) w w1 \<and> inside (place (s_cwd w) rt) p w1"
proof -
  have r: "reading w w1" using key_space.reads_only [OF assms(1)] assms(3) by (rule keepsD)
  have p: "is_abs p" "strictly_below (place (s_cwd w) rt) p" using key_space.lands [OF assms(1,3,2)] by blast+
  then have "inside (place (s_cwd w) rt) p w1" by (simp add: inside_def strictly_below_def place_abs)
  then show ?thesis using r by (simp add: confined_reading)
qed


text \<open>Below, the base is the place of the root; it stays the same while an operation runs.\<close>

lemma place_confined: "confined base w w1 \<Longrightarrow> place (s_cwd w1) p = place (s_cwd w) p"
  by (simp add: confined_def same_store_def)

lemma inside_later: "inside base p w \<Longrightarrow> confined base w w1 \<Longrightarrow> inside base p w1"
  by (simp add: inside_confined)

lemma abs_confined: "confined base w w1 \<Longrightarrow> is_abs (s_cwd w) \<Longrightarrow> is_abs (s_cwd w1)"
  by (simp add: confined_def same_store_def)

lemma confined_path_step:
  assumes "key_space path_for rt" and "is_abs (s_cwd w)" and "base = place (s_cwd w) rt"
    and "\<And>p w1. path_for key w = (Inr p, w1) \<Longrightarrow> inside base p w1 \<Longrightarrow> confined base w w1 \<Longrightarrow> confined base w1 (snd (g p w1))"
  shows "confined base w (snd (and_then (path_for key) g w))"
proof (rule confined.step_and_then)
  show "confined base w (snd (path_for key w))"
    using key_space.reads_only [OF assms(1)] by (rule keeps_confined_reading)
  fix p w1 assume run: "path_for key w = (Inr p, w1)" and w1: "confined base w w1"
  have "inside base p w1" using confined_path_for [OF assms(1,2) run] assms(3) by blast
  then show "confined base w1 (snd (g p w1))" using assms(4) run w1 by blast
qed

lemma randomName_reading: "keeps reading randomName"
  unfolding randomName_def by (intro reading_rules)

lemma confined_wrapping: "confined base w (snd (f w)) \<Longrightarrow> confined base w (snd (wrapping m as f w))"
  by (rule confined.step_wrapping)

lemma confined_store_upload:
  assumes tmp: "inside base temporary w" and cwd: "is_abs (s_cwd w)" and base: "base = place (s_cwd w) (fs_Root store)"
  shows "confined base w (snd (store_upload store source temporary w))"
  unfolding store_upload_def Let_def
proof (rule confined.step_and_then, rule confined_write_upload, rule tmp,
    rule confined.step_and_then [OF confined_wrapping [OF confined_os_call]],
    rule confined.step_and_then [OF confined_wrapping [OF keeps_confined_reading [OF randomName_reading]]],
    rule confined_path_step [OF document_keys.key_space_axioms], goal_cases)
  case (1 lw w1 u w2 name w3)
  then show ?case using cwd by (blast intro: abs_confined)
next
  case (2 lw w1 u w2 name w3)
  then show ?case using base by (simp add: confined_def same_store_def)
next
  case (3 lw w1 u w2 name w3 p w4)
  then have "inside base temporary w4" using tmp by (blast intro: inside_later)
  with 3(8) show ?case
    by - (rule confined.step_and_then [OF confined_wrapping [OF confined_MkdirAll]],
        rule confined.step_and_then, rule confined_wrapping, rule confined_Rename,
        auto intro: inside_later confined.step_ok)
qed

lemma confined_Save:
  assumes cwd: "is_abs (s_cwd w)" and rt: "fs_Root store \<noteq> []"
  shows "confined (place (s_cwd w) (fs_Root store)) w (snd (FileStore_Save store source w))"
proof -
  let ?base = "place (s_cwd w) (fs_Root store)"
  have names: "inside ?base (join_path (fs_Root store) (''.upload-'' @ digits_of k)) w" for k
    using parts_join_path [OF cwd rt] temp_name_proper [of "''.upload-''" "CHR ''u''" "''pload-''" k]
    by (simp add: inside_def strictly_below_def slash_def)
  have "confined ?base w (snd (and_then (wrapping ''create document storage: %w'' [] (MkdirAll (fs_Root store))) (\<lambda>_.
        and_then (wrapping ''create temporary document: %w'' [] (CreateTemp (fs_Root store) ''.upload-'')) (\<lambda>temporary.
        attempt (store_upload store source temporary) (\<lambda>r. case r of
          Inl e \<Rightarrow> ignoring (Remove temporary) (fail e)
        | Inr stored \<Rightarrow> ok stored))) w))"
  proof (rule confined.step_and_then [OF confined_wrapping [OF confined_MkdirAll]],
      rule confined.step_and_then [OF confined_wrapping], goal_cases)
    case (1 u w1)
    then have "inside ?base (join_path (fs_Root store) (''.upload-'' @ digits_of k)) w1" for k
      using names by (blast intro: inside_later)
    then show ?case using CreateTemp_confined rt by blast
  next
    case (2 u w1 temporary w2)
    then have "CreateTemp (fs_Root store) ''.upload-'' w1 = (Inr temporary, w2)" by (simp add: wrapping_Inr)
    then have tmp: "inside ?base temporary w2"
      using CreateTemp_confined [OF inside_later [OF names 2(2)] rt] by blast
    have at: "is_abs (s_cwd w2)" "?base = place (s_cwd w2) (fs_Root store)"
      using 2(2,4) cwd by (auto simp: confined_def same_store_def)
    show ?case
      by (rule confined.step_attempt, rule confined_store_upload, rule tmp, rule at(1), rule at(2),
          auto split: sum.split intro!: confined.step_ignoring confined_Remove confined.step_fail confined.step_ok
            intro: inside_later [OF tmp])
  qed
  then show ?thesis by (simp add: FileStore_Save_def confined.step_fail)
qed

lemma confined_Delete:
  assumes "is_abs (s_cwd w)"
  shows "confined (place (s_cwd w) (fs_Root store)) w (snd (FileStore_Delete store key w))"
  unfolding FileStore_Delete_def
  by (rule confined_path_step [OF document_keys.key_space_axioms assms refl], rule confined.step_attempt, erule confined_Remove)
    (auto split: sum.split intro: confined.step_fail confined.step_ok)

text \<open>The shape the two other stores share.\<close>

lemma confined_cleaning:
  assumes "confined base w (snd (f w))" and "\<And>w1. confined base w w1 \<Longrightarrow> confined base w1 (snd (cleanup w1))"
  shows "confined base w (snd (cleaning m cleanup f w))"
  unfolding cleaning_def
  by (rule confined.step_attempt, rule assms(1))
    (auto split: sum.split intro!: confined.step_ignoring confined.step_fail confined.step_ok assms(2))

lemma confined_write_bytes: "inside base p w \<Longrightarrow> confined base w (snd (write_bytes p data w))"
  using confined_write_file [of base p w data] by (auto simp: write_bytes_def split: prod.split option.split)

context key_space
begin

abbreviation save_chain ::
    "string list \<Rightarrow> (string \<Rightarrow> string) \<Rightarrow> string \<Rightarrow> string \<Rightarrow> ('x site_scheme, string) act" where
  "save_chain ms key pre data \<equiv>
     and_then (wrapping (ms ! 0) [] rand_Read) (\<lambda>name.
     and_then (path_for (key name)) (\<lambda>destination.
     and_then (wrapping (ms ! 1) [] (MkdirAll (path_dir destination))) (\<lambda>_.
     and_then (wrapping (ms ! 2) [] (CreateTemp (path_dir destination) pre)) (\<lambda>temporary.
     and_then (cleaning (ms ! 3) (ignoring os_call (Remove temporary)) (write_bytes temporary data)) (\<lambda>_.
     and_then (cleaning (ms ! 4) (Remove temporary) os_call) (\<lambda>_.
     and_then (cleaning (ms ! 5) (Remove temporary) (Rename temporary destination)) (\<lambda>_.
     ok (key name))))))))"

lemma confined_save_chain:
  assumes cwd: "is_abs (s_cwd w)" and pre: "pre = CHR ''.'' # c # s" "c \<noteq> CHR ''.''" "slash \<notin> set pre"
    and base: "base = place (s_cwd w) rt"
  shows "confined base w (snd (save_chain ms key pre data w))"
proof (rule confined.step_and_then [OF confined_wrapping [OF keeps_confined_reading [OF rand_Read_reading]]],
    rule confined_path_step [OF key_space_axioms], goal_cases)
  case (1 name w1)
  then show ?case using cwd by (blast intro: abs_confined)
next
  case (2 name w1)
  then show ?case using base by (simp add: confined_def same_store_def)
next
  case (3 name w1 p w2)
  have cwd1: "is_abs (s_cwd w1)" using 3(2) cwd by (rule abs_confined)
  have names: "inside base (join_path (path_dir p) (pre @ digits_of k)) w2" for k
  proof -
    have "strictly_below (place (s_cwd w1) rt) (place (s_cwd w1) (join_path (path_dir p) (pre @ digits_of k)))"
      using beside [OF 3(3) cwd1] temp_name_proper [OF pre] by blast
    then show ?thesis using 3(2,5) base by (simp add: inside_def confined_def same_store_def)
  qed
  have "is_abs p" using lands [OF 3(3) cwd1] by blast
  then have dir: "path_dir p \<noteq> []" by (simp add: path_dir_def)
  show ?case
  proof (rule confined.step_and_then [OF confined_wrapping [OF confined_MkdirAll]],
      rule confined.step_and_then [OF confined_wrapping], goal_cases)
    case (1 u w3)
    then show ?case using CreateTemp_confined [OF inside_later [OF names] dir] by blast
  next
    case (2 u w3 tmp w4)
    then have "CreateTemp (path_dir p) pre w3 = (Inr tmp, w4)" by (simp add: wrapping_Inr)
    then have tmp: "inside base tmp w4" using CreateTemp_confined [OF inside_later [OF names 2(2)] dir] by blast
    have p4: "inside base p w4" using 3(4) 2(2,4) by (blast intro: inside_later)
    show ?case
      by (rule confined.step_and_then, rule confined_cleaning, rule confined_write_bytes, rule tmp,
          rule confined.step_ignoring, rule confined_os_call, rule confined_Remove, blast intro: inside_later tmp,
          rule confined.step_and_then, rule confined_cleaning, rule confined_os_call,
          rule confined_Remove, blast intro: inside_later tmp,
          rule confined.step_and_then, rule confined_cleaning, rule confined_Rename)
        (blast intro: inside_later tmp p4 confined_Remove confined.step_ok)+
  qed
qed

end

lemma confined_SnapshotStore_Save:
  "is_abs (s_cwd w) \<Longrightarrow> confined (place (s_cwd w) rt) w (snd (SnapshotStore_Save rt csv w))"
  using snapshot_keys.confined_save_chain [of w "''.snapshot-''" "CHR ''s''" "''napshot-''" _ rt
      "[''generate snapshot storage key: %w'', ''create snapshot directory: %w'', ''create temporary snapshot: %w'',
        ''write snapshot: %w'', ''close snapshot: %w'', ''store snapshot: %w'']"
      "\<lambda>name. path_join [''market-data'', hex_of_bytes name @ ''.csv'']" csv]
  by (simp add: SnapshotStore_Save_def Let_def slash_def)

lemma confined_ArtifactStore_Save:
  "is_abs (s_cwd w) \<Longrightarrow> confined (place (s_cwd w) rt) w (snd (ArtifactStore_Save rt content w))"
  using artifact_keys.confined_save_chain [of w "''.backtest-''" "CHR ''b''" "''acktest-''" _ rt
      "[''generate backtest storage key: %w'', ''create backtest directory: %w'', ''create temporary backtest artifact: %w'',
        ''write backtest artifact: %w'', ''close backtest artifact: %w'', ''store backtest artifact: %w'']"
      "\<lambda>name. path_join [''backtests'', hex_of_bytes name @ ''.csv'']" content]
  by (simp add: ArtifactStore_Save_def Let_def slash_def)

end
