(* ===== verification/FileSpec.thy ===== *)
theory FileSpec
  imports FileSafety
begin

text \<open>
  What the file stores achieve while the operating system refuses nothing: a stored file holds
  exactly the bytes read, however the reader hands them out, and a refused one leaves no trace.
\<close>

section \<open>System calls that succeed\<close>

abbreviation calm :: "'x site_scheme \<Rightarrow> bool" where
  "calm w \<equiv> s_os w = []"

lemma calm_next [simp]: "calm w \<Longrightarrow> next_os w = (Works, w)"
  by (simp add: next_os_def)

lemma calm_call [simp]: "calm w \<Longrightarrow> os_call w = (Inr (), w)"
  by (simp add: os_call_def)

lemma calm_then [simp]: "calm w \<Longrightarrow> and_then os_call g w = g () w"
  by (simp add: and_then_def)

lemma calm_Mkdir [simp]: "calm w \<Longrightarrow> MkdirAll p w = (Inr (), w)"
  by (simp add: MkdirAll_def)

lemma calm_Abs [simp]: "calm w \<Longrightarrow> file_Abs p w = (Inr (place (s_cwd w) p), w)"
  by (simp add: file_Abs_def place_def ok_def Getwd_def and_then_def convert_def path_abs_def)

lemma calm_rand [simp]: "calm w \<Longrightarrow> rand_Read w = (Inr (s_random w (s_drawn w)), w\<lparr>s_drawn := Suc (s_drawn w)\<rparr>)"
  by (simp add: rand_Read_def)

lemma set_file_simps [simp]:
  "file_at p (set_file p c w) = c" "set_file p a (set_file p b w) = set_file p a w"
  "s_os (set_file p c w) = s_os w" "s_cwd (set_file p c w) = s_cwd w"
  "s_random (set_file p c w) = s_random w" "s_drawn (set_file p c w) = s_drawn w"
  by (simp_all add: set_file_def file_at_def)

lemma set_file_same: "file_at p w = c \<Longrightarrow> set_file p c w = w"
  by (simp add: set_file_def file_at_def fun_upd_idem)

lemma file_at_scripts [simp]:
  "file_at p (w\<lparr>s_drawn := n\<rparr>) = file_at p w" "file_at p (w\<lparr>s_tried := n\<rparr>) = file_at p w"
  "file_at p (w\<lparr>s_os := fs\<rparr>) = file_at p w"
  by (simp_all add: file_at_def)

lemma set_file_scripts [simp]:
  "set_file p c (w\<lparr>s_drawn := n\<rparr>) = set_file p c w\<lparr>s_drawn := n\<rparr>"
  by (simp add: set_file_def)

lemma calm_write [simp]:
  "calm w \<Longrightarrow> file_at p w = Some c \<Longrightarrow> write_file p data w = ((length data, None), set_file p (Some (c @ data)) w)"
  by (simp add: write_file_def)

lemma calm_Remove: "calm w \<Longrightarrow> file_at p w \<noteq> None \<Longrightarrow> Remove p w = (Inr (), set_file p None w)"
  by (simp add: Remove_def)

lemma calm_Rename: "calm w \<Longrightarrow> file_at p w = Some c \<Longrightarrow> Rename p q w = (Inr (), set_file q (Some c) (set_file p None w))"
  by (simp add: Rename_def)

text \<open>The name \<open>os.CreateTemp\<close> tries first.\<close>

definition first_temp :: "string \<Rightarrow> string \<Rightarrow> 'x site_scheme \<Rightarrow> string" where
  "first_temp dir pre w = join_path dir (pre @ digits_of (s_suffix w (s_tried w)))"

lemma calm_CreateTemp:
  assumes "calm w" and "dir \<noteq> []" and "file_at (first_temp dir pre w) w = None"
  shows "CreateTemp dir pre w =
    (Inr (first_temp dir pre w), set_file (first_temp dir pre w) (Some []) (w\<lparr>s_tried := Suc (s_tried w)\<rparr>))"
proof -
  obtain n :: nat where n: "10000 = Suc n" by (metis not0_implies_Suc zero_neq_numeral)
  show ?thesis using assms unfolding CreateTemp_def n by (simp add: first_temp_def Let_def)
qed

section \<open>Reading however it comes\<close>

lemma read_full_spec:
  "fst (read_full n r) = (if n \<le> length (rd_Bytes r) then Some (take n (rd_Bytes r)) else None)
   \<and> (n \<le> length (rd_Bytes r) \<longrightarrow>
        rd_Bytes (snd (read_full n r)) = drop n (rd_Bytes r) \<and> rd_Error (snd (read_full n r)) = rd_Error r)"
proof (induction n r rule: read_full.induct)
  case (1 n r)
  show ?case
  proof (cases "n = 0 \<or> rd_Bytes r = []")
    case True
    then show ?thesis by (auto simp: read_full.simps [of n])
  next
    case False
    obtain chunk r1 where step: "read_some n r = (chunk, r1)" by fastforce
    then have bytes: "rd_Bytes r = chunk @ rd_Bytes r1" "rd_Error r1 = rd_Error r"
      using read_some_rest [of r n] by simp_all
    have len: "length chunk \<le> n" using read_some_bounds [of n r] False step by simp
    obtain rest r2 where rec: "read_full (n - length chunk) r1 = (rest, r2)" by fastforce
    have "read_full n r = (map_option (\<lambda>s. chunk @ s) rest, r2)"
      using False step rec by (simp add: read_full.simps [of n])
    moreover have "rest = (if n - length chunk \<le> length (rd_Bytes r1) then Some (take (n - length chunk) (rd_Bytes r1)) else None)
        \<and> (n - length chunk \<le> length (rd_Bytes r1) \<longrightarrow>
             rd_Bytes r2 = drop (n - length chunk) (rd_Bytes r1) \<and> rd_Error r2 = rd_Error r1)"
      using "1.IH" [OF _ _ step [symmetric]] False rec by simp
    ultimately show ?thesis using bytes len by auto
  qed
qed

lemma int64_id: "- (2 ^ 63) \<le> n \<Longrightarrow> n < 2 ^ 63 \<Longrightarrow> int64 n = n"
  by (simp add: int64_def)

text \<open>The writer holds what it has written, and has room for it.\<close>

definition lw_holds :: "limited_writer \<Rightarrow> 'x site_scheme \<Rightarrow> bool" where
  "lw_holds lw w \<longleftrightarrow>
     calm w \<and> file_at (lw_path lw) w = Some (lw_hash lw) \<and> lw_size lw = int (length (lw_hash lw))
     \<and> lw_size lw \<le> lw_limit lw \<and> lw_limit lw < 2 ^ 63"

abbreviation written :: "string \<Rightarrow> limited_writer \<Rightarrow> limited_writer" where
  "written data lw \<equiv> lw\<lparr>lw_hash := lw_hash lw @ data, lw_size := lw_size lw + int (length data)\<rparr>"

lemma lw_write_room:
  assumes "lw_holds lw w" and "lw_size lw + int (length data) \<le> lw_limit lw"
  shows "lw_write data lw w = ((length data, None, written data lw), set_file (lw_path lw) (Some (lw_hash lw @ data)) w)"
    and "lw_holds (written data lw) (set_file (lw_path lw) (Some (lw_hash lw @ data)) w)"
  using assms by (simp_all add: lw_write_def multi_write_def lw_holds_def int64_id)

lemma lw_write_full:
  assumes "lw_holds lw w" and "lw_limit lw < lw_size lw + int (length data)" and "lw_size lw + int (length data) < 2 ^ 63"
  shows "\<exists>lw1 c. lw_write data lw w = ((length data, Some ErrFileTooLarge, lw1), set_file (lw_path lw) (Some c) w)"
proof (cases "0 < lw_limit lw - lw_size lw")
  case True
  then show ?thesis using assms by (auto simp: lw_write_def multi_write_def lw_holds_def int64_id Let_def)
next
  case False
  then have "lw_write data lw w = ((length data, Some ErrFileTooLarge, lw), w)"
    using assms by (simp add: lw_write_def lw_holds_def int64_id)
  moreover have "set_file (lw_path lw) (Some (lw_hash lw)) w = w"
    using assms(1) by (intro set_file_same) (simp add: lw_holds_def)
  ultimately show ?thesis by metis
qed

lemma io_copy_spec:
  assumes "lw_holds lw w" and "lw_size lw + int (length (rd_Bytes r)) < 2 ^ 63"
  shows "if lw_size lw + int (length (rd_Bytes r)) \<le> lw_limit lw
     then io_copy r lw w = ((rd_Error r, written (rd_Bytes r) lw), set_file (lw_path lw) (Some (lw_hash lw @ rd_Bytes r)) w)
     else \<exists>lw1 c. io_copy r lw w = ((Some ErrFileTooLarge, lw1), set_file (lw_path lw) (Some c) w)"
  using assms
proof (induction r lw w rule: io_copy.induct)
  case (1 r lw w)
  show ?case
  proof (cases "rd_Bytes r = []")
    case True
    then show ?thesis using "1.prems" by (simp add: io_copy.simps [of r] lw_holds_def set_file_same)
  next
    case False
    obtain chunk r1 where step: "read_some copy_buffer r = (chunk, r1)" by fastforce
    then have bytes: "rd_Bytes r = chunk @ rd_Bytes r1" "rd_Error r1 = rd_Error r"
      using read_some_rest [of r copy_buffer] by simp_all
    let ?w = "set_file (lw_path lw) (Some (lw_hash lw @ chunk)) w"
    show ?thesis
    proof (cases "lw_size lw + int (length chunk) \<le> lw_limit lw")
      case True
      note wr = lw_write_room [OF "1.prems"(1) True]
      have copy: "io_copy r lw w = io_copy r1 (written chunk lw) ?w"
        using False step wr(1) by (simp add: io_copy.simps [of r])
      have size: "lw_size (written chunk lw) + int (length (rd_Bytes r1)) = lw_size lw + int (length (rd_Bytes r))"
        using bytes by simp
      note rec = "1.IH" [OF False, unfolded step fst_conv snd_conv, OF wr(1) [symmetric] refl refl refl wr(2) [unfolded fst_conv]]
      show ?thesis
        using rec "1.prems"(2) bytes unfolding copy size by (auto simp: algebra_simps split: if_splits)
    next
      case False': False
      have "lw_size lw + int (length chunk) < 2 ^ 63" using "1.prems"(2) bytes by simp
      then obtain lw1 c where "lw_write chunk lw w = ((length chunk, Some ErrFileTooLarge, lw1), set_file (lw_path lw) (Some c) w)"
        using lw_write_full [OF "1.prems"(1)] False' by force
      then show ?thesis using False False' step bytes by (auto simp: io_copy.simps [of r])
    qed
  qed
qed


section \<open>Generated keys\<close>

lemma hex_name_proper:
  assumes "ext = CHR ''.'' # e # es" and "e \<noteq> CHR ''.''" and "slash \<notin> set ext"
  shows "proper (hex_of_bytes s @ ext) \<and> hex_of_bytes s @ ext \<noteq> dotdot"
proof -
  have no: "c \<notin> set (hex_of_bytes s)" if "c = slash \<or> c = CHR ''.''" for c
    using hex_of_bytes_digits [of c s] that by (auto simp: slash_def byte_in_def)
  have "hex_of_bytes s @ ext \<noteq> ''.''" "slash \<notin> set (hex_of_bytes s @ ext)" using assms no [of slash] by (auto simp: append_eq_Cons_conv)
  moreover have "hex_of_bytes s @ ext \<noteq> dotdot" using no [of "CHR ''.''"] assms(1,2)
    by (cases "hex_of_bytes s") auto
  ultimately show ?thesis using assms no by (cases "hex_of_bytes s") (auto simp: proper_def)
qed

lemma generated_key:
  assumes "proper d" "d \<noteq> dotdot" "proper n" "n \<noteq> dotdot"
  shows "path_join [d, n] = d @ ''/'' @ n \<and> parts (d @ ''/'' @ n) = [d, n] \<and> path_clean (d @ ''/'' @ n) = d @ ''/'' @ n
    \<and> \<not> is_abs (d @ ''/'' @ n) \<and> \<not> has_prefix (d @ ''/'' @ n) ''../'' \<and> d @ ''/'' @ n \<noteq> ''.'' \<and> d @ ''/'' @ n \<noteq> dotdot"
proof -
  have rel: "\<not> is_abs (join_slash [d, n])" using assms by (intro join_proper_not_abs) simp
  have ps: "parts (join_slash [d, n]) = [d, n]" using assms by (intro parts_relative) auto
  have c: "path_clean (join_slash [d, n]) = join_slash [d, n]" using rel ps by (simp add: path_clean_def)
  have d: "d \<noteq> []" "n \<noteq> []" "d \<noteq> ''.''" using assms by (simp_all add: proper_def)
  have "\<not> has_prefix (d @ ''/'' @ n) ''../''"
  proof
    assume "has_prefix (d @ ''/'' @ n) ''../''"
    then obtain t where "d @ ''/'' @ n = ''../'' @ t" by (auto simp: has_prefix_append)
    then have "split_slash (d @ CHR ''/'' # n) = dotdot # split_slash t" by simp
    moreover have "split_slash (d @ CHR ''/'' # n) = d # split_slash n"
      using assms(1) by (intro split_slash_append) (simp add: proper_def)
    ultimately show False using assms(2) by simp
  qed
  moreover have "d @ ''/'' @ n \<noteq> ''.''" "d @ ''/'' @ n \<noteq> dotdot" using d by (auto simp: append_eq_Cons_conv)
  ultimately show ?thesis using rel ps c d by (simp add: path_join_def)
qed

lemma documents_key:
  "let key = ''documents/'' @ hex_of_bytes s @ ''.pdf'' in
     path_join [''documents'', hex_of_bytes s @ ''.pdf''] = key \<and> path_clean key = key \<and> parts key \<noteq> [] \<and> \<not> is_abs key
     \<and> \<not> has_prefix key ''../'' \<and> key \<noteq> ''.'' \<and> key \<noteq> dotdot"
  using generated_key [of "''documents''" "hex_of_bytes s @ ''.pdf''"] hex_name_proper [of "''.pdf''" "CHR ''p''" "''df''" s]
  by (simp add: Let_def proper_def slash_def)

text \<open>Where a key leads when the working directory is known.\<close>

definition destination :: "string \<Rightarrow> string \<Rightarrow> string \<Rightarrow> string" where
  "destination cwd rt key = path_join [place cwd rt, key]"

lemma path_clean_idem: "is_abs s \<Longrightarrow> path_clean (path_clean s) = path_clean s"
  using path_clean_absolute [of s] path_clean_inj [of "path_clean s" s] by blast

lemma destination_clean:
  assumes "is_abs cwd"
  shows "place cwd' (destination cwd rt key) = destination cwd rt key"
proof -
  have rt: "is_abs (place cwd rt)" using parts_place [OF assms] by blast
  then have "place cwd rt \<noteq> []" by (auto simp: is_abs_iff)
  then have "destination cwd rt key = path_clean (place cwd rt @ CHR ''/'' # key)"
    by (simp add: destination_def path_join_def)
  moreover have "is_abs (place cwd rt @ CHR ''/'' # key)" using rt by (rule is_abs_append)
  ultimately show ?thesis using path_clean_absolute path_clean_idem by (simp add: place_def)
qed

lemma calm_document_path:
  assumes "calm w" and "is_abs (s_cwd w)" and "path_clean key = key" and "\<not> is_abs key" and "\<not> has_prefix key ''../''"
    and "key \<noteq> ''.''" and "key \<noteq> dotdot"
  shows "FileStore_pathFor store key w = (Inr (destination (s_cwd w) (fs_Root store) key), w)"
proof -
  let ?r = "place (s_cwd w) (fs_Root store)" and ?d = "destination (s_cwd w) (fs_Root store) key"
  have k: "path_clean key = join_slash (parts key)" "parts key \<noteq> []" "dotdot \<notin> set (parts key)"
    "\<forall>p \<in> set (parts key). proper p"
    using accepted_key [of key] assms by auto
  have below: "is_abs ?d" "parts ?d = parts ?r @ parts key"
    using below_root [of key "s_cwd w" "fs_Root store"] assms by (simp_all add: destination_def)
  have r: "is_abs ?r" using parts_place [OF assms(2)] by blast
  have rel: "path_rel ?r ?d = Inr key" using path_rel_below [OF r below k(2)] assms(3) k(1) by simp
  have "file_Abs (path_join [?r, key]) w = (Inr ?d, w)"
    using assms(1) destination_clean [OF assms(2)] by (simp add: destination_def)
  then show ?thesis
    using assms rel by (simp add: FileStore_pathFor_def Let_def and_then_def wrapping_def ok_def)
qed


section \<open>Storing an upload\<close>

lemma documents_generated:
  fixes s :: string
  defines "key \<equiv> ''documents/'' @ hex_of_bytes s @ ''.pdf''"
  assumes "calm w" and "is_abs (s_cwd w)"
  shows "path_join [''documents'', hex_of_bytes s @ ''.pdf''] = key"
    and "FileStore_pathFor store key w = (Inr (destination (s_cwd w) (fs_Root store) key), w)"
  using documents_key [of s] calm_document_path [OF assms(2,3), of key store] unfolding key_def Let_def by blast+

text \<open>The upload is written to the temporary file, or the reason why not is returned.\<close>

definition upload_error :: "file_store \<Rightarrow> reader \<Rightarrow> err option" where
  "upload_error store source =
     (if \<not> has_prefix (rd_Bytes source) pdf_magic then Some ErrInvalidPDF
      else if int (length (rd_Bytes source)) > fs_MaxBytes store then Some ErrFileTooLarge
      else case rd_Error source of
        None \<Rightarrow> None
      | Some e \<Rightarrow> if errors_is e ErrFileTooLarge then Some ErrFileTooLarge else Some (Errorf ''write document: %w'' [AW e]))"

lemma giving_up_calm: "calm w \<Longrightarrow> ignoring os_call (fail e) w = (Inl e, w)"
  by (simp add: ignoring_def attempt_def fail_def)

lemma too_large_itself [simp]: "errors_is ErrFileTooLarge ErrFileTooLarge"
  by simp

lemma write_upload_spec:
  assumes calm: "calm w" and tmp: "file_at temporary w = Some []"
    and limit: "0 < fs_MaxBytes store" "fs_MaxBytes store < 2 ^ 63" and small: "int (length (rd_Bytes source)) < 2 ^ 63"
  shows "case upload_error store source of
     None \<Rightarrow> write_upload store source temporary w =
       (Inr \<lparr>lw_path = temporary, lw_hash = rd_Bytes source, lw_limit = fs_MaxBytes store,
             lw_size = int (length (rd_Bytes source))\<rparr>, set_file temporary (Some (rd_Bytes source)) w)
   | Some e \<Rightarrow> \<exists>c. write_upload store source temporary w = (Inl e, set_file temporary (Some c) w)"
proof -
  let ?n = "length pdf_magic" and ?b = "rd_Bytes source"
  let ?lw = "\<lparr>lw_path = temporary, lw_hash = [], lw_limit = fs_MaxBytes store, lw_size = 0\<rparr>"
  obtain h rest where rf: "read_full ?n source = (h, rest)" by fastforce
  have h: "h = (if ?n \<le> length ?b then Some (take ?n ?b) else None)"
    and rest: "?n \<le> length ?b \<Longrightarrow> rd_Bytes rest = drop ?n ?b \<and> rd_Error rest = rd_Error source"
    using read_full_spec [of ?n source] rf by simp_all
  have same: "set_file temporary (Some []) w = w" using tmp by (rule set_file_same)
  have holds: "lw_holds ?lw w" using calm tmp limit by (simp add: lw_holds_def)
  show ?thesis
  proof (cases "has_prefix ?b pdf_magic")
    case False
    then have "h \<noteq> Some pdf_magic" using h by (auto simp: has_prefix_def split: if_splits)
    then have "write_upload store source temporary w = (Inl ErrInvalidPDF, w)"
      using rf calm by (auto simp: write_upload_def giving_up_calm split: option.split)
    then have "write_upload store source temporary w = (Inl ErrInvalidPDF, set_file temporary (Some []) w)" using same by simp
    then show ?thesis using False by (auto simp: upload_error_def)
  next
    case True
    then have header: "h = Some pdf_magic" and len: "?n \<le> length ?b" and b: "?b = pdf_magic @ rd_Bytes rest"
      using h rest by (auto simp: has_prefix_append)
    have run: "write_upload store source temporary w = and_then (write_header pdf_magic ?lw) (\<lambda>lw. write_rest rest lw) w"
      using rf header by (simp add: write_upload_def)
    show ?thesis
    proof (cases "int ?n \<le> fs_MaxBytes store")
      case room: True
      let ?w = "set_file temporary (Some pdf_magic) w"
      have wr: "lw_write pdf_magic ?lw w = ((?n, None, written pdf_magic ?lw), ?w)" "lw_holds (written pdf_magic ?lw) ?w"
        using lw_write_room [OF holds, of pdf_magic] room by simp_all
      have run': "write_upload store source temporary w = write_rest rest (written pdf_magic ?lw) ?w"
        unfolding run using wr(1) by (simp add: write_header_def and_then_def)
      have bytes: "int ?n + int (length (rd_Bytes rest)) = int (length ?b)" using b by simp
      have copy: "if int (length ?b) \<le> fs_MaxBytes store
        then io_copy rest (written pdf_magic ?lw) ?w =
          ((rd_Error rest, written (rd_Bytes rest) (written pdf_magic ?lw)), set_file temporary (Some (pdf_magic @ rd_Bytes rest)) ?w)
        else \<exists>lw1 c. io_copy rest (written pdf_magic ?lw) ?w = ((Some ErrFileTooLarge, lw1), set_file temporary (Some c) ?w)"
        using io_copy_spec [OF wr(2), of rest] small bytes by (simp split: if_splits)
      show ?thesis
      proof (cases "int (length ?b) \<le> fs_MaxBytes store")
        case fits: True
        have io: "io_copy rest (written pdf_magic ?lw) ?w =
          ((rd_Error source, \<lparr>lw_path = temporary, lw_hash = ?b, lw_limit = fs_MaxBytes store, lw_size = int (length ?b)\<rparr>),
           set_file temporary (Some ?b) w)"
          using copy fits conjunct2 [OF rest [OF len]] bytes by (simp add: b [symmetric])
        show ?thesis
        proof (cases "rd_Error source")
          case None
          have "upload_error store source = None" unfolding upload_error_def using True fits None by simp
          moreover have "write_upload store source temporary w =
            (Inr \<lparr>lw_path = temporary, lw_hash = ?b, lw_limit = fs_MaxBytes store, lw_size = int (length ?b)\<rparr>,
             set_file temporary (Some ?b) w)"
            unfolding run' write_rest_def io None by simp
          ultimately show ?thesis by simp
        next
          case (Some e)
          define cause where "cause = (if errors_is e ErrFileTooLarge then ErrFileTooLarge else Errorf ''write document: %w'' [AW e])"
          have "upload_error store source = Some cause" unfolding upload_error_def cause_def using True fits Some by simp
          moreover have "calm (set_file temporary (Some ?b) w)" using calm by simp
          then have "write_upload store source temporary w = (Inl cause, set_file temporary (Some ?b) w)"
            unfolding run' write_rest_def io Some cause_def by (simp add: giving_up_calm)
          ultimately show ?thesis by auto
        qed
      next
        case over: False
        then obtain lw1 c where "io_copy rest (written pdf_magic ?lw) ?w = ((Some ErrFileTooLarge, lw1), set_file temporary (Some c) ?w)"
          using copy by auto
        then have "write_upload store source temporary w = (Inl ErrFileTooLarge, set_file temporary (Some c) w)"
          unfolding run' using calm by (simp add: write_rest_def giving_up_calm)
        then show ?thesis using True over by (auto simp: upload_error_def)
      qed
    next
      case over: False
      have "lw_limit ?lw < lw_size ?lw + int (length pdf_magic)" using over by simp
      moreover have "lw_size ?lw + int (length pdf_magic) < 2 ^ 63" by (simp add: pdf_magic_def)
      ultimately obtain lw1 c where "lw_write pdf_magic ?lw w = ((?n, Some ErrFileTooLarge, lw1), set_file temporary (Some c) w)"
        using lw_write_full [OF holds] by fastforce
      then have "write_upload store source temporary w = (Inl ErrFileTooLarge, set_file temporary (Some c) w)"
        unfolding run using calm by (simp add: write_header_def giving_up_calm and_then_def)
      then show ?thesis using True over len by (auto simp: upload_error_def)
    qed
  qed
qed

text \<open>
  While the operating system refuses nothing, an upload is stored exactly when it begins as a PDF, its
  size is within the limit and it can be read to its end, however the reader cuts it into pieces.
  The new file then holds exactly the bytes of the upload, under a key made of 32 hexadecimal digits,
  and the reported checksum and size are those of the bytes; otherwise no file is left behind.
\<close>

lemma save_document_spec:
  assumes "calm w" and "is_abs (s_cwd w)" and "fs_Root store \<noteq> []"
    and "file_at (first_temp (fs_Root store) ''.upload-'' w) w = None"
    and "0 < fs_MaxBytes store" and "fs_MaxBytes store < 2 ^ 63" and "int (length (rd_Bytes source)) < 2 ^ 63"
  shows "let w1 = w\<lparr>s_tried := Suc (s_tried w)\<rparr>;
             key = ''documents/'' @ hex_of_bytes (s_random w (s_drawn w)) @ ''.pdf'' in
     FileStore_Save store source w =
       (case upload_error store source of
          None \<Rightarrow>
            (Inr \<lparr>sf_StorageKey = key, sf_SHA256 = sha256_hex (rd_Bytes source),
                  sf_SizeBytes = int (length (rd_Bytes source))\<rparr>,
             w1\<lparr>s_drawn := Suc (s_drawn w),
                s_files := (s_files w)(destination (s_cwd w) (fs_Root store) key := Some (rd_Bytes source))\<rparr>)
        | Some e \<Rightarrow> (Inl e, w1))"
proof -
  let ?tmp = "first_temp (fs_Root store) ''.upload-'' w"
  define w1 where "w1 = w\<lparr>s_tried := Suc (s_tried w)\<rparr>"
  define w2 where "w2 = set_file ?tmp (Some []) w1"
  have w2: "calm w2" "file_at ?tmp w2 = Some []" "s_cwd w2 = s_cwd w" "s_random w2 = s_random w" "s_drawn w2 = s_drawn w"
    using assms(1) by (simp_all add: w2_def w1_def)
  have undo: "set_file ?tmp None (set_file ?tmp (Some c) w2) = w1" for c
    using assms(4) by (simp add: w2_def) (simp add: set_file_same w1_def)
  have start: "FileStore_Save store source w =
      attempt (store_upload store source ?tmp) (\<lambda>r. case r of Inl e \<Rightarrow> ignoring (Remove ?tmp) (fail e) | Inr stored \<Rightarrow> ok stored) w2"
    using assms(1,3-5) calm_CreateTemp [OF assms(1,3,4)]
    by (simp add: FileStore_Save_def and_then_def wrapping_def w2_def w1_def)
  note upload = write_upload_spec [OF w2(1,2) assms(5-7)]
  show ?thesis
  proof (cases "upload_error store source")
    case (Some e)
    then obtain c where "write_upload store source ?tmp w2 = (Inl e, set_file ?tmp (Some c) w2)"
      using upload by auto
    then have "store_upload store source ?tmp w2 = (Inl e, set_file ?tmp (Some c) w2)"
      by (simp add: store_upload_def and_then_def)
    then have "FileStore_Save store source w = (Inl e, w1)"
      using w2(1) undo unfolding start by (simp add: attempt_def ignoring_def calm_Remove fail_def)
    then show ?thesis using Some by (simp add: w1_def Let_def)
  next
    case None
    let ?lw = "\<lparr>lw_path = ?tmp, lw_hash = rd_Bytes source, lw_limit = fs_MaxBytes store, lw_size = int (length (rd_Bytes source))\<rparr>"
    let ?b = "Some (rd_Bytes source)" and ?name = "hex_of_bytes (s_random w (s_drawn w))"
    define key where "key = ''documents/'' @ ?name @ ''.pdf''"
    define w3 where "w3 = (set_file ?tmp ?b w2)\<lparr>s_drawn := Suc (s_drawn w)\<rparr>"
    have written: "write_upload store source ?tmp w2 = (Inr ?lw, set_file ?tmp ?b w2)" using upload None by simp
    have w3: "calm w3" "s_cwd w3 = s_cwd w" "file_at ?tmp w3 = ?b" using w2 by (simp_all add: w3_def)
    have named: "path_join [''documents'', ?name @ ''.pdf''] = key"
      "FileStore_pathFor store key w3 = (Inr (destination (s_cwd w) (fs_Root store) key), w3)"
      using documents_generated(1) [of w3 "s_random w (s_drawn w)"] documents_generated(2) [of w3 store "s_random w (s_drawn w)"]
        w3(1,2) assms(2) by (simp_all add: key_def)
    have "set_file ?tmp None w3 = w1\<lparr>s_drawn := Suc (s_drawn w)\<rparr>"
      using undo [of "rd_Bytes source"] by (simp add: w3_def)
    then have "Rename ?tmp (destination (s_cwd w) (fs_Root store) key) w3 =
        (Inr (), set_file (destination (s_cwd w) (fs_Root store) key) ?b (w1\<lparr>s_drawn := Suc (s_drawn w)\<rparr>))"
      using calm_Rename [OF w3(1,3)] by simp
    then have "store_upload store source ?tmp w2 =
        (Inr \<lparr>sf_StorageKey = key, sf_SHA256 = sha256_hex (rd_Bytes source), sf_SizeBytes = int (length (rd_Bytes source))\<rparr>,
         set_file (destination (s_cwd w) (fs_Root store) key) ?b (w1\<lparr>s_drawn := Suc (s_drawn w)\<rparr>))"
      using written w2 named w3(1)
      by (simp add: store_upload_def and_then_def wrapping_def randomName_def ok_def Let_def w3_def)
    then show ?thesis
      using None destination_clean [OF assms(2)] unfolding start
      by (simp add: attempt_def ok_def w1_def key_def Let_def set_file_def)
  qed
qed


section \<open>Storing a snapshot or an artifact\<close>

text \<open>Where such a file goes, and what the world is like afterwards.\<close>

definition blob_stored :: "string \<Rightarrow> string \<Rightarrow> string \<Rightarrow> 'x site_scheme \<Rightarrow> 'x site_scheme" where
  "blob_stored rt key data w =
     w\<lparr>s_tried := Suc (s_tried w), s_drawn := Suc (s_drawn w),
       s_files := (s_files w)(destination (s_cwd w) rt key := Some data)\<rparr>"

lemma file_at_tried [simp]: "s_files (set_file p c w) = (s_files w)(place (s_cwd w) p := c)"
  by (simp add: set_file_def)

context key_space
begin

lemma calm_save_chain:
  assumes "calm w" and "is_abs (s_cwd w)"
    and path: "\<And>w1. calm w1 \<Longrightarrow> s_cwd w1 = s_cwd w \<Longrightarrow>
      path_for (key (s_random w (s_drawn w))) w1 = (Inr (destination (s_cwd w) rt (key (s_random w (s_drawn w)))), w1)"
    and free: "file_at (first_temp (path_dir (destination (s_cwd w) rt (key (s_random w (s_drawn w))))) pre w) w = None"
  shows "save_chain ms key pre data w = (Inr (key (s_random w (s_drawn w))), blob_stored rt (key (s_random w (s_drawn w))) data w)"
proof -
  let ?k = "key (s_random w (s_drawn w))"
  let ?dest = "destination (s_cwd w) rt ?k"
  define tmp where "tmp = first_temp (path_dir ?dest) pre w"
  define w1 where "w1 = w\<lparr>s_drawn := Suc (s_drawn w)\<rparr>"
  have w1: "calm w1" "s_cwd w1 = s_cwd w" "first_temp (path_dir ?dest) pre w1 = tmp" "file_at tmp w1 = None"
    using assms(1) free by (simp_all add: w1_def tmp_def first_temp_def)
  have "is_abs ?dest" using lands [OF path [OF w1(1,2)]] assms(2) w1(2) by simp
  then have dir: "path_dir ?dest \<noteq> []" by (simp add: path_dir_def)
  define w2 where "w2 = set_file tmp (Some []) (w1\<lparr>s_tried := Suc (s_tried w1)\<rparr>)"
  have temp: "CreateTemp (path_dir ?dest) pre w1 = (Inr tmp, w2)"
    using calm_CreateTemp [OF w1(1) dir] w1(3,4) by (simp add: w2_def)
  have w2: "calm w2" "file_at tmp w2 = Some []" using w1(1) by (simp_all add: w2_def)
  have wr: "write_bytes tmp data w2 = (Inr (), set_file tmp (Some data) w2)"
    using w2 by (simp add: write_bytes_def)
  have w3: "calm (set_file tmp (Some data) w2)" using w2 by simp
  have ren: "Rename tmp ?dest (set_file tmp (Some data) w2) = (Inr (), set_file ?dest (Some data) (set_file tmp None w2))"
    using calm_Rename [OF w3] by simp
  have "set_file tmp None w2 = w1\<lparr>s_tried := Suc (s_tried w1)\<rparr>"
    using w1(4) by (simp add: w2_def set_file_same)
  then have last: "set_file ?dest (Some data) (set_file tmp None w2) = blob_stored rt ?k data w"
    using destination_clean [OF assms(2)] by (simp add: blob_stored_def set_file_def w1_def)
  have first: "rand_Read w = (Inr (s_random w (s_drawn w)), w1)" using assms(1) by (simp add: w1_def)
  show ?thesis
    by (simp add: and_then_def wrapping_def first path [OF w1(1,2)] w1(1) w2(1) temp wr cleaning_def attempt_def ok_def w3 ren last)
qed

end

lemma calm_simple_path:
  assumes "calm w" and "path_clean key = key" and "\<not> is_abs key" and "\<not> has_prefix key ''..''" and "key \<noteq> ''.''"
    and "is_abs (s_cwd w)"
  shows "SnapshotStore_pathFor rt key w = (Inr (destination (s_cwd w) rt key), w)"
    and "ArtifactStore_pathFor rt key w = (Inr (destination (s_cwd w) rt key), w)"
  using assms
  by (simp_all add: SnapshotStore_pathFor_def ArtifactStore_pathFor_def Let_def and_then_def wrapping_def ok_def destination_def)

lemma csv_key:
  assumes "proper d" and "d \<noteq> dotdot" and "hd d \<noteq> CHR ''.''"
  shows "let key = d @ ''/'' @ hex_of_bytes s @ ''.csv'' in
    path_join [d, hex_of_bytes s @ ''.csv''] = key \<and> path_clean key = key \<and> \<not> is_abs key
    \<and> \<not> has_prefix key ''..'' \<and> key \<noteq> ''.''"
proof -
  have "\<not> has_prefix (d @ t) ''..''" for t
    using assms(1,3) by (cases d) (auto simp: has_prefix_def proper_def)
  then show ?thesis
    using generated_key [OF assms(1,2), of "hex_of_bytes s @ ''.csv''"] hex_name_proper [of "''.csv''" "CHR ''c''" "''sv''" s]
    by (simp add: Let_def slash_def)
qed

definition snapshot_key :: "'x site_scheme \<Rightarrow> string" where
  "snapshot_key w = ''market-data/'' @ hex_of_bytes (s_random w (s_drawn w)) @ ''.csv''"

definition artifact_key :: "'x site_scheme \<Rightarrow> string" where
  "artifact_key w = ''backtests/'' @ hex_of_bytes (s_random w (s_drawn w)) @ ''.csv''"

lemma calm_SnapshotStore_Save:
  assumes "calm w" and "is_abs (s_cwd w)"
    and "file_at (first_temp (path_dir (destination (s_cwd w) rt (snapshot_key w))) ''.snapshot-'' w) w = None"
  shows "SnapshotStore_Save rt csv w = (Inr (snapshot_key w), blob_stored rt (snapshot_key w) csv w)"
proof -
  have k: "path_join [''market-data'', hex_of_bytes (s_random w (s_drawn w)) @ ''.csv''] = snapshot_key w"
    "path_clean (snapshot_key w) = snapshot_key w" "\<not> is_abs (snapshot_key w)" "\<not> has_prefix (snapshot_key w) ''..''"
    "snapshot_key w \<noteq> ''.''"
    using csv_key [of "''market-data''" "s_random w (s_drawn w)"]
    by (simp_all add: Let_def snapshot_key_def proper_def slash_def)
  have path: "SnapshotStore_pathFor rt (snapshot_key w) w1 = (Inr (destination (s_cwd w) rt (snapshot_key w)), w1)"
    if "calm w1" "s_cwd w1 = s_cwd w" for w1 :: "'a site_scheme"
    using calm_simple_path(1) [OF that(1) k(2-5), of rt] that(2) assms(2) by simp
  show ?thesis
    using snapshot_keys.calm_save_chain [where w = w and rt = rt and key = "\<lambda>name. path_join [''market-data'', hex_of_bytes name @ ''.csv'']"
        and pre = "''.snapshot-''" and data = csv and ms = "[''generate snapshot storage key: %w'', ''create snapshot directory: %w'', ''create temporary snapshot: %w'',
          ''write snapshot: %w'', ''close snapshot: %w'', ''store snapshot: %w'']"] assms
      path k(1)
    by (simp add: SnapshotStore_Save_def Let_def)
qed

lemma calm_ArtifactStore_Save:
  assumes "calm w" and "is_abs (s_cwd w)"
    and "file_at (first_temp (path_dir (destination (s_cwd w) rt (artifact_key w))) ''.backtest-'' w) w = None"
  shows "ArtifactStore_Save rt content w = (Inr (artifact_key w), blob_stored rt (artifact_key w) content w)"
proof -
  have k: "path_join [''backtests'', hex_of_bytes (s_random w (s_drawn w)) @ ''.csv''] = artifact_key w"
    "path_clean (artifact_key w) = artifact_key w" "\<not> is_abs (artifact_key w)" "\<not> has_prefix (artifact_key w) ''..''"
    "artifact_key w \<noteq> ''.''"
    using csv_key [of "''backtests''" "s_random w (s_drawn w)"]
    by (simp_all add: Let_def artifact_key_def proper_def slash_def)
  have path: "ArtifactStore_pathFor rt (artifact_key w) w1 = (Inr (destination (s_cwd w) rt (artifact_key w)), w1)"
    if "calm w1" "s_cwd w1 = s_cwd w" for w1 :: "'a site_scheme"
    using calm_simple_path(2) [OF that(1) k(2-5), of rt] that(2) assms(2) by simp
  show ?thesis
    using artifact_keys.calm_save_chain [where w = w and rt = rt and key = "\<lambda>name. path_join [''backtests'', hex_of_bytes name @ ''.csv'']"
        and pre = "''.backtest-''" and data = content and ms = "[''generate backtest storage key: %w'', ''create backtest directory: %w'', ''create temporary backtest artifact: %w'',
          ''write backtest artifact: %w'', ''close backtest artifact: %w'', ''store backtest artifact: %w'']"] assms
      path k(1)
    by (simp add: ArtifactStore_Save_def Let_def)
qed

end
