(* ===== verification/CanonicalCsv.thy ===== *)
theory CanonicalCsv
  imports FileSpec Sql GoSort
begin

text \<open>
  The snapshot bytes of \<open>internal/marketdata/storage.go\<close>: bars sorted by symbol and date, one line each,
  every price as its shortest decimal without an exponent, and the checksum over exactly these bytes.
\<close>

section \<open>Prices as text\<close>

text \<open>The digits of a fraction below 1, until nothing is left.\<close>

fun fraction_digits :: "nat \<Rightarrow> rat \<Rightarrow> string" where
  "fraction_digits 0 f = []"
| "fraction_digits (Suc n) f =
     (if f = 0 then [] else char_of (48 + nat \<lfloor>f * 10\<rfloor>) # fraction_digits n (f * 10 - of_int \<lfloor>f * 10\<rfloor>))"

text \<open>A decimal in full; 1100 places are more than any binary64 value has.\<close>

definition price_places :: nat where "price_places = 1100"

definition decimal_text :: "rat \<Rightarrow> string" where
  "decimal_text d =
     (let whole = \<lfloor>\<bar>d\<bar>\<rfloor>; frac = fraction_digits price_places (\<bar>d\<bar> - of_int whole)
      in (if d < 0 then ''-'' else []) @ digits_of (nat whole) @ (if frac = [] then [] else CHR ''.'' # frac))"

definition formatPrice :: "float64 \<Rightarrow> string" where
  "formatPrice x =
     (case x of
        Fin q \<Rightarrow> decimal_text (shortest_decimal q)
      | NegZero \<Rightarrow> ''-0''
      | PosInf \<Rightarrow> ''+Inf''
      | NegInf \<Rightarrow> ''-Inf''
      | NaN \<Rightarrow> ''NaN'')"

section \<open>The snapshot\<close>

definition bar_before :: "bar \<Rightarrow> bar \<Rightarrow> bool" where
  "bar_before a b =
     (if bar_Symbol a \<noteq> bar_Symbol b then bar_Symbol a < bar_Symbol b else bar_Date a < bar_Date b)"

fun join_fields :: "string list \<Rightarrow> string" where
  "join_fields [] = []"
| "join_fields [s] = s"
| "join_fields (s # ss) = s @ CHR '','' # join_fields ss"

definition bar_line :: "bar \<Rightarrow> string" where
  "bar_line b =
     join_fields [bar_Symbol b, bar_Date b, formatPrice (bar_Open b), formatPrice (bar_High b), formatPrice (bar_Low b),
       formatPrice (bar_Close b), formatPrice (bar_AdjClose b), itoa (bar_Volume b)] @ [CHR 0x0A]"

definition csv_header :: string where
  "csv_header = ''symbol,date,open,high,low,close,adj_close,volume'' @ [CHR 0x0A]"

definition CanonicalCSV :: "bar list \<Rightarrow> string" where
  "CanonicalCSV bars = csv_header @ concat (map bar_line (sort_slice bar_before bars))"

definition Checksum :: "string \<Rightarrow> string" where
  "Checksum csv = sha256_hex csv"

section \<open>The order of the input does not matter\<close>

lemma bar_before_key: "bar_before = (\<lambda>a b. (bar_Symbol a, bar_Date a) < (bar_Symbol b, bar_Date b))"
  by (auto simp: fun_eq_iff bar_before_def less_prod_def')

lemma canonical_csv_order:
  assumes "distinct (map (\<lambda>b. (bar_Symbol b, bar_Date b)) bars)" and "mset bars' = mset bars"
  shows "CanonicalCSV bars' = CanonicalCSV bars"
proof -
  have "distinct (map (\<lambda>b. (bar_Symbol b, bar_Date b)) bars')"
    using assms by (metis mset_eq_imp_distinct_iff mset_map)
  then have "sort_slice bar_before bars' = sort_slice bar_before bars"
    unfolding bar_before_key
    by (intro go_sort.srt_canonical) (use assms mset_eq_setD in \<open>auto\<close>)
  then show ?thesis by (simp add: CanonicalCSV_def)
qed

section \<open>Reading a decimal\<close>

definition digits_value :: "string \<Rightarrow> int" where
  "digits_value s = fold (\<lambda>c n. 10 * n + (int (code c) - 48)) s 0"

definition unsigned_value :: "string \<Rightarrow> rat" where
  "unsigned_value s =
     (let frac = drop 1 (dropWhile (\<lambda>c. c \<noteq> CHR ''.'') s)
      in of_int (digits_value (takeWhile (\<lambda>c. c \<noteq> CHR ''.'') s)) + of_int (digits_value frac) / 10 ^ length frac)"

definition decimal_value :: "string \<Rightarrow> rat" where
  "decimal_value s = (case s of c # r \<Rightarrow> if c = CHR ''-'' then - unsigned_value r else unsigned_value s | [] \<Rightarrow> 0)"

abbreviation digit_byte :: "char \<Rightarrow> bool" where "digit_byte c \<equiv> byte_in 48 57 c"

lemma code_char_of: "n < 256 \<Longrightarrow> code (char_of n) = n"
  by simp

lemma digits_value_append: "digits_value (s @ [c]) = 10 * digits_value s + (int (code c) - 48)"
  by (simp add: digits_value_def)

lemma digits_of_value: "digits_value (digits_of n) = int n \<and> list_all digit_byte (digits_of n) \<and> digits_of n \<noteq> []"
proof (induction n rule: digits_of.induct)
  case (1 n)
  show ?case
  proof (cases "n < 10")
    case True
    then show ?thesis by (subst (1 2 3) digits_of.simps) (simp add: digits_value_def byte_in_def)
  next
    case False
    have "int n = int (10 * (n div 10) + n mod 10)" by simp
    then have "int n = 10 * int (n div 10) + int (n mod 10)" by (simp only: of_nat_add of_nat_mult of_nat_numeral)
    moreover have "digits_of n = digits_of (n div 10) @ [char_of (48 + n mod 10)]"
      using False by (subst digits_of.simps) simp
    ultimately show ?thesis using 1 [OF False] by (simp add: digits_value_append byte_in_def)
  qed
qed

lemma digits_value_Cons: "digits_value (c # s) = (int (code c) - 48) * 10 ^ length s + digits_value s"
proof -
  have "fold (\<lambda>c n. 10 * n + (int (code c) - 48)) s a = a * 10 ^ length s + fold (\<lambda>c n. 10 * n + (int (code c) - 48)) s 0" for a
  proof (induction s arbitrary: a)
    case (Cons c s)
    show ?case
      using Cons [of "10 * a + (int (code c) - 48)"] Cons [of "int (code c) - 48"] by (simp add: algebra_simps)
  qed simp
  from this [of "int (code c) - 48"] show ?thesis by (simp add: digits_value_def)
qed

lemma fraction_digits_value:
  assumes "0 \<le> f" and "f < 1" and "f * 10 ^ n = of_int k"
  shows "of_int (digits_value (fraction_digits n f)) / 10 ^ length (fraction_digits n f) = f
    \<and> list_all digit_byte (fraction_digits n f) \<and> (fraction_digits n f = [] \<longleftrightarrow> f = 0)"
  using assms
proof (induction n arbitrary: f k)
  case 0
  have "k = 0"
  proof -
    have "of_int k < (1 :: rat)" "0 \<le> (of_int k :: rat)" using 0 by simp_all
    then show ?thesis by simp
  qed
  then show ?case using 0 by (simp add: digits_value_def)
next
  case (Suc n)
  show ?case
  proof (cases "f = 0")
    case True
    then show ?thesis by (simp add: digits_value_def)
  next
    case False
    let ?t = "\<lfloor>f * 10\<rfloor>" and ?g = "f * 10 - of_int \<lfloor>f * 10\<rfloor>"
    let ?ds = "fraction_digits n ?g"
    have t: "0 \<le> ?t" "?t < 10" using Suc.prems(1,2) by (simp_all add: floor_less_iff)
    have g: "0 \<le> ?g" "?g < 1" by linarith+
    have "?g * 10 ^ n = of_int (k - ?t * 10 ^ n)" using Suc.prems(3) by (simp add: algebra_simps)
    note IH = Suc.IH [OF g this]
    have c: "int (code (char_of (48 + nat ?t))) - 48 = ?t" "digit_byte (char_of (48 + nat ?t))"
    proof -
      obtain m where m: "?t = int m" "m < 10" using t by (metis nonneg_int_cases of_nat_less_iff of_nat_numeral)
      then have "(48 + m) mod 256 = 48 + m" by simp
      then show "int (code (char_of (48 + nat ?t))) - 48 = ?t" "digit_byte (char_of (48 + nat ?t))"
        using m by (simp_all add: byte_in_def)
    qed
    have "of_int (digits_value (char_of (48 + nat ?t) # ?ds)) / 10 ^ Suc (length ?ds)
        = (of_int ?t + of_int (digits_value ?ds) / 10 ^ length ?ds) / (10 :: rat)"
      unfolding digits_value_Cons c(1) by (simp add: field_simps)
    also have "\<dots> = f" using IH by simp
    finally show ?thesis using False IH c(2) by simp
  qed
qed

lemma digit_not_mark: "digit_byte c \<Longrightarrow> c \<noteq> CHR ''.'' \<and> c \<noteq> CHR ''-''"
  by (auto simp: byte_in_def)

lemma takeWhile_digits:
  assumes "list_all digit_byte ds"
  shows "takeWhile (\<lambda>c. c \<noteq> CHR ''.'') (ds @ CHR ''.'' # fs) = ds"
    "dropWhile (\<lambda>c. c \<noteq> CHR ''.'') (ds @ CHR ''.'' # fs) = CHR ''.'' # fs"
    "takeWhile (\<lambda>c. c \<noteq> CHR ''.'') ds = ds" "dropWhile (\<lambda>c. c \<noteq> CHR ''.'') ds = []"
proof -
  have "\<forall>c \<in> set ds. c \<noteq> CHR ''.''" using assms digit_not_mark unfolding list_all_iff by blast
  then show "takeWhile (\<lambda>c. c \<noteq> CHR ''.'') (ds @ CHR ''.'' # fs) = ds"
    "dropWhile (\<lambda>c. c \<noteq> CHR ''.'') (ds @ CHR ''.'' # fs) = CHR ''.'' # fs"
    "takeWhile (\<lambda>c. c \<noteq> CHR ''.'') ds = ds" "dropWhile (\<lambda>c. c \<noteq> CHR ''.'') ds = []"
    by (simp_all add: takeWhile_append2 dropWhile_append2)
qed

text \<open>The characters of a number, which is never the text of a special value.\<close>

definition number_text :: "string \<Rightarrow> bool" where
  "number_text s \<longleftrightarrow> list_all (\<lambda>c. digit_byte c \<or> c = CHR ''.'' \<or> c = CHR ''-'') s"

lemma decimal_text_reads_back:
  assumes "\<bar>d\<bar> * 10 ^ price_places = of_int k"
  shows "decimal_value (decimal_text d) = d \<and> number_text (decimal_text d)
    \<and> (hd (decimal_text d) = CHR ''-'' \<longrightarrow> d < 0)"
proof -
  let ?w = "\<lfloor>\<bar>d\<bar>\<rfloor>"
  define n where "n = price_places"
  let ?f = "\<bar>d\<bar> - of_int ?w" and ?ds = "digits_of (nat ?w)" and ?fs = "fraction_digits n (\<bar>d\<bar> - of_int ?w)"
  have bounds: "0 \<le> ?f" "?f < 1" by linarith+
  have "?f * 10 ^ n = of_int (k - ?w * 10 ^ n)" using assms by (simp add: algebra_simps n_def)
  note frac = fraction_digits_value [OF bounds this]
  have f: "of_int (digits_value ?fs) / 10 ^ length ?fs = ?f" "list_all digit_byte ?fs" "?fs = [] \<longleftrightarrow> ?f = 0"
    using frac by blast+
  have w: "digits_value ?ds = ?w" "list_all digit_byte ?ds" "?ds \<noteq> []"
    using digits_of_value [of "nat ?w"] by auto
  define body where "body = ?ds @ (if ?fs = [] then [] else CHR ''.'' # ?fs)"
  have "unsigned_value body = \<bar>d\<bar>"
  proof (cases "?fs = []")
    case True
    then have "\<bar>d\<bar> = of_int ?w" using f(3) by simp
    moreover have "digits_value [] = 0" by (simp add: digits_value_def)
    ultimately show ?thesis
      using True w(1) by (simp add: body_def unsigned_value_def takeWhile_digits [OF w(2)])
  next
    case False
    then show ?thesis using f(1) w(1) by (simp add: body_def unsigned_value_def takeWhile_digits [OF w(2)])
  qed
  moreover have "decimal_text d = (if d < 0 then ''-'' else []) @ body"
    by (simp add: decimal_text_def Let_def body_def n_def)
  moreover have "number_text body" using f(2) w(2) by (auto simp: body_def number_text_def list_all_iff)
  moreover obtain c r where c: "body = c # r" "c \<noteq> CHR ''-''"
    using w digit_not_mark by (cases ?ds) (auto simp: body_def)
  ultimately show ?thesis by (auto simp: decimal_value_def number_text_def)
qed

section \<open>Every price has a text\<close>

lemma round_pos_unit: "round_pos x = Fin q \<Longrightarrow> \<exists>m e. q = of_int m * two_pow e \<and> -1074 \<le> e"
proof -
  assume "round_pos x = Fin q"
  then have "q = of_int (round_even (x / two_pow (max (exponent_of x) (-1022) - 52))) * two_pow (max (exponent_of x) (-1022) - 52)"
    by (simp add: round_pos_def Let_def split: if_splits)
  moreover have "-1074 \<le> max (exponent_of x) (-1022) - 52" by linarith
  ultimately show ?thesis by blast
qed

lemma binary64_unit:
  assumes "round64 q = Fin q"
  shows "\<exists>m e. q = of_int m * two_pow e \<and> -1074 \<le> e"
proof -
  consider "q = 0" | "0 < q" | "q < 0" by linarith
  then show ?thesis
  proof cases
    case 1
    then show ?thesis by (intro exI [of _ 0] exI [of _ 0]) simp
  next
    case 2
    then show ?thesis using assms round_pos_unit [of q q] by (simp add: round64_def)
  next
    case 3
    then have "fneg (round_pos (- q)) = Fin q" using assms by (simp add: round64_def)
    then have "round_pos (- q) = Fin (- q)" using 3 by (cases "round_pos (- q)") (auto split: if_splits)
    then obtain m e where "- q = of_int m * two_pow e" "-1074 \<le> e" using round_pos_unit by blast
    then show ?thesis by (intro exI [of _ "- m"] exI [of _ e]) simp
  qed
qed

lemma unit_places:
  assumes "q = of_int m * two_pow e" and "-1074 \<le> e"
  shows "\<exists>k. q * 10 ^ price_places = of_int k"
proof -
  have "\<exists>k. two_pow e * 10 ^ price_places = of_int k"
  proof (cases "0 \<le> e")
    case True
    then show ?thesis by (intro exI [of _ "2 ^ nat e * 10 ^ price_places"]) (simp add: two_pow_def)
  next
    case False
    then have le: "nat (- e) \<le> price_places" using assms(2) by (simp add: price_places_def)
    have "(10 :: rat) ^ price_places = 2 ^ (price_places - nat (- e) + nat (- e)) * 5 ^ price_places"
      using le power_mult_distrib [of "2 :: rat" 5 price_places] by simp
    then have "two_pow e * 10 ^ price_places = 2 ^ (price_places - nat (- e)) * 5 ^ price_places"
      using False by (simp add: two_pow_def power_add)
    then show ?thesis by (intro exI [of _ "2 ^ (price_places - nat (- e)) * 5 ^ price_places"]) simp
  qed
  then obtain k where "two_pow e * 10 ^ price_places = of_int k" by blast
  then have "q * 10 ^ price_places = of_int (m * k)" using assms(1) by simp
  then show ?thesis by blast
qed

lemma decimal_at_places:
  assumes "decimal_at p q = Some d" and "p \<le> int n"
  shows "\<exists>k. d * 10 ^ n = of_int k"
proof -
  obtain m where d: "d = of_int m / ten_pow p"
    using assms(1) by (auto simp: decimal_at_def Let_def simp del: of_int_add of_int_diff split: if_splits)
  show ?thesis
  proof (cases "0 \<le> p")
    case True
    then have "(10 :: rat) ^ n = 10 ^ (n - nat p) * 10 ^ nat p" using assms(2) by (simp add: power_add [symmetric])
    then have "d * 10 ^ n = of_int (m * 10 ^ (n - nat p))" using True by (simp add: d ten_pow_def)
    then show ?thesis by blast
  next
    case False
    then have "d * 10 ^ n = of_int (m * 10 ^ nat (- p) * 10 ^ n)" by (simp add: d ten_pow_def)
    then show ?thesis by blast
  qed
qed

lemma shortest_from_places:
  "\<exists>k. q * 10 ^ N = of_int k \<Longrightarrow> p + int n \<le> int N \<Longrightarrow> \<exists>k. shortest_from n p q * 10 ^ N = of_int k"
proof (induction n p q rule: shortest_from.induct)
  case (2 n places q)
  show ?case
  proof (cases "decimal_at places q")
    case None
    then show ?thesis using 2 by simp
  next
    case (Some d)
    then show ?thesis using decimal_at_places [OF Some, of N] 2(3) by simp
  qed
qed simp

lemma shortest_places: "round64 q = Fin q \<Longrightarrow> \<exists>k. \<bar>shortest_decimal q\<bar> * 10 ^ price_places = of_int k"
proof -
  assume "round64 q = Fin q"
  then have units: "\<exists>k. q * 10 ^ price_places = of_int k" using binary64_unit unit_places by blast
  have "- int (length (digits_of (nat \<lfloor>\<bar>q\<bar>\<rfloor>))) + int 1100 \<le> int price_places" by (simp add: price_places_def)
  from shortest_from_places [OF units this] obtain k where "shortest_decimal q * 10 ^ price_places = of_int k"
    unfolding shortest_decimal_def by blast
  then have "\<bar>shortest_decimal q\<bar> * 10 ^ price_places = of_int \<bar>k\<bar>"
    by (metis abs_mult abs_of_pos of_int_abs zero_less_numeral zero_less_power)
  then show ?thesis by blast
qed

text \<open>A value the format can hold.\<close>

definition binary64 :: "float64 \<Rightarrow> bool" where
  "binary64 x \<longleftrightarrow> (case x of Fin q \<Rightarrow> round64 q = Fin q | _ \<Rightarrow> True)"

definition read_price :: "string \<Rightarrow> float64" where
  "read_price s =
     (if s = ''NaN'' then NaN else if s = ''+Inf'' then PosInf else if s = ''-Inf'' then NegInf
      else if s = ''-0'' then NegZero else round64 (decimal_value s))"

text \<open>What may stand between two separators.\<close>

definition field_text :: "string \<Rightarrow> bool" where
  "field_text s \<longleftrightarrow> CHR '','' \<notin> set s \<and> CHR 0x0A \<notin> set s"

lemma number_field: "number_text s \<Longrightarrow> field_text s"
  by (auto simp: number_text_def field_text_def list_all_iff byte_in_def)

lemma price_reads_back:
  assumes "binary64 x"
  shows "read_price (formatPrice x) = x" and "field_text (formatPrice x)"
proof -
  have "read_price (formatPrice x) = x \<and> field_text (formatPrice x)"
  proof (cases x)
    case (Fin q)
    then have q: "round64 q = Fin q" using assms by (simp add: binary64_def)
    let ?d = "shortest_decimal q"
    obtain k where "\<bar>?d\<bar> * 10 ^ price_places = of_int k" using shortest_places [OF q] by blast
    note shown = decimal_text_reads_back [OF this]
    have "decimal_text ?d \<noteq> ''-0''"
    proof
      assume zero: "decimal_text ?d = ''-0''"
      then show False using shown by (auto simp: decimal_value_def unsigned_value_def digits_value_def)
    qed
    moreover have "decimal_text ?d \<notin> {''NaN'', ''+Inf'', ''-Inf''}"
      using shown by (auto simp: number_text_def byte_in_def)
    ultimately show ?thesis
      using Fin shown shortest_decimal_reads_back [OF q] by (simp add: formatPrice_def read_price_def number_field)
  qed (simp_all add: formatPrice_def read_price_def field_text_def)
  then show "read_price (formatPrice x) = x" "field_text (formatPrice x)" by blast+
qed

definition read_int :: "string \<Rightarrow> int" where
  "read_int s = (case s of c # r \<Rightarrow> if c = CHR ''-'' then - digits_value r else digits_value s | [] \<Rightarrow> 0)"

lemma int_reads_back: "read_int (itoa n) = n" "field_text (itoa n)"
proof -
  have ds: "digits_value (digits_of k) = int k" "digits_of k \<noteq> []" "list_all digit_byte (digits_of k)" for k
    using digits_of_value by blast+
  have "read_int (digits_of k) = int k" for k
    using ds [of k] digit_not_mark by (cases "digits_of k") (auto simp: read_int_def)
  then show "read_int (itoa n) = n" using ds(1) by (auto simp: read_int_def itoa_def)
  have "number_text (itoa n)" using ds(3) by (auto simp: itoa_def number_text_def list_all_iff)
  then show "field_text (itoa n)" by (rule number_field)
qed

section \<open>Reading a snapshot\<close>

fun split_on :: "char \<Rightarrow> string \<Rightarrow> string list" where
  "split_on c [] = [[]]"
| "split_on c (x # xs) =
     (if x = c then [] # split_on c xs
      else case split_on c xs of [] \<Rightarrow> [[x]] | y # ys \<Rightarrow> (x # y) # ys)"

lemma split_on_append: "c \<notin> set s \<Longrightarrow> split_on c (s @ c # t) = s # split_on c t"
  by (induction s) auto

lemma split_on_free: "c \<notin> set s \<Longrightarrow> split_on c s = [s]"
  by (induction s) auto

definition bar_of_fields :: "string list \<Rightarrow> bar option" where
  "bar_of_fields fs =
     (case fs of
        [s, d, a, b, c, e, f, v] \<Rightarrow>
          Some \<lparr>bar_Symbol = s, bar_Date = d, bar_Open = read_price a, bar_High = read_price b, bar_Low = read_price c,
                bar_Close = read_price e, bar_AdjClose = read_price f, bar_Volume = read_int v\<rparr>
      | _ \<Rightarrow> None)"

definition bars_of_csv :: "string \<Rightarrow> bar option list" where
  "bars_of_csv csv = map (\<lambda>l. bar_of_fields (split_on CHR '','' l)) (butlast (tl (split_on (CHR 0x0A) csv)))"

definition plain_bar :: "bar \<Rightarrow> bool" where
  "plain_bar b \<longleftrightarrow>
     field_text (bar_Symbol b) \<and> field_text (bar_Date b) \<and> binary64 (bar_Open b) \<and> binary64 (bar_High b)
     \<and> binary64 (bar_Low b) \<and> binary64 (bar_Close b) \<and> binary64 (bar_AdjClose b)"

lemma join_fields_split:
  "fs \<noteq> [] \<Longrightarrow> \<forall>f \<in> set fs. field_text f \<Longrightarrow> split_on CHR '','' (join_fields fs) = fs"
proof (induction fs rule: join_fields.induct)
  case (3 s t ss)
  then show ?case by (simp add: split_on_append field_text_def)
qed (simp_all add: split_on_free field_text_def)

lemma join_fields_line: "\<forall>f \<in> set fs. field_text f \<Longrightarrow> CHR 0x0A \<notin> set (join_fields fs)"
  by (induction fs rule: join_fields.induct) (auto simp: field_text_def)

lemma bar_line_reads_back:
  assumes "plain_bar b"
  shows "\<exists>l. bar_line b = l @ [CHR 0x0A] \<and> CHR 0x0A \<notin> set l \<and> bar_of_fields (split_on CHR '','' l) = Some b"
proof -
  let ?fs = "[bar_Symbol b, bar_Date b, formatPrice (bar_Open b), formatPrice (bar_High b), formatPrice (bar_Low b),
       formatPrice (bar_Close b), formatPrice (bar_AdjClose b), itoa (bar_Volume b)]"
  have fields: "\<forall>f \<in> set ?fs. field_text f"
    using assms price_reads_back(2) int_reads_back(2) by (simp add: plain_bar_def)
  have "split_on CHR '','' (join_fields ?fs) = ?fs" by (rule join_fields_split [OF _ fields]) simp
  then have "bar_of_fields (split_on CHR '','' (join_fields ?fs)) = Some b"
    using assms price_reads_back(1) int_reads_back(1) by (simp add: bar_of_fields_def plain_bar_def del: join_fields.simps)
  then show ?thesis
    using join_fields_line [OF fields] unfolding bar_line_def by blast
qed

lemma lines_read_back:
  assumes "\<forall>b \<in> set bs. plain_bar b"
  shows "\<exists>ls. split_on (CHR 0x0A) (concat (map bar_line bs)) = ls @ [[]]
    \<and> map (\<lambda>l. bar_of_fields (split_on CHR '','' l)) ls = map Some bs"
  using assms
proof (induction bs)
  case (Cons b bs)
  then obtain ls where ls: "split_on (CHR 0x0A) (concat (map bar_line bs)) = ls @ [[]]"
    "map (\<lambda>l. bar_of_fields (split_on CHR '','' l)) ls = map Some bs" by auto
  obtain l where l: "bar_line b = l @ [CHR 0x0A]" "CHR 0x0A \<notin> set l" "bar_of_fields (split_on CHR '','' l) = Some b"
    using bar_line_reads_back [of b] Cons.prems by auto
  have "split_on (CHR 0x0A) (concat (map bar_line (b # bs))) = l # ls @ [[]]"
    using l ls(1) by (simp add: split_on_append)
  then show ?case using l(3) ls(2) by (intro exI [of _ "l # ls"]) simp
qed simp

lemma canonical_csv_reads_back:
  assumes "\<forall>b \<in> set bars. plain_bar b"
  shows "bars_of_csv (CanonicalCSV bars) = map Some (sort_slice bar_before bars)"
proof -
  have "\<forall>b \<in> set (sort_slice bar_before bars). plain_bar b" using assms by (simp add: go_sort.srt_set)
  from lines_read_back [OF this] obtain ls where
    ls: "split_on (CHR 0x0A) (concat (map bar_line (sort_slice bar_before bars))) = ls @ [[]]"
      "map (\<lambda>l. bar_of_fields (split_on CHR '','' l)) ls = map Some (sort_slice bar_before bars)" by blast
  have "split_on (CHR 0x0A) (CanonicalCSV bars) = ''symbol,date,open,high,low,close,adj_close,volume'' # ls @ [[]]"
    unfolding CanonicalCSV_def csv_header_def append_assoc
    using split_on_append [of "CHR 0x0A" "''symbol,date,open,high,low,close,adj_close,volume''"] ls(1) by simp
  then show ?thesis using ls(2) by (simp add: bars_of_csv_def)
qed

end
