(* ===== verification/StoreRuns.thy ===== *)
theory StoreRuns
  imports StoreSamples
begin

text \<open>
  Runs of the whole store: any number of API servers and workers call its operations in any order,
  each operation meeting any connection faults, while the clocks go on. The invariant of the tables
  and what is never undone hold along every run; and the job rows refine a small abstract machine.
\<close>

section \<open>Steps\<close>

text \<open>
  \<open>SetBacktestStatus\<close> steps with the statuses its callers pass; \<open>pass\<close> is the passing of time and the
  faults that lie ahead.
\<close>

inductive store_op :: "world \<Rightarrow> world \<Rightarrow> bool" where
  create_document: "CreateDocumentWithExtractionJob i w = (r, w') \<Longrightarrow> store_op w w'"
| set_document_status: "SetDocumentStatus i s w = (r, w') \<Longrightarrow> store_op w w'"
| replace_extraction: "ReplaceExtraction i e w = (r, w') \<Longrightarrow> store_op w w'"
| review_claim: "SetClaimValidationStatus i s w = (r, w') \<Longrightarrow> store_op w w'"
| create_strategy: "CreateStrategyWithCitations input w = (r, w') \<Longrightarrow> store_op w w'"
| insert_snapshot: "InsertMarketDataSnapshot input w = (r, w') \<Longrightarrow> store_op w w'"
| create_backtest: "CreateBacktestWithRunJob input w = (r, w') \<Longrightarrow> store_op w w'"
| set_backtest_status: "SetBacktestStatus i s w = (r, w') \<Longrightarrow> s \<noteq> ''completed'' \<Longrightarrow> store_op w w'"
| complete_backtest: "CompleteBacktest i result key w = (r, w') \<Longrightarrow> store_op w w'"
| market_data_job: "create_market_data_job request w = (r, w') \<Longrightarrow> store_op w w'"
| lease: "LeaseNextJob worker dur w = (r, w') \<Longrightarrow> store_op w w'"
| complete_job: "CompleteJob i w = (r, w') \<Longrightarrow> store_op w w'"
| fail_job: "FailJob j cause w = (r, w') \<Longrightarrow> store_op w w'"
| pass: "db_now (w_db w) \<le> now \<Longrightarrow>
    store_op w (w\<lparr>w_db := (w_db w)\<lparr>db_now := now\<rparr>, w_faults := faults, w_clock := clock\<rparr>)"

inductive reachable :: "world \<Rightarrow> bool" where
  start: "(\<And>n. uuid_in (uuids n) = Inr (uuids n)) \<Longrightarrow>
    reachable \<lparr>w_db = empty_db now uuids, w_faults = faults, w_clock = clock\<rparr>"
| continue: "reachable w \<Longrightarrow> store_op w w' \<Longrightarrow> reachable w'"

lemma keeps_on_db: "keeps (on_db store_step) f \<Longrightarrow> f w = (r, w') \<Longrightarrow> store_step (w_db w) (w_db w')"
  using keepsD unfolding on_db_def by metis

lemma store_op_step: "store_op w w' \<Longrightarrow> store_step (w_db w) (w_db w')"
proof (induction rule: store_op.induct)
  case (pass w now faults clock)
  show ?case by (rule store_step_same) (simp_all add: same_tables_def)
qed (erule keeps_on_db [rotated], rule effects, assumption?)+

lemma store_run_step: "store_op\<^sup>*\<^sup>* w w' \<Longrightarrow> store_step (w_db w) (w_db w')"
  by (induction rule: rtranclp_induct) (auto intro: store.R_refl store.R_trans store_op_step)

text \<open>
  C1 Whatever operations run, in whatever order and with whatever faults, the tables stay sound: keys
  are unique, references resolve, every check of the migrations holds, a claim stands on a page of
  its own document, the versions of a slug are 1, 2, 3, ... without a gap, a candidate stands under
  a run with a recorded result, and every job is in a state of its life.
\<close>

theorem store_invariant: "reachable w \<Longrightarrow> schema_ok (w_db w)"
proof (induction rule: reachable.induct)
  case (start uuids now faults clock)
  then show ?case by (simp add: schema_defs empty_db_def jobs_ok_def)
next
  case (continue w w')
  then show ?case using store_op_step by (simp add: store_step_def)
qed

lemma store_op_snd:
  "store_op w (snd (CreateDocumentWithExtractionJob i w))" "store_op w (snd (CompleteJob j w))"
  "store_op w (snd (SetClaimValidationStatus j s w))"
  by (rule store_op.create_document, rule prod.collapse [symmetric],
      rule store_op.complete_job, rule prod.collapse [symmetric],
      rule store_op.review_claim, rule prod.collapse [symmetric])

theorem store_invariant_witness:
  "schema_ok (w_db (snd (CreateDocumentWithExtractionJob sample_upload
     \<lparr>w_db = empty_db 9000 sample_uuid, w_faults = [LostAck], w_clock = 0\<rparr>)))"
  by (rule store_invariant, rule reachable.continue [OF _ store_op_snd(1)],
      rule reachable.start [of sample_uuid], rule uuid_in_sample_uuid)

text \<open>
  C2 Provenance is append-only. Along every run of the store the strategies, their citations and the
  snapshots stay as they are, in place, and are only added to; a cited claim keeps its text, quote,
  direction, confidence and page, whatever is extracted or reviewed meanwhile; and a run keeps its
  strategy, snapshot, cutoff and parameters, and never loses a recorded result.
\<close>

theorem provenance_append_only:
  assumes "store_op\<^sup>*\<^sup>* w w'" and "schema_ok (w_db w)"
  shows "prefix (db_strategies (w_db w)) (db_strategies (w_db w'))
    \<and> prefix (db_citations (w_db w)) (db_citations (w_db w'))
    \<and> prefix (db_snapshots (w_db w)) (db_snapshots (w_db w'))
    \<and> (\<forall>c \<in> set (db_claims (w_db w)). cr_ID c \<in> snd ` set (db_citations (w_db w)) \<longrightarrow>
         (\<exists>c' \<in> set (db_claims (w_db w')). c'\<lparr>cr_ValidationStatus := cr_ValidationStatus c\<rparr> = c))
    \<and> (\<forall>r \<in> set (db_runs (w_db w)). \<exists>r' \<in> set (db_runs (w_db w')). same_run r r')"
proof -
  have "grows (w_db w) (w_db w')"
    using store_run_step [OF assms(1)] assms(2) by (simp add: store_step_def)
  then have g: "prefix (db_strategies (w_db w)) (db_strategies (w_db w'))"
    "prefix (db_citations (w_db w)) (db_citations (w_db w'))" "prefix (db_snapshots (w_db w)) (db_snapshots (w_db w'))"
    "cited_kept (w_db w) (w_db w')" "rows_extend same_run (db_runs (w_db w)) (db_runs (w_db w'))"
    by (simp_all add: grows_def)
  have runs: "\<forall>r \<in> set (db_runs (w_db w)). \<exists>r' \<in> set (db_runs (w_db w')). same_run r r'"
    by (rule ballI) (rule rows_extend_row [OF g(5)])
  show ?thesis
    by (rule conjI [OF g(1) conjI [OF g(2) conjI [OF g(3) conjI [OF g(4) [unfolded cited_kept_def] runs]]]])
qed

section \<open>Jobs refine an abstract machine\<close>

datatype phase = Waiting | Held | Done | Dead

text \<open>A job with the number of times it was given to a worker.\<close>

inductive phase_step :: "phase \<times> int \<Rightarrow> phase \<times> int \<Rightarrow> bool" where
  take: "p \<in> {Waiting, Held} \<Longrightarrow> phase_step (p, n) (Held, n + 1)"
| give_back: "phase_step (Held, n) (Waiting, n)"
| finish: "phase_step (Held, n) (Done, n)"
| give_up: "phase_step (Held, n) (Dead, n)"

definition abs_job :: "job_row \<Rightarrow> phase \<times> int" where
  "abs_job j =
     (if jr_State j = ''leased'' then Held else if jr_State j = ''completed'' then Done
      else if jr_State j = ''failed'' then Dead else Waiting, job_Attempts j)"

lemma job_move_phase: "job_move j k \<Longrightarrow> phase_step (abs_job j) (abs_job k)"
proof (induction rule: job_move.induct)
  case (lease j worker until now)
  then show ?case by (auto simp: abs_job_def leased_row_def intro: phase_step.take)
next
  case (complete j now)
  then show ?case by (simp add: abs_job_def completed_row_def phase_step.finish)
next
  case (release j state available message now)
  then consider "state = ''retryable''" | "state = ''failed''" by blast
  then show ?case
    using release(1) by cases (simp_all add: abs_job_def failed_row_def phase_step.give_back phase_step.give_up)
qed

lemma job_moves_phase: "job_moves j k \<Longrightarrow> phase_step\<^sup>*\<^sup>* (abs_job j) (abs_job k)"
  by (induction rule: rtranclp_induct) (auto dest: job_move_phase)

text \<open>
  C12 The job table refines the abstract machine: along every run of the store each job present is
  still there, with its type, payload and budget, and has moved only as the machine allows: held
  before it ends, counted once for each time it was given out, and final once done or dead.
\<close>

theorem job_refinement:
  assumes "store_op\<^sup>*\<^sup>* w w'" and "schema_ok (w_db w)" and "j \<in> set (db_jobs (w_db w))"
  shows "\<exists>k \<in> set (db_jobs (w_db w')). job_ID k = job_ID j \<and> job_Type k = job_Type j
    \<and> job_Payload k = job_Payload j \<and> job_MaxAttempts k = job_MaxAttempts j
    \<and> phase_step\<^sup>*\<^sup>* (abs_job j) (abs_job k) \<and> (fst (abs_job j) \<in> {Done, Dead} \<longrightarrow> k = j)"
proof -
  have "grows (w_db w) (w_db w')"
    using store_run_step [OF assms(1)] assms(2) by (simp add: store_step_def)
  then obtain k where k: "k \<in> set (db_jobs (w_db w'))" "job_moves j k"
    using jobs_evolve_row [OF _ assms(3)] unfolding grows_def by blast
  have "fst (abs_job j) \<in> {Done, Dead} \<longrightarrow> k = j"
    using terminal_job_moves [OF k(2)] by (auto simp: abs_job_def split: if_splits)
  then show ?thesis using k job_moves_keep [OF k(2)] job_moves_phase [OF k(2)] by blast
qed

section \<open>At a concrete run\<close>

definition later_world :: world where
  "later_world = snd (SetClaimValidationStatus claim_id1 ''rejected'' sample_world)"

lemma later_run_of_sample: "store_op\<^sup>*\<^sup>* sample_world later_world"
  unfolding later_world_def by (rule r_into_rtranclp [of store_op, OF store_op_snd(3)])

theorem provenance_append_only_witness:
  "\<exists>c' \<in> set (db_claims (w_db later_world)). cr_ID c' = claim_id1 \<and> cr_Text c' = ''Up.''"
proof -
  have ok: "schema_ok (w_db sample_world)" using sample_ok by (simp add: sample_world_def)
  have cited: "sample_claim \<in> set (db_claims (w_db sample_world))"
    "cr_ID sample_claim \<in> snd ` set (db_citations (w_db sample_world))"
    by (simp_all add: sample_world_def sample_db_def sample_claim_def)
  from provenance_append_only [OF later_run_of_sample ok] cited
  obtain c' where c': "c' \<in> set (db_claims (w_db later_world))"
    "c'\<lparr>cr_ValidationStatus := cr_ValidationStatus sample_claim\<rparr> = sample_claim" by blast
  have "cr_ID c' = cr_ID sample_claim" "cr_Text c' = cr_Text sample_claim"
    using arg_cong [OF c'(2), of cr_ID] arg_cong [OF c'(2), of cr_Text] by simp_all
  then show ?thesis using c'(1) by (intro bexI [of _ c']) (simp_all add: sample_claim_def)
qed

definition held_world :: world where
  "held_world = sample_world\<lparr>w_db := sample_db\<lparr>db_jobs := [held_row]\<rparr>\<rparr>"

theorem job_refinement_witness:
  "\<exists>k \<in> set (db_jobs (w_db (snd (CompleteJob sample_id held_world)))).
     job_ID k = sample_id \<and> phase_step\<^sup>*\<^sup>* (Held, 3) (abs_job k)"
proof -
  have "schema_ok (w_db held_world)"
    using sample_ok held_ok by (simp add: held_world_def schema_defs jobs_ok_def held_def queue_of_def)
  moreover have "store_op\<^sup>*\<^sup>* held_world (snd (CompleteJob sample_id held_world))"
    by (rule r_into_rtranclp [of store_op, OF store_op_snd(2)])
  moreover have "abs_job held_row = (Held, 3)" "job_ID held_row = sample_id" by (simp_all add: abs_job_def sample_job_def)
  ultimately show ?thesis
    using job_refinement [of held_world "snd (CompleteJob sample_id held_world)" held_row]
    by (auto simp: held_world_def)
qed

end
