(* ===== verification/Frames.thy ===== *)
theory Frames
  imports StoreRuns Site
begin

text \<open>
  What the operations of the store leave alone, whatever their statements do: the rest of the world,
  and a connection that has no fault ahead.
\<close>

text \<open>
  The interface: a preorder on worlds that looks neither at the tables nor at how many faults were
  met. Every operation of the store stays within such a preorder.
\<close>

locale world_frame = state_preorder R for R :: "'x world_scheme \<Rightarrow> 'x world_scheme \<Rightarrow> bool" +
  assumes past_fault: "next_fault w = (f, w1) \<Longrightarrow> R w w1"
    and past_tables: "R w (w\<lparr>w_db := d\<rparr>)"
begin

lemma frame_pg_exec: "keeps R (pg_exec s)"
  unfolding keeps_def
proof
  fix w :: "'x world_scheme"
  obtain f w1 where f: "next_fault w = (f, w1)" by fastforce
  obtain r d where s: "s (w_db w1) = (r, d)" by fastforce
  show "R w (snd (pg_exec s w))"
    using past_fault [OF f] R_trans [OF past_fault [OF f] past_tables [of w1 d]] f s
    by (cases f; cases r) (auto simp: pg_exec_def)
qed

lemma frame_pg_query: "keeps R (pg_query q m s)"
  unfolding keeps_def
proof
  fix w :: "'x world_scheme"
  obtain f w1 where f: "next_fault w = (f, w1)" by fastforce
  show "R w (snd (pg_query q m s w))"
    using past_fault [OF f] f by (cases f) (auto simp: pg_query_def split: sum.split prod.split)
qed

lemma frame_transaction:
  assumes "keeps R body"
  shows "keeps R (transaction m body)"
  unfolding keeps_def
proof
  fix w :: "'x world_scheme"
  obtain f w1 where f: "next_fault w = (f, w1)" by fastforce
  obtain r w2 where b: "body w1 = (r, w2)" by fastforce
  obtain g w3 where g: "next_fault w2 = (g, w3)" by fastforce
  have w2: "R w w2" by (rule R_trans [OF past_fault [OF f] keepsD [OF assms b]])
  then have w3: "R w w3" by (rule R_trans [OF _ past_fault [OF g]])
  show "R w (snd (transaction m body w))"
    using past_fault [OF f] w2 w3 R_trans [OF w2 past_tables] R_trans [OF w3 past_tables] f b g
    by (cases f; cases r; cases g) (auto simp: transaction_def)
qed

lemma frame_go_now: "keeps R go_now"
  by (simp add: keeps_def go_now_def R_refl)

lemma frame_found_or: "keeps R f \<Longrightarrow> keeps R (found_or m f)"
  unfolding found_or_def by (auto intro!: keeps_intros split: sum.split)

lemmas frame_rules = keeps_intros frame_pg_exec frame_pg_query frame_transaction frame_go_now frame_found_or

lemma frame_store_pages: "keeps R (store_pages i ps ids)"
  by (induction ps arbitrary: ids) (auto intro!: frame_rules)

lemma frame_insertCandidates: "keeps R (insertCandidates i s cs)"
  unfolding insertCandidates_def insert_position_def by (auto intro!: frame_rules)

lemma frame_operations:
  "keeps R (insert_job t p)" "keeps R (create_market_data_job request)" "keeps R (LeaseNextJob worker dur)"
  "keeps R (CompleteJob i)" "keeps R (FailJob j cause)"
  "keeps R (CreateDocumentWithExtractionJob input)" "keeps R (GetDocument i)" "keeps R (SetDocumentStatus i s)"
  "keeps R (ReplaceExtraction i e)" "keeps R (ListClaimsByDocument i)" "keeps R (GetClaimsByIDs ids)"
  "keeps R (SetClaimValidationStatus i s)" "keeps R (CreateStrategyWithCitations c)" "keeps R ListStrategies"
  "keeps R (GetStrategyWithCitations i)" "keeps R (InsertMarketDataSnapshot m)" "keeps R (GetMarketDataSnapshot i)"
  "keeps R ListMarketDataSnapshots" "keeps R (CreateBacktestWithRunJob b)" "keeps R (GetBacktestRun i)"
  "keeps R (SetBacktestStatus i s)" "keeps R (CompleteBacktest i result key)" "keeps R (ListCandidates f)"
  unfolding insert_job_def create_market_data_job_def LeaseNextJob_def CompleteJob_def FailJob_def Let_def
    CreateDocumentWithExtractionJob_def GetDocument_def SetDocumentStatus_def ReplaceExtraction_def store_claim_def
    ListClaimsByDocument_def GetClaimsByIDs_def SetClaimValidationStatus_def CreateStrategyWithCitations_def
    ListStrategies_def GetStrategyWithCitations_def InsertMarketDataSnapshot_def GetMarketDataSnapshot_def
    ListMarketDataSnapshots_def CreateBacktestWithRunJob_def GetBacktestRun_def SetBacktestStatus_def
    CompleteBacktest_def complete_run_def ListCandidates_def attachCandidateEvidence_def
  by (auto intro!: frame_rules frame_store_pages frame_insertCandidates split: option.split sum.split prod.split)

end

text \<open>The rest of the world, for any extension of the state.\<close>

definition same_rest :: "'x world_scheme \<Rightarrow> 'x world_scheme \<Rightarrow> bool" where
  "same_rest w w' \<longleftrightarrow> world.more w' = world.more w \<and> w_clock w' = w_clock w"

interpretation same_rest: world_frame same_rest
proof
  show "next_fault w = (f, w1) \<Longrightarrow> same_rest w w1" for w f and w1 :: "'a world_scheme"
    by (auto simp: same_rest_def next_fault_def split: list.splits)
qed (simp_all add: same_rest_def)

definition still_healthy :: "'x world_scheme \<Rightarrow> 'x world_scheme \<Rightarrow> bool" where
  "still_healthy w w' \<longleftrightarrow> (w_faults w = [] \<longrightarrow> w_faults w' = [])"

interpretation still_healthy: world_frame still_healthy
proof
  show "next_fault w = (f, w1) \<Longrightarrow> still_healthy w w1" for w f and w1 :: "'a world_scheme"
    by (auto simp: still_healthy_def next_fault_def split: list.splits)
qed (simp_all add: still_healthy_def)

text \<open>The store does not touch the files, the working directory, the scripts, the clock or the replies.\<close>

definition same_disk :: "'x site_scheme \<Rightarrow> 'x site_scheme \<Rightarrow> bool" where
  "same_disk w w' \<longleftrightarrow>
     s_files w' = s_files w \<and> s_cwd w' = s_cwd w \<and> s_tmpdir w' = s_tmpdir w \<and> s_os w' = s_os w
     \<and> s_random w' = s_random w \<and> s_drawn w' = s_drawn w \<and> s_suffix w' = s_suffix w \<and> s_tried w' = s_tried w
     \<and> s_replies w' = s_replies w \<and> s_sent w' = s_sent w"

lemma same_rest_disk: "same_rest w w' \<Longrightarrow> same_disk w w'"
  by (cases w; cases w') (simp add: same_rest_def same_disk_def)

lemma keeps_disk: "keeps same_rest f \<Longrightarrow> f w = (r, w') \<Longrightarrow> same_disk w w'"
  by (rule same_rest_disk) (rule keepsD)

end
