(* ===== verification/DocumentService.thy ===== *)
theory DocumentService
  imports Frames FileSpec
begin

text \<open>
  \<open>internal/documents/service.go\<close>: an upload is saved as a file, then recorded with its extraction
  job; when the record is refused, or is already there, the file is deleted again.
\<close>

record upload_input =
  ui_Filename :: string
  ui_MIMEType :: string
  ui_SourcePublishedAt :: "time option"
  ui_Content :: reader

record upload_result =
  ur_Document :: document
  ur_Job :: "job option"
  ur_Created :: bool

definition createDocument :: "upload_input \<Rightarrow> stored_file \<Rightarrow> ('x world_scheme, upload_result) act" where
  "createDocument input stored =
     and_then (CreateDocumentWithExtractionJob
       \<lparr>cdi_Filename = ui_Filename input, cdi_StorageKey = sf_StorageKey stored, cdi_SHA256 = sf_SHA256 stored,
        cdi_SizeBytes = sf_SizeBytes stored, cdi_MIMEType = ui_MIMEType input,
        cdi_SourcePublishedAt = ui_SourcePublishedAt input\<rparr>) (\<lambda>(x, j, created).
     ok \<lparr>ur_Document = x, ur_Job = j, ur_Created = created\<rparr>)"

definition Upload :: "file_store \<Rightarrow> upload_input \<Rightarrow> ('x site_scheme, upload_result) act" where
  "Upload files input =
     and_then (FileStore_Save files (ui_Content input)) (\<lambda>stored.
     attempt (createDocument input stored) (\<lambda>r. case r of
       Inl e \<Rightarrow> ignoring (FileStore_Delete files (sf_StorageKey stored)) (fail e)
     | Inr result \<Rightarrow>
         if \<not> ur_Created result then ignoring (FileStore_Delete files (sf_StorageKey stored)) (ok result)
         else ok result))"

definition DocumentService_Get :: "string \<Rightarrow> ('x world_scheme, document) act" where
  "DocumentService_Get i = GetDocument i"

section \<open>Files and records\<close>

lemma createDocument_rest: "keeps same_rest (createDocument input stored)"
  unfolding createDocument_def by (auto intro!: same_rest.frame_rules same_rest.frame_operations split: prod.split)

lemma createDocument_run:
  assumes "createDocument input stored w = (r, w')"
  shows "\<exists>c. CreateDocumentWithExtractionJob
       \<lparr>cdi_Filename = ui_Filename input, cdi_StorageKey = sf_StorageKey stored, cdi_SHA256 = sf_SHA256 stored,
        cdi_SizeBytes = sf_SizeBytes stored, cdi_MIMEType = ui_MIMEType input,
        cdi_SourcePublishedAt = ui_SourcePublishedAt input\<rparr> w = (c, w')
     \<and> r = (case c of Inl e \<Rightarrow> Inl e | Inr (x, j, created) \<Rightarrow> Inr \<lparr>ur_Document = x, ur_Job = j, ur_Created = created\<rparr>)"
  using assms by (auto simp: createDocument_def and_then_def ok_def split: prod.splits sum.splits)

lemma calm_Delete:
  assumes "calm w" and "is_abs (s_cwd w)" and "path_clean key = key" and "\<not> is_abs key" and "\<not> has_prefix key ''../''"
    and "key \<noteq> ''.''" and "key \<noteq> dotdot" and "s_files w (destination (s_cwd w) (fs_Root store) key) \<noteq> None"
  shows "FileStore_Delete store key w =
    (Inr (), w\<lparr>s_files := (s_files w)(destination (s_cwd w) (fs_Root store) key := None)\<rparr>)"
proof -
  let ?d = "destination (s_cwd w) (fs_Root store) key"
  have d: "place (s_cwd w) ?d = ?d" by (rule destination_clean [OF assms(2)])
  then have "Remove ?d w = (Inr (), w\<lparr>s_files := (s_files w)(?d := None)\<rparr>)"
    using calm_Remove [OF assms(1), of ?d] assms(8) by (simp add: file_at_def set_file_def)
  then show ?thesis
    using calm_document_path [OF assms(1-7), of store]
    by (simp add: FileStore_Delete_def and_then_def attempt_def ok_def)
qed

text \<open>What an upload must find: a working disk, a free temporary name, and a key not used before.\<close>

definition upload_ready :: "file_store \<Rightarrow> 'x site_scheme \<Rightarrow> bool" where
  "upload_ready files w \<longleftrightarrow>
     calm w \<and> is_abs (s_cwd w) \<and> fs_Root files \<noteq> [] \<and> 0 < fs_MaxBytes files \<and> fs_MaxBytes files < 2 ^ 63
     \<and> file_at (first_temp (fs_Root files) ''.upload-'' w) w = None"

definition upload_key :: "'x site_scheme \<Rightarrow> string" where
  "upload_key w = ''documents/'' @ hex_of_bytes (s_random w (s_drawn w)) @ ''.pdf''"

text \<open>What is recorded of an upload saved under a key.\<close>

abbreviation document_of_upload :: "string \<Rightarrow> upload_input \<Rightarrow> create_document_input" where
  "document_of_upload key input \<equiv>
     \<lparr>cdi_Filename = ui_Filename input, cdi_StorageKey = key, cdi_SHA256 = sha256_hex (rd_Bytes (ui_Content input)),
      cdi_SizeBytes = int (length (rd_Bytes (ui_Content input))), cdi_MIMEType = ui_MIMEType input,
      cdi_SourcePublishedAt = ui_SourcePublishedAt input\<rparr>"

lemma upload_run:
  fixes w w' :: "'x site_scheme"
  assumes ready: "upload_ready files w" and small: "int (length (rd_Bytes (ui_Content input))) < 2 ^ 63"
    and fresh: "s_files w (destination (s_cwd w) (fs_Root files) (upload_key w)) = None"
    and run: "Upload files input w = (r, w')"
  shows "(\<exists>e. upload_error files (ui_Content input) = Some e \<and> r = Inl e \<and> w_db w' = w_db w \<and> s_files w' = s_files w)
    \<or> (upload_error files (ui_Content input) = None
       \<and> (\<exists>c (w1 :: 'x site_scheme) w2. w_db w1 = w_db w \<and> w_faults w1 = w_faults w
            \<and> CreateDocumentWithExtractionJob (document_of_upload (upload_key w) input) w1 = (c, w2)
            \<and> w_db w' = w_db w2
            \<and> r = (case c of Inl e \<Rightarrow> Inl e | Inr (x, j, created) \<Rightarrow> Inr \<lparr>ur_Document = x, ur_Job = j, ur_Created = created\<rparr>)
            \<and> s_files w' = (if \<exists>x j. c = Inr (x, j, True)
                then (s_files w)(destination (s_cwd w) (fs_Root files) (upload_key w) := Some (rd_Bytes (ui_Content input)))
                else s_files w)))"
proof -
  let ?dest = "destination (s_cwd w) (fs_Root files) (upload_key w)" and ?b = "rd_Bytes (ui_Content input)"
  let ?stored = "\<lparr>sf_StorageKey = upload_key w, sf_SHA256 = sha256_hex ?b, sf_SizeBytes = int (length ?b)\<rparr>"
  define w0 where "w0 = w\<lparr>s_tried := Suc (s_tried w)\<rparr>"
  define w1 where "w1 = w0\<lparr>s_drawn := Suc (s_drawn w), s_files := (s_files w)(?dest := Some ?b)\<rparr>"
  have cwd: "is_abs (s_cwd w)" using ready by (simp add: upload_ready_def)
  have save: "FileStore_Save files (ui_Content input) w =
      (case upload_error files (ui_Content input) of None \<Rightarrow> (Inr ?stored, w1) | Some e \<Rightarrow> (Inl e, w0))"
    unfolding upload_key_def w0_def w1_def
    by (rule save_document_spec [of w files "ui_Content input", unfolded Let_def])
      (use ready small in \<open>simp_all add: upload_ready_def\<close>)
  show ?thesis
  proof (cases "upload_error files (ui_Content input)")
    case (Some e)
    then have "(r, w') = (Inl e, w0)" using run save by (simp add: Upload_def and_then_def)
    then show ?thesis using Some by (simp add: w0_def)
  next
    case None
    obtain c' w2 where create: "createDocument input ?stored w1 = (c', w2)" by fastforce
    from createDocument_run [OF this] obtain c where c: "CreateDocumentWithExtractionJob (document_of_upload (upload_key w) input) w1 = (c, w2)"
      "c' = (case c of Inl e \<Rightarrow> Inl e | Inr (x, j, created) \<Rightarrow> Inr \<lparr>ur_Document = x, ur_Job = j, ur_Created = created\<rparr>)"
      by auto
    have disk: "same_disk w1 w2" by (rule keeps_disk [OF createDocument_rest create])
    have k: "path_clean (upload_key w) = upload_key w" "\<not> is_abs (upload_key w)" "\<not> has_prefix (upload_key w) ''../''"
      "upload_key w \<noteq> ''.''" "upload_key w \<noteq> dotdot"
      using documents_key [of "s_random w (s_drawn w)"] unfolding Let_def upload_key_def by blast+
    have w2: "calm w2" "s_cwd w2 = s_cwd w" "s_files w2 = (s_files w)(?dest := Some ?b)"
      using disk ready by (simp_all add: same_disk_def w1_def w0_def upload_ready_def)
    then have del: "FileStore_Delete files (upload_key w) w2 = (Inr (), w2\<lparr>s_files := s_files w\<rparr>)"
      using calm_Delete [of w2 "upload_key w" files] k cwd fresh by (simp add: fun_upd_idem)
    have tail: "Upload files input w =
        (case c' of
           Inl e \<Rightarrow> (Inl e, w2\<lparr>s_files := s_files w\<rparr>)
         | Inr result \<Rightarrow> if \<not> ur_Created result then (Inr result, w2\<lparr>s_files := s_files w\<rparr>) else (Inr result, w2))"
      using save None create del
      by (simp add: Upload_def and_then_def attempt_def ignoring_def fail_def ok_def split: sum.split)
    have db: "w_db w1 = w_db w" "w_faults w1 = w_faults w" by (simp_all add: w1_def w0_def)
    have ends: "w_db w' = w_db w2
        \<and> r = (case c of Inl e \<Rightarrow> Inl e | Inr (x, j, created) \<Rightarrow> Inr \<lparr>ur_Document = x, ur_Job = j, ur_Created = created\<rparr>)
        \<and> s_files w' = (if \<exists>x j. c = Inr (x, j, True) then (s_files w)(?dest := Some ?b) else s_files w)"
    proof (cases c)
      case (Inl e)
      then have "r = Inl e" "w' = w2\<lparr>s_files := s_files w\<rparr>" using tail run c(2) by simp_all
      then show ?thesis using Inl by simp
    next
      case (Inr y)
      obtain x j created where y: "y = (x, j, created)" by (cases y)
      then have "r = Inr \<lparr>ur_Document = x, ur_Job = j, ur_Created = created\<rparr>"
        "w' = (if created then w2 else w2\<lparr>s_files := s_files w\<rparr>)"
        using tail run c(2) Inr by (auto split: if_splits)
      then show ?thesis using Inr y w2(3) by simp
    qed
    show ?thesis
      by (intro disjI2 conjI exI [of _ c] exI [of _ w1] exI [of _ w2]) (use None db c(1) ends in blast)+
  qed
qed

section \<open>What an upload achieves\<close>

lemma sha256_stored: "char64_in (sha256_hex b) = Inr (sha256_hex b)"
proof -
  have a: "is_ascii (sha256_hex b)" unfolding sha256_hex_def by (rule hex_ascii)
  have "utf8_valid (sha256_hex b)" using a by (simp add: utf8_valid_def runes_ascii list_all_iff is_ascii_def)
  moreover have "list_all (\<lambda>c. code c \<noteq> 0) (sha256_hex b)"
    using hex_of_bytes_digits unfolding sha256_hex_def by (fastforce simp: list_all_iff byte_in_def)
  ultimately have "text_in (sha256_hex b) = Inr (sha256_hex b)" by (simp add: text_in_def)
  moreover have "length (runes (sha256_hex b)) = 64" using a by (simp add: runes_ascii length_sha256_hex)
  ultimately show ?thesis by (simp add: char64_in_def blank_padded_def)
qed

text \<open>The record of an upload: a document with its SHA-256 and storage key, and its extraction job.\<close>

definition upload_recorded :: "string \<Rightarrow> string \<Rightarrow> db \<Rightarrow> db \<Rightarrow> bool" where
  "upload_recorded key bytes d d' \<longleftrightarrow>
     (\<exists>row j. db_documents d' = db_documents d @ [row] \<and> db_jobs d' = db_jobs d @ [j]
        \<and> doc_StorageKey row = key \<and> doc_SHA256 row = sha256_hex bytes
        \<and> sha256_hex bytes \<notin> doc_SHA256 ` set (db_documents d)
        \<and> job_Type j = ''extract_document'' \<and> jsonb_in (document_payload (doc_ID row)) = Inr (job_Payload j))"

text \<open>
  C3 An upload stores what was sent, or leaves no file behind. With a working disk, a fresh temporary
  name and a fresh key, however the request body arrives in pieces and whatever the database
  connection does: a created upload was a PDF within the limit, its document is recorded under its
  SHA-256 with one extraction job, and the file at its key holds exactly the bytes sent. In every
  other outcome (refused content, a duplicate, any error) the files are as they were; a duplicate is
  reported only when a document with the same SHA-256 is stored, and refused content changes no table.
\<close>

theorem upload_effect:
  assumes "upload_ready files w" and "int (length (rd_Bytes (ui_Content input))) < 2 ^ 63"
    and "s_files w (destination (s_cwd w) (fs_Root files) (upload_key w)) = None"
    and "Upload files input w = (r, w')"
  shows "case r of
      Inl e \<Rightarrow> s_files w' = s_files w \<and> (upload_error files (ui_Content input) \<noteq> None \<longrightarrow> w_db w' = w_db w)
    | Inr res \<Rightarrow> upload_error files (ui_Content input) = None
        \<and> (if ur_Created res
           then upload_recorded (upload_key w) (rd_Bytes (ui_Content input)) (w_db w) (w_db w')
             \<and> s_files w' = (s_files w)(destination (s_cwd w) (fs_Root files) (upload_key w) := Some (rd_Bytes (ui_Content input)))
           else s_files w' = s_files w \<and> ur_Job res = None
             \<and> sha256_hex (rd_Bytes (ui_Content input)) \<in> doc_SHA256 ` set (db_documents (w_db w)))"
  using upload_run [OF assms]
proof (elim disjE conjE exE, goal_cases)
  case (1 e)
  then show ?case by simp
next
  case (2 c w1 w2)
  note cases = create_document_cases [OF 2(4)]
  show ?case
  proof (cases c)
    case (Inl e)
    then show ?thesis using 2 by simp
  next
    case (Inr y)
    obtain x j created where y: "y = (x, j, created)" by (cases y)
    have files: "s_files w' = (if created
        then (s_files w)(destination (s_cwd w) (fs_Root files) (upload_key w) := Some (rd_Bytes (ui_Content input)))
        else s_files w)" using 2(7) Inr y by simp
    have r: "r = Inr \<lparr>ur_Document = x, ur_Job = j, ur_Created = created\<rparr>" using 2(6) Inr y by simp
    show ?thesis
    proof (cases created)
      case True
      then have "upload_recorded (upload_key w) (rd_Bytes (ui_Content input)) (w_db w) (w_db w')"
        using cases Inr y 2(2,5) unfolding upload_recorded_def
        by (fastforce simp: sha256_stored job.truncate_def queued_row_def)
      then show ?thesis using r files True 2(1) by simp
    next
      case False
      then have "j = None" "sha256_hex (rd_Bytes (ui_Content input)) \<in> doc_SHA256 ` set (db_documents (w_db w))"
        using cases Inr y 2(2) by (auto simp: sha256_stored)
      then show ?thesis using r files False 2(1) by simp
    qed
  qed
qed

section \<open>A lost acknowledgement\<close>

lemma created_result:
  assumes "Inr res = (case c of Inl e \<Rightarrow> Inl e
      | Inr (x, j, created) \<Rightarrow> Inr \<lparr>ur_Document = x, ur_Job = j, ur_Created = created\<rparr>)" and "ur_Created res"
  shows "\<exists>x j. c = Inr (x, j, True)"
  using assms by (cases c) auto

lemma created_inserts:
  assumes "w_faults w = []" and "CreateDocumentWithExtractionJob input w = (Inr (x, j, True), v)"
  shows "\<exists>d job d2. insert_document_stmt input (w_db w) = (Inr x, d)
    \<and> insert_job_stmt ''extract_document'' (document_payload (doc_ID x)) d = (Inr job, d2) \<and> w_db v = d2"
  using assms
  by (auto simp: CreateDocumentWithExtractionJob_def transaction_def next_fault_def attempt_def and_then_def
      pg_exec_def wrapping_def ok_def fail_def split: prod.splits sum.splits if_splits)

lemma create_document_healthy:
  assumes "insert_document_stmt input (w_db w) = (Inr x, d)"
    and "insert_job_stmt ''extract_document'' (document_payload (doc_ID x)) d = (Inr j, d2)" and "w_faults w = []"
  shows "CreateDocumentWithExtractionJob input w = (Inr (x, Some j, True), w\<lparr>w_db := d2\<rparr>)"
  using assms
  by (simp add: CreateDocumentWithExtractionJob_def transaction_def next_fault_def attempt_def and_then_def
      pg_exec_def wrapping_def ok_def)

lemma create_document_lost:
  assumes "insert_document_stmt input (w_db w) = (Inr x, d)"
    and "insert_job_stmt ''extract_document'' (document_payload (doc_ID x)) d = (Inr job, d2)"
    and "w_faults w = [Healthy, Healthy, Healthy, LostAck]"
  shows "CreateDocumentWithExtractionJob input w =
    (Inl (Errorf ''commit document transaction: %w'' [AW connection_error]), w\<lparr>w_faults := [], w_db := d2\<rparr>)"
  using assms
  by (simp add: CreateDocumentWithExtractionJob_def transaction_def next_fault_def attempt_def and_then_def
      pg_exec_def wrapping_def ok_def)

text \<open>
  C5 An upload whose commit is acknowledged too late loses its file. Where the upload would be created
  over a healthy connection, the same upload with the acknowledgement of the commit lost leaves the
  same tables, the document queued for extraction under its key, but returns an error and deletes the
  file: the recorded document has no content.
\<close>

theorem upload_lost_ack:
  fixes w :: "'x site_scheme"
  assumes "upload_ready files w" and "int (length (rd_Bytes (ui_Content input))) < 2 ^ 63"
    and "s_files w (destination (s_cwd w) (fs_Root files) (upload_key w)) = None"
    and "w_faults w = []" and "Upload files input w = (Inr res, v)" and "ur_Created res"
  shows "\<exists>e w'. Upload files input (w\<lparr>w_faults := [Healthy, Healthy, Healthy, LostAck]\<rparr>) = (Inl e, w')
    \<and> w_db w' = w_db v \<and> upload_key w \<in> doc_StorageKey ` set (db_documents (w_db w'))
    \<and> s_files w' (destination (s_cwd w) (fs_Root files) (upload_key w)) = None"
proof -
  let ?late = "w\<lparr>w_faults := [Healthy, Healthy, Healthy, LostAck]\<rparr>"
  obtain r w' where late: "Upload files input ?late = (r, w')" by fastforce
  have ready: "upload_ready files ?late" using assms(1) by (simp add: upload_ready_def first_temp_def file_at_def)
  have key: "upload_key ?late = upload_key w" by (simp add: upload_key_def)
  from upload_run [OF assms(1-3,5)] obtain c and w1 w2 :: "'x site_scheme" where
    run: "upload_error files (ui_Content input) = None" "w_db w1 = w_db w" "w_faults w1 = w_faults w"
      "CreateDocumentWithExtractionJob (document_of_upload (upload_key w) input) w1 = (c, w2)" "w_db v = w_db w2"
      "Inr res = (case c of Inl e \<Rightarrow> Inl e
         | Inr (x, j, created) \<Rightarrow> Inr \<lparr>ur_Document = x, ur_Job = j, ur_Created = created\<rparr>)"
    by (elim disjE conjE exE) (simp_all add: that)
  from created_result [OF run(6) assms(6)] obtain x j where fine: "w_faults w1 = []"
      "CreateDocumentWithExtractionJob (document_of_upload (upload_key w) input) w1 = (Inr (x, j, True), w2)"
    using run(3,4) assms(4) by auto
  from created_inserts [OF fine] run(2,5) obtain d job d2 where
    ins: "insert_document_stmt (document_of_upload (upload_key w) input) (w_db w) = (Inr x, d)"
      "insert_job_stmt ''extract_document'' (document_payload (doc_ID x)) d = (Inr job, d2)" "w_db v = d2" by auto
  have stored: "upload_key w \<in> doc_StorageKey ` set (db_documents d2)"
    using insert_document_Inr [OF ins(1)] insert_job_Inr [OF ins(2)] by force
  have "(\<exists>e. r = Inl e) \<and> w_db w' = d2 \<and> s_files w' = s_files w"
    using upload_run [OF ready assms(2) _ late] assms(3) run(1)
      create_document_lost [OF _ ins(2)] ins(1)
    by (fastforce simp: key)
  then show ?thesis using late ins(3) stored assms(3) by auto
qed

section \<open>Where files go\<close>

text \<open>
  C4 No storage key leads out of a store. Whatever the operating system answers to any system call,
  whatever the upload, the snapshot or the artifact and whatever key is to be deleted: saving and
  deleting change only files strictly below the root of their store, and never the tables.
\<close>

theorem files_confined:
  assumes "is_abs (s_cwd w)" and "fs_Root files \<noteq> []"
  shows "confined (place (s_cwd w) (fs_Root files)) w (snd (FileStore_Save files source w))
    \<and> confined (place (s_cwd w) (fs_Root files)) w (snd (FileStore_Delete files key w))
    \<and> confined (place (s_cwd w) rt) w (snd (SnapshotStore_Save rt csv w))
    \<and> confined (place (s_cwd w) rt) w (snd (ArtifactStore_Save rt csv w))"
  by (intro conjI confined_Save confined_Delete confined_SnapshotStore_Save confined_ArtifactStore_Save assms)

section \<open>At a concrete site\<close>

definition sample_site :: "db \<Rightarrow> site" where
  "sample_site d =
     \<lparr>w_db = d, w_faults = [], w_clock = 9500, s_files = (\<lambda>_. None), s_cwd = ''/srv'', s_tmpdir = ''/tmp'',
      s_os = [], s_random = (\<lambda>_. replicate 16 (CHR 0x01)), s_drawn = 0, s_suffix = (\<lambda>n. n), s_tried = 0,
      s_replies = [], s_sent = []\<rparr>"

definition sample_files :: file_store where
  "sample_files = \<lparr>fs_Root = ''/srv/data'', fs_MaxBytes = 1000\<rparr>"

definition sample_pdf :: upload_input where
  "sample_pdf = \<lparr>ui_Filename = ''a.pdf'', ui_MIMEType = ''application/pdf'', ui_SourcePublishedAt = None,
     ui_Content = \<lparr>rd_Bytes = ''%PDF-1.7'', rd_Sizes = [3, 1], rd_Error = None\<rparr>\<rparr>"

abbreviation empty_site :: site where
  "empty_site \<equiv> sample_site (empty_db 9000 sample_uuid)"

theorem files_confined_witness:
  "confined ''/srv'' empty_site (snd (FileStore_Delete \<lparr>fs_Root = ''/srv'', fs_MaxBytes = 1000\<rparr> ''../etc/passwd'' empty_site))"
proof -
  have "is_abs (s_cwd empty_site)" "place (s_cwd empty_site) ''/srv'' = ''/srv''"
    unfolding sample_site_def by code_simp+
  then show ?thesis using files_confined [of empty_site "\<lparr>fs_Root = ''/srv'', fs_MaxBytes = 1000\<rparr>"] by simp
qed

lemma sample_upload_starts:
  "upload_ready sample_files empty_site"
  "s_files empty_site (destination (s_cwd empty_site) (fs_Root sample_files) (upload_key empty_site)) = None"
  "int (length (rd_Bytes (ui_Content sample_pdf))) < 2 ^ 63" "upload_error sample_files (ui_Content sample_pdf) = None"
proof -
  have "is_abs ''/srv''" by code_simp
  then show "upload_ready sample_files empty_site"
    by (simp add: upload_ready_def sample_site_def sample_files_def file_at_def)
qed (simp_all add: sample_site_def sample_pdf_def sample_files_def upload_error_def has_prefix_append pdf_magic_def)

lemma sample_upload_json:
  "\<exists>m. jsonb_in (document_metadata (document_of_upload (upload_key empty_site) sample_pdf)) = Inr m"
  "\<exists>q. jsonb_in (document_payload (new_ids ! 0)) = Inr q"
proof -
  have "case jsonb_in (Raw (JObject [(''mime_type'', json_string ''application/pdf''), (''size_bytes'', JInt 8)])) of
      Inr m \<Rightarrow> True | Inl e \<Rightarrow> False" by code_simp
  then show "\<exists>m. jsonb_in (document_metadata (document_of_upload (upload_key empty_site) sample_pdf)) = Inr m"
    by (simp add: document_metadata_def sample_pdf_def split: sum.splits)
  have "case jsonb_in (document_payload (new_ids ! 0)) of Inr q \<Rightarrow> True | Inl e \<Rightarrow> False"
    unfolding new_ids_def by code_simp
  then show "\<exists>q. jsonb_in (document_payload (new_ids ! 0)) = Inr q" by (simp split: sum.splits)
qed

lemma sample_upload_created: "\<exists>res v. Upload sample_files sample_pdf empty_site = (Inr res, v) \<and> ur_Created res"
proof -
  let ?input = "document_of_upload (upload_key empty_site) sample_pdf" and ?d = "empty_db 9000 sample_uuid"
  have conv: "text_in ''a.pdf'' = Inr ''a.pdf''" "text_in (upload_key empty_site) = Inr (upload_key empty_site)"
    unfolding upload_key_def sample_site_def by code_simp+
  obtain x d where ins: "insert_document_stmt ?input ?d = (Inr x, d)" and d: "doc_ID x = new_ids ! 0" "db_jobs d = []"
    using conv sample_upload_json(1)
    by (auto simp: insert_document_stmt_def act_simps sha256_stored empty_db_def sample_uuid_new document.truncate_def
        sample_pdf_def [THEN arg_cong [of _ _ ui_Filename]])
  obtain j d2 where job: "insert_job_stmt ''extract_document'' (document_payload (doc_ID x)) d = (Inr j, d2)"
    using sample_upload_json(2) d by (auto simp: insert_job_stmt_def act_simps job_types_def)
  obtain r v where run: "Upload sample_files sample_pdf empty_site = (r, v)" by fastforce
  have at: "w_db empty_site = ?d" "w_faults empty_site = []" by (simp_all add: sample_site_def)
  from upload_run [OF sample_upload_starts(1,3,2) run] sample_upload_starts(4)
  obtain c and w1 w2 :: site where
    c: "w_db w1 = ?d" "w_faults w1 = []" "CreateDocumentWithExtractionJob ?input w1 = (c, w2)"
      "r = (case c of Inl e \<Rightarrow> Inl e
         | Inr (x, j, created) \<Rightarrow> Inr \<lparr>ur_Document = x, ur_Job = j, ur_Created = created\<rparr>)"
    unfolding at by (elim disjE conjE exE) (simp_all add: that)
  have "c = Inr (x, Some j, True)"
    using create_document_healthy [of ?input w1 x d j d2] ins job c(1-3) by simp
  then show ?thesis using run c(4) by simp
qed

theorem upload_effect_witness:
  "\<exists>res v. Upload sample_files sample_pdf empty_site = (Inr res, v)
     \<and> s_files v (destination ''/srv'' ''/srv/data'' (upload_key empty_site)) = Some ''%PDF-1.7''"
proof -
  obtain res v where run: "Upload sample_files sample_pdf empty_site = (Inr res, v)" "ur_Created res"
    using sample_upload_created by blast
  from upload_effect [OF sample_upload_starts(1,3,2) run(1)] run(2)
  have "s_files v (destination (s_cwd empty_site) (fs_Root sample_files) (upload_key empty_site)) = Some (rd_Bytes (ui_Content sample_pdf))"
    by simp
  then show ?thesis using run(1) by (simp add: sample_site_def sample_files_def sample_pdf_def)
qed

theorem upload_lost_ack_witness:
  "\<exists>e v. Upload sample_files sample_pdf (empty_site\<lparr>w_faults := [Healthy, Healthy, Healthy, LostAck]\<rparr>) = (Inl e, v)
     \<and> upload_key empty_site \<in> doc_StorageKey ` set (db_documents (w_db v))"
proof -
  obtain res v where run: "Upload sample_files sample_pdf empty_site = (Inr res, v)" "ur_Created res"
    using sample_upload_created by blast
  have "w_faults empty_site = []" by (simp add: sample_site_def)
  from upload_lost_ack [OF sample_upload_starts(1,3,2) this run] show ?thesis by blast
qed

end
