(* ===== verification/MarketDataService.thy ===== *)
theory MarketDataService
  imports QuantClient CanonicalCsv DocumentService StrategySpec
begin

text \<open>
  \<open>internal/marketdata/service.go\<close>: a request for market data is validated and queued; the worker fetches
  the bars, stores their canonical bytes as a file and records the snapshot with its checksum.
\<close>

definition ErrInvalidRequest :: err where "ErrInvalidRequest = Sentinel ''invalid market data request''"

definition validateRequest :: "market_data_request \<Rightarrow> err option" where
  "validateRequest request =
     (if mdr_Symbols request = [] then Some (Errorf ''%w: at least one symbol is required'' [AW ErrInvalidRequest])
      else case find (\<lambda>s. \<not> symbol_pattern s) (mdr_Symbols request) of
        Some s \<Rightarrow> Some (Errorf ''%w: invalid symbol %q'' [AW ErrInvalidRequest, AQ s])
      | None \<Rightarrow>
          if mdr_Interval request \<noteq> ''1d''
          then Some (Errorf ''%w: only the 1d interval is supported'' [AW ErrInvalidRequest])
          else case parse_date (mdr_StartDate request) of
            None \<Rightarrow> Some (Errorf ''%w: start_date must use YYYY-MM-DD'' [AW ErrInvalidRequest])
          | Some start \<Rightarrow>
              (case parse_date (mdr_EndDate request) of
                 None \<Rightarrow> Some (Errorf ''%w: end_date must use YYYY-MM-DD'' [AW ErrInvalidRequest])
               | Some finish \<Rightarrow>
                   if finish < start then Some (Errorf ''%w: end_date is before start_date'' [AW ErrInvalidRequest])
                   else None))"

definition RequestSnapshot :: "market_data_request \<Rightarrow> ('x world_scheme, job) act" where
  "RequestSnapshot request =
     (case validateRequest request of Some e \<Rightarrow> fail e | None \<Rightarrow> create_market_data_job request)"

text \<open>\<open>rt\<close> is the root of the snapshot store.\<close>

definition FetchSnapshot ::
    "quant_client \<Rightarrow> string \<Rightarrow> market_data_request \<Rightarrow> ('x site_scheme, market_data_snapshot) act" where
  "FetchSnapshot client rt request =
     (case validateRequest request of
        Some e \<Rightarrow> fail e
      | None \<Rightarrow>
          and_then (FetchMarketData client request) (\<lambda>result.
          if mres_Bars result = [] then fail (Errorf ''provider returned no bars'' [])
          else let csv = CanonicalCSV (mres_Bars result) in
            and_then (SnapshotStore_Save rt csv) (\<lambda>storage_key.
            InsertMarketDataSnapshot
              \<lparr>csi_Provider = mres_Provider result, csi_Symbols = mdr_Symbols request, csi_Interval = mdr_Interval request,
               csi_StartDate = mdr_StartDate request, csi_EndDate = mdr_EndDate request, csi_StorageKey = storage_key,
               csi_Checksum = Checksum csv, csi_RetrievedAt = mres_RetrievedAt result\<rparr>)))"

definition MarketDataService_Get :: "string \<Rightarrow> ('x world_scheme, market_data_snapshot) act" where
  "MarketDataService_Get i = GetMarketDataSnapshot i"

definition MarketDataService_List :: "('x world_scheme, market_data_snapshot list) act" where
  "MarketDataService_List = ListMarketDataSnapshots"

section \<open>What is accepted\<close>

lemma validateRequest_None:
  "validateRequest r = None \<longleftrightarrow>
     mdr_Symbols r \<noteq> [] \<and> (\<forall>s \<in> set (mdr_Symbols r). symbol_pattern s) \<and> mdr_Interval r = ''1d''
     \<and> (\<exists>a b. parse_date (mdr_StartDate r) = Some a \<and> parse_date (mdr_EndDate r) = Some b \<and> a \<le> b)"
  by (auto simp: validateRequest_def find_None_iff find_Some_iff not_less split: option.splits)

section \<open>A snapshot proves its data\<close>

lemma sha256_checksum: "char64_in (Checksum csv) = Inr (Checksum csv)"
  unfolding Checksum_def by (rule sha256_stored)

text \<open>
  C31 A recorded snapshot proves its data. When \<open>FetchSnapshot\<close> succeeds on a working disk, under whatever
  answers of the service and faults of the connection, the request was valid; the row appended to the
  table names the file that now holds the canonical bytes of exactly the bars the service returned, its
  checksum is the SHA-256 of these bytes, and no other file has changed.
\<close>

theorem snapshot_proves_data:
  fixes w :: "'x site_scheme"
  assumes "FetchSnapshot client rt request w = (Inr s, w')" and "calm w" and "is_abs (s_cwd w)"
    and "file_at (first_temp (path_dir (destination (s_cwd w) rt (snapshot_key w))) ''.snapshot-'' w) w = None"
  shows "validateRequest request = None
    \<and> (\<exists>result w1. FetchMarketData client request w = (Inr result, w1) \<and> mres_Bars result \<noteq> []
        \<and> s_files w' = (s_files w)
            (destination (s_cwd w) rt (snapshot_key w) := Some (CanonicalCSV (mres_Bars result)))
        \<and> snap_StorageKey s = Some (snapshot_key w)
        \<and> snap_Checksum s = Some (sha256_hex (CanonicalCSV (mres_Bars result)))
        \<and> db_snapshots (w_db w') = db_snapshots (w_db w) @ [s] \<and> snap_Symbols s = mdr_Symbols request
        \<and> snap_StartDate s = mdr_StartDate request \<and> snap_EndDate s = mdr_EndDate request)"
proof -
  have valid: "validateRequest request = None"
    using assms(1) by (auto simp: FetchSnapshot_def fail_def split: option.splits)
  obtain result w1 where fetch: "FetchMarketData client request w = (Inr result, w1)"
    using assms(1) valid by (auto simp: FetchSnapshot_def and_then_Inr)
  let ?csv = "CanonicalCSV (mres_Bars result)"
  let ?input = "\<lparr>csi_Provider = mres_Provider result, csi_Symbols = mdr_Symbols request, csi_Interval = mdr_Interval request,
      csi_StartDate = mdr_StartDate request, csi_EndDate = mdr_EndDate request, csi_StorageKey = snapshot_key w,
      csi_Checksum = Checksum ?csv, csi_RetrievedAt = mres_RetrievedAt result\<rparr>"
  obtain sent replies where w1: "w1 = w\<lparr>s_sent := sent, s_replies := replies\<rparr>"
    using FetchMarketData_asks [OF fetch] unfolding only_asks_def by blast
  have key: "snapshot_key w1 = snapshot_key w" by (simp add: w1 snapshot_key_def)
  define w2 where "w2 = blob_stored rt (snapshot_key w) ?csv w1"
  have "SnapshotStore_Save rt ?csv w1 = (Inr (snapshot_key w), w2)"
    using calm_SnapshotStore_Save [of w1 rt ?csv] assms(2-4) unfolding key w2_def
    by (simp add: w1 first_temp_def file_at_def)
  then have bars: "mres_Bars result \<noteq> []" and
    insert: "InsertMarketDataSnapshot ?input w2 = (Inr s, w')"
    using assms(1) valid fetch by (auto simp: FetchSnapshot_def and_then_def fail_def Let_def split: if_splits)
  have disk: "same_disk w2 w'" by (rule keeps_disk, rule same_rest.frame_operations, rule insert)
  have "insert_snapshot_stmt ?input (w_db w2) = (Inr s, w_db w')"
    using insert by (auto simp: InsertMarketDataSnapshot_def wrapping_Inr dest: pg_exec_Inr)
  from insert_snapshot_Inr [OF this] have row: "db_snapshots (w_db w') = db_snapshots (w_db w) @ [s]"
    "snap_StorageKey s = Some (snapshot_key w)" "snap_Checksum s = Some (sha256_hex ?csv)"
    "snap_Symbols s = mdr_Symbols request" "snap_StartDate s = mdr_StartDate request" "snap_EndDate s = mdr_EndDate request"
    using sha256_checksum [of ?csv] by (auto simp: w2_def w1 blob_stored_def Checksum_def)
  have "s_files w' = (s_files w)(destination (s_cwd w) rt (snapshot_key w) := Some ?csv)"
    using disk by (simp add: same_disk_def w2_def w1 blob_stored_def)
  then show ?thesis using valid fetch bars row by blast
qed

text \<open>
  C32 The canonical bytes are a faithful and order-free image of the bars. Reading them line by line, field
  by field, gives back the bars that were stored, in the order of \<open>bar_before\<close> (by symbol, then by date), with
  every price the very same binary64 number, provided that the prices are binary64 numbers and that no symbol or
  date holds a comma or a line feed (\<open>plain_bar\<close>); and where no symbol has two bars of one date, any order in
  which a provider delivers such bars gives the same bytes, hence the same checksum.
\<close>

theorem canonical_csv:
  assumes "\<forall>b \<in> set bars. plain_bar b"
  shows "bars_of_csv (CanonicalCSV bars) = map Some (sort_slice bar_before bars)
    \<and> (distinct (map (\<lambda>b. (bar_Symbol b, bar_Date b)) bars) \<longrightarrow>
         (\<forall>bars'. mset bars' = mset bars \<longrightarrow>
            CanonicalCSV bars' = CanonicalCSV bars \<and> Checksum (CanonicalCSV bars') = Checksum (CanonicalCSV bars)))"
  by (intro conjI impI allI canonical_csv_reads_back assms arg_cong [of _ _ Checksum] canonical_csv_order)

section \<open>At a concrete request\<close>

definition sample_bar :: "string \<Rightarrow> bar" where
  "sample_bar date = \<lparr>bar_Symbol = ''SPY'', bar_Date = date, bar_Open = Fin 1, bar_High = Fin 1, bar_Low = Fin 1,
     bar_Close = Fin 1, bar_AdjClose = Fin 1, bar_Volume = 7\<rparr>"

theorem canonical_csv_witness:
  "bars_of_csv (CanonicalCSV [sample_bar ''2024-01-03'', sample_bar ''2024-01-02''])
     = [Some (sample_bar ''2024-01-02''), Some (sample_bar ''2024-01-03'')]"
proof -
  have "\<forall>b \<in> set [sample_bar ''2024-01-03'', sample_bar ''2024-01-02'']. plain_bar b"
    by (simp add: plain_bar_def sample_bar_def field_text_def binary64_def round64_1)
  from canonical_csv [OF this] show ?thesis
    by (simp add: sort_slice_def bar_before_def) (simp add: sample_bar_def)
qed

definition sample_market_body :: json where
  "sample_market_body =
     JObject [(''provider'', JString ''p''), (''bars'', JArray [JObject [(''symbol'', JString ''SPY''),
       (''date'', JString ''2024-01-02''), (''open'', JInt 1), (''high'', JInt 1), (''low'', JInt 1), (''close'', JInt 1),
       (''adj_close'', JInt 1), (''volume'', JInt 7)]])]"

definition sample_request :: market_data_request where
  "sample_request = \<lparr>mdr_Symbols = [''SPY''], mdr_StartDate = ''2024-01-02'', mdr_EndDate = ''2024-02-29'',
     mdr_Interval = ''1d''\<rparr>"

definition market_site :: site where
  "market_site = (sample_site sample_db)\<lparr>s_replies := [Replied \<lparr>qr_StatusCode = 200, qr_Status = ''200 OK'',
     qr_Bytes = ''{}'', qr_Body = Raw sample_market_body, qr_ReadError = None\<rparr>]\<rparr>"

definition sample_client :: quant_client where
  "sample_client = NewClient (\<lambda>url. None) ''http://quant:8000/''"

lemma sample_fetch:
  "FetchMarketData sample_client sample_request market_site =
     (Inr \<lparr>mres_Provider = ''p'', mres_Bars = [sample_bar ''2024-01-02''], mres_RetrievedAt = 0\<rparr>,
      market_site\<lparr>s_sent := [MarketDataRequest sample_request], s_replies := []\<rparr>)"
  by (simp add: FetchMarketData_def call_quant_def marshals_def and_then_def wrapping_def http_do_def Let_def
      sample_client_def NewClient_def market_site_def sample_site_def read_reply_def maxResponseBytes_def ok_def
      unmarshal_def sample_market_body_def dec_struct_def market_data_dec_def find_field_exact dec_string_def
      dec_slice_def items_def dec_elem_def bar_dec_def dec_float_def float_of_json_def dec_int_def int64_range_def
      zero_bar_def round64_1 sample_bar_def)

lemma sample_snapshot_row:
  "\<exists>s d. insert_snapshot_stmt
      \<lparr>csi_Provider = ''p'', csi_Symbols = [''SPY''], csi_Interval = ''1d'', csi_StartDate = ''2024-01-02'',
       csi_EndDate = ''2024-02-29'', csi_StorageKey = snapshot_key market_site,
       csi_Checksum = Checksum csv, csi_RetrievedAt = 0\<rparr> sample_db = (Inr s, d)"
proof -
  have conv: "text_in ''p'' = Inr ''p''" "text_in ''1d'' = Inr ''1d''"
    "date_in ''2024-01-02'' = Inr ''2024-01-02''" "date_in ''2024-02-29'' = Inr ''2024-02-29''"
    by code_simp+
  have key: "text_in (snapshot_key market_site) = Inr (snapshot_key market_site)"
  proof -
    have "snapshot_key market_site = ''market-data/'' @ hex_of_bytes (replicate 16 (CHR 0x01)) @ ''.csv''"
      by (simp add: snapshot_key_def market_site_def sample_site_def)
    moreover have "text_in (''market-data/'' @ hex_of_bytes (replicate 16 (CHR 0x01)) @ ''.csv'')
        = Inr (''market-data/'' @ hex_of_bytes (replicate 16 (CHR 0x01)) @ ''.csv'')" by code_simp
    ultimately show ?thesis by simp
  qed
  have "case jsonb_in (Raw (JObject [(''bar_interval'', json_string ''1d'')])) of Inr m \<Rightarrow> True | Inl e \<Rightarrow> False"
    by code_simp
  then obtain m where json: "jsonb_in (Raw (JObject [(''bar_interval'', json_string ''1d'')])) = Inr m"
    by (auto split: sum.splits)
  have new: "new_ids ! 0 \<noteq> snapshot_id1" by (simp add: new_ids_def snapshot_id1_def)
  show ?thesis
    using conv key json new sha256_checksum [of csv]
    by (simp add: insert_snapshot_stmt_def act_simps text_in_samples snapshot_metadata_def Let_def sample_db_def sample_uuid_new)
qed

theorem snapshot_proves_data_witness:
  "\<exists>s w'. FetchSnapshot sample_client ''/srv/data'' sample_request market_site = (Inr s, w')
     \<and> snap_Checksum s = Some (sha256_hex (CanonicalCSV [sample_bar ''2024-01-02'']))"
proof -
  let ?csv = "CanonicalCSV [sample_bar ''2024-01-02'']"
  let ?w1 = "market_site\<lparr>s_sent := [MarketDataRequest sample_request], s_replies := []\<rparr>"
  have valid: "validateRequest sample_request = None"
  proof -
    have "parse_date ''2024-01-02'' = Some (midnight 2024 1 2)" "parse_date ''2024-02-29'' = Some (midnight 2024 2 29)"
      by code_simp+
    moreover have "midnight 2024 1 2 \<le> midnight 2024 2 29"
      by (rule less_imp_le, rule midnight_less) (simp_all add: days_in_month_def)
    ultimately show ?thesis
      by (simp add: validateRequest_None sample_request_def symbol_pattern_def byte_in_def)
  qed
  have abs: "is_abs (s_cwd market_site)" unfolding market_site_def sample_site_def by code_simp
  have calm: "calm market_site" by (simp add: market_site_def sample_site_def)
  have free: "file_at (first_temp (path_dir (destination (s_cwd market_site) ''/srv/data'' (snapshot_key market_site)))
      ''.snapshot-'' market_site) market_site = None"
    by (simp add: file_at_def market_site_def sample_site_def)
  have key: "snapshot_key ?w1 = snapshot_key market_site" by (simp add: snapshot_key_def)
  have save: "SnapshotStore_Save ''/srv/data'' ?csv ?w1
      = (Inr (snapshot_key market_site), blob_stored ''/srv/data'' (snapshot_key market_site) ?csv ?w1)"
    using calm_SnapshotStore_Save [of ?w1 "''/srv/data''" ?csv] abs calm free unfolding key
    by (simp add: first_temp_def file_at_def)
  have db: "w_db (blob_stored ''/srv/data'' k ?csv ?w1) = sample_db" "w_faults (blob_stored ''/srv/data'' k ?csv ?w1) = []" for k
    by (simp_all add: blob_stored_def market_site_def sample_site_def)
  obtain s d where "insert_snapshot_stmt
      \<lparr>csi_Provider = ''p'', csi_Symbols = [''SPY''], csi_Interval = ''1d'', csi_StartDate = ''2024-01-02'',
       csi_EndDate = ''2024-02-29'', csi_StorageKey = snapshot_key market_site,
       csi_Checksum = Checksum ?csv, csi_RetrievedAt = 0\<rparr> sample_db = (Inr s, d)"
    using sample_snapshot_row by blast
  then obtain w' where run: "FetchSnapshot sample_client ''/srv/data'' sample_request market_site = (Inr s, w')"
    using valid sample_fetch save db
    by (auto simp: FetchSnapshot_def and_then_def Let_def InsertMarketDataSnapshot_def wrapping_def pg_exec_def
        next_fault_def sample_request_def)
  from snapshot_proves_data [OF run calm abs free] sample_fetch run show ?thesis by auto
qed

text \<open>Two bars of one symbol and date keep the order they came in, which the checksum then depends on.\<close>

lemma canonical_csv_duplicates:
  "CanonicalCSV [sample_bar ''2024-01-02'', sample_bar ''2024-01-02''\<lparr>bar_Volume := 8\<rparr>]
     \<noteq> CanonicalCSV [sample_bar ''2024-01-02''\<lparr>bar_Volume := 8\<rparr>, sample_bar ''2024-01-02'']"
proof
  let ?a = "sample_bar ''2024-01-02''"
  let ?b = "?a\<lparr>bar_Volume := 8\<rparr>"
  assume same: "CanonicalCSV [?a, ?b] = CanonicalCSV [?b, ?a]"
  have "plain_bar ?a" "plain_bar ?b"
    by (simp_all add: plain_bar_def sample_bar_def field_text_def binary64_def round64_1)
  then have "map Some (sort_slice bar_before [?a, ?b]) = map Some (sort_slice bar_before [?b, ?a])"
    using canonical_csv_reads_back [of "[?a, ?b]"] canonical_csv_reads_back [of "[?b, ?a]"] same by simp
  then show False by (simp add: sort_slice_def bar_before_def sample_bar_def)
qed

end
