(* ===== verification/ErrorText.thy ===== *)
theory ErrorText
  imports GoStrings
begin

text \<open>
  The text of an error, \<open>err.Error()\<close>: \<open>fmt.Errorf\<close> expands its verbs from left to right. It is needed where
  the text of a cause is stored with a failed job.
\<close>

definition hex_low :: "nat \<Rightarrow> char" where "hex_low n = ''0123456789abcdef'' ! n"

text \<open>
  \<open>strconv.Quote\<close>: a printable rune stays, the quote and the backslash are escaped, the usual control
  characters have letters, any other byte is written in hexadecimal; which runes of more than one byte
  are printable is the table of \<open>unicode.IsPrint\<close>, with the escape of the others, a parameter.
\<close>

definition quote_rune :: "(string \<Rightarrow> string) \<Rightarrow> string \<Rightarrow> string" where
  "quote_rune wide r =
     (case r of
        [c] \<Rightarrow>
          if c = CHR 0x22 then [CHR 0x5C, CHR 0x22]
          else if c = CHR 0x5C then [CHR 0x5C, CHR 0x5C]
          else if byte_in 32 126 c then [c]
          else if c = CHR 0x07 then [CHR 0x5C, CHR ''a'']
          else if c = CHR 0x08 then [CHR 0x5C, CHR ''b'']
          else if c = CHR 0x0C then [CHR 0x5C, CHR ''f'']
          else if c = CHR 0x0A then [CHR 0x5C, CHR ''n'']
          else if c = CHR 0x0D then [CHR 0x5C, CHR ''r'']
          else if c = CHR 0x09 then [CHR 0x5C, CHR ''t'']
          else if c = CHR 0x0B then [CHR 0x5C, CHR ''v'']
          else [CHR 0x5C, CHR ''x'', hex_low (code c div 16), hex_low (code c mod 16)]
      | _ \<Rightarrow> wide r)"

definition go_quote :: "(string \<Rightarrow> string) \<Rightarrow> string \<Rightarrow> string" where
  "go_quote wide s = CHR 0x22 # concat (map (quote_rune wide) (runes s)) @ [CHR 0x22]"

text \<open>Each verb takes the next argument.\<close>

fun fill_verbs :: "string \<Rightarrow> string list \<Rightarrow> string" where
  "fill_verbs (c # v # f) (a # as) = (if c = CHR ''%'' then a @ fill_verbs f as else c # fill_verbs (v # f) (a # as))"
| "fill_verbs f as = f"

fun error_text :: "(string \<Rightarrow> string) \<Rightarrow> err \<Rightarrow> string" and
    arg_text :: "(string \<Rightarrow> string) \<Rightarrow> farg \<Rightarrow> string" and
    arg_texts :: "(string \<Rightarrow> string) \<Rightarrow> farg list \<Rightarrow> string list" where
  "error_text wide (Sentinel s) = s"
| "error_text wide (External s) = s"
| "error_text wide (Errorf f as) = fill_verbs f (arg_texts wide as)"
| "arg_text wide (AD n) = itoa n"
| "arg_text wide (AQ s) = go_quote wide s"
| "arg_text wide (AS s) = s"
| "arg_text wide (AW e) = error_text wide e"
| "arg_text wide (AV e) = error_text wide e"
| "arg_texts wide [] = []"
| "arg_texts wide (a # as) = arg_text wide a # arg_texts wide as"

lemma error_text_sample:
  "error_text wide (Errorf ''decode %s: %w'' [AS ''payload'', AW (Errorf ''page %d of %q'' [AD 3, AQ ''a''])])
     = ''decode payload: page 3 of '' @ [CHR 0x22, CHR ''a'', CHR 0x22]"
  by code_simp

end
