(* ===== verification/Worker.thy ===== *)
theory Worker
  imports StrategyService MarketDataService ErrorText StoreRuns
begin

text \<open>
  \<open>internal/jobs/worker.go\<close>: leasing jobs and carrying them out against the store, the quant service and
  the shared volume. The logger is left out; what the loop returns or writes down is not.
\<close>

section \<open>What the worker is given\<close>

text \<open>
  The interfaces of \<open>Options\<close> as operations on the world, \<open>None\<close> where the interface is nil. A call on a nil
  extractor would panic; \<open>Run\<close> does not start without one.
\<close>

record 'w options =
  op_Store :: bool
  op_Extractor :: "(document \<Rightarrow> ('w, extraction) act) option"
  op_MarketData :: "(market_data_request \<Rightarrow> ('w, market_data_snapshot) act) option"
  op_Backtest :: "(backtest_request \<Rightarrow> ('w, backtest_result) act) option"
  op_Artifacts :: "(string \<Rightarrow> ('w, string) act) option"
  op_WorkerID :: string
  op_PollInterval :: int
  op_LeaseDuration :: int

definition nil_error :: err where "nil_error = External ''nil pointer dereference''"

text \<open>The runtime's tables: the lower case of a wide rune, and its quoted form.\<close>

record rune_tables =
  rt_lower :: "string \<Rightarrow> string"
  rt_quote :: "string \<Rightarrow> string"

section \<open>Extraction\<close>

definition id_payload :: "string \<Rightarrow> raw_message \<Rightarrow> string result" where
  "id_payload field payload = unmarshal (dec_struct False [(field, dec_string (\<lambda>s _. s))]) [] payload"

definition extract_and_store :: "'x world_scheme options \<Rightarrow> document \<Rightarrow> ('x world_scheme, unit) act" where
  "extract_and_store opts x =
     and_then (SetDocumentStatus (doc_ID x) ''processing'') (\<lambda>_.
     and_then (case op_Extractor opts of None \<Rightarrow> fail nil_error | Some extract \<Rightarrow> extract x)
       (ReplaceExtraction (doc_ID x)))"

text \<open>The document's id, as far as it is known, and the error.\<close>

definition processExtraction ::
    "'x world_scheme options \<Rightarrow> job \<Rightarrow> 'x world_scheme \<Rightarrow> (string \<times> err option) \<times> 'x world_scheme" where
  "processExtraction opts j w =
     (case id_payload ''document_id'' (job_Payload j) of
        Inl e \<Rightarrow> (([], Some (Errorf ''decode extract_document payload: %w'' [AW e])), w)
      | Inr document_id \<Rightarrow>
          if document_id = [] then (([], Some (Errorf ''decode extract_document payload: missing document_id'' [])), w)
          else case GetDocument document_id w of
            (Inl e, w1) \<Rightarrow> ((document_id, Some e), w1)
          | (Inr x, w1) \<Rightarrow>
              (case extract_and_store opts x w1 of
                 (Inl e, w2) \<Rightarrow> ((doc_ID x, Some e), w2)
               | (Inr _, w2) \<Rightarrow> ((doc_ID x, None), w2)))"

section \<open>Market data\<close>

definition market_request_dec :: "(string \<times> market_data_request field) list" where
  "market_request_dec =
     [(''symbols'', dec_slice string_elem (\<lambda>ss r. r\<lparr>mdr_Symbols := items ss\<rparr>)),
      (''start_date'', dec_string (\<lambda>s r. r\<lparr>mdr_StartDate := s\<rparr>)),
      (''end_date'', dec_string (\<lambda>s r. r\<lparr>mdr_EndDate := s\<rparr>)),
      (''interval'', dec_string (\<lambda>s r. r\<lparr>mdr_Interval := s\<rparr>))]"

definition zero_market_request :: market_data_request where
  "zero_market_request = \<lparr>mdr_Symbols = [], mdr_StartDate = [], mdr_EndDate = [], mdr_Interval = []\<rparr>"

definition processMarketData :: "'x world_scheme options \<Rightarrow> job \<Rightarrow> ('x world_scheme, unit) act" where
  "processMarketData opts j =
     (case op_MarketData opts of
        None \<Rightarrow> fail (Errorf ''market data fetcher is not configured'' [])
      | Some fetch \<Rightarrow>
          (case unmarshal (dec_struct False market_request_dec) zero_market_request (job_Payload j) of
             Inl e \<Rightarrow> fail (Errorf ''decode fetch_market_data payload: %w'' [AW e])
           | Inr request \<Rightarrow> and_then (fetch request) (\<lambda>snapshot. ok ())))"

section \<open>Backtests\<close>

definition backtestSignals ::
    "rune_tables \<Rightarrow> raw_message \<Rightarrow> stored_claim list \<Rightarrow> time \<Rightarrow> (claim_signal list \<times> string list) result" where
  "backtestSignals tables raw_spec citations cutoff =
     (case universe_symbols raw_spec of
        Inl e \<Rightarrow> Inl e
      | Inr universe \<Rightarrow> Inr (build_signals (rt_lower tables) citations universe cutoff, universe))"

definition failIfTerminal :: "job \<Rightarrow> string \<Rightarrow> err \<Rightarrow> ('x world_scheme, 'a) act" where
  "failIfTerminal j backtest_id cause =
     (if job_MaxAttempts j \<le> job_Attempts j then
        attempt (SetBacktestStatus backtest_id ''failed'') (\<lambda>r. case r of
          Inl status_error \<Rightarrow> fail (Errorf ''%w; mark backtest failed: %v'' [AW cause, AV status_error])
        | Inr _ \<Rightarrow> fail cause)
      else fail cause)"

text \<open>\<open>if err != nil { return failIfTerminal(err) }\<close>.\<close>

definition or_terminal ::
    "job \<Rightarrow> string \<Rightarrow> ('x world_scheme, 'a) act \<Rightarrow> ('a \<Rightarrow> ('x world_scheme, 'b) act) \<Rightarrow> ('x world_scheme, 'b) act" where
  "or_terminal j backtest_id f k =
     attempt f (\<lambda>r. case r of Inl e \<Rightarrow> failIfTerminal j backtest_id e | Inr x \<Rightarrow> k x)"

fun join_comma :: "string list \<Rightarrow> string" where
  "join_comma [] = []"
| "join_comma [s] = s"
| "join_comma (s # ss) = s @ '', '' @ join_comma ss"

text \<open>From the moment the engine has answered.\<close>

definition storeResult ::
    "job \<Rightarrow> string \<Rightarrow> (string \<Rightarrow> ('x world_scheme, string) act) \<Rightarrow> string \<Rightarrow> string list \<Rightarrow> backtest_result
      \<Rightarrow> ('x world_scheme, unit) act" where
  "storeResult j backtest_id save run_id universe result =
     (let unauthorized = missing_symbols (candidate_symbols (res_Candidates result)) universe
      in if unauthorized \<noteq> []
         then failIfTerminal j backtest_id
           (Errorf ''engine proposed candidates outside the strategy universe: %s'' [AS (join_comma unauthorized)])
         else
           or_terminal j backtest_id (save (res_EquityCurveCSV result)) (\<lambda>artifact_key.
           or_terminal j backtest_id (CompleteBacktest run_id result artifact_key) ok))"

definition runBacktest ::
    "rune_tables \<Rightarrow> job \<Rightarrow> string \<Rightarrow> (backtest_request \<Rightarrow> ('x world_scheme, backtest_result) act)
      \<Rightarrow> (string \<Rightarrow> ('x world_scheme, string) act) \<Rightarrow> backtest_run \<Rightarrow> ('x world_scheme, unit) act" where
  "runBacktest tables j backtest_id engine save run =
     or_terminal j backtest_id (GetStrategyWithCitations (run_StrategyID run)) (\<lambda>(strategy, citations).
     or_terminal j backtest_id (GetMarketDataSnapshot (run_MarketDataSnapshotID run)) (\<lambda>snapshot.
     case (snap_StorageKey snapshot, snap_Checksum snapshot) of
       (Some storage_key, Some checksum) \<Rightarrow>
         or_terminal j backtest_id
           (convert (backtestSignals tables (st_Spec strategy) citations (run_DocumentCutoffAt run))) (\<lambda>(signals, universe).
         or_terminal j backtest_id (SetBacktestStatus (run_ID run) ''running'') (\<lambda>_.
         or_terminal j backtest_id (engine
           \<lparr>br_BacktestID = run_ID run, br_Spec = st_Spec strategy, br_SnapshotStorageKey = storage_key,
            br_SnapshotChecksum = checksum, br_DocumentCutoffAt = run_DocumentCutoffAt run,
            br_Parameters = run_Parameters run, br_Signals = signals\<rparr>) (\<lambda>result.
         storeResult j backtest_id save (run_ID run) universe result)))
     | _ \<Rightarrow> failIfTerminal j backtest_id (Errorf ''snapshot %s is not ready'' [AS (snap_ID snapshot)])))"

definition processBacktest :: "rune_tables \<Rightarrow> 'x world_scheme options \<Rightarrow> job \<Rightarrow> ('x world_scheme, unit) act" where
  "processBacktest tables opts j =
     (case (op_Backtest opts, op_Artifacts opts) of
        (Some engine, Some save) \<Rightarrow>
          (case id_payload ''backtest_id'' (job_Payload j) of
             Inl e \<Rightarrow> fail (Errorf ''decode run_backtest payload: %w'' [AW e])
           | Inr backtest_id \<Rightarrow>
               if backtest_id = [] then fail (Errorf ''decode run_backtest payload: missing backtest_id'' [])
               else
                 or_terminal j backtest_id (GetBacktestRun backtest_id) (\<lambda>run.
                 if run_Status run = ''completed'' then ok ()
                 else runBacktest tables j backtest_id engine save run))
      | _ \<Rightarrow> fail (Errorf ''backtest runner is not configured'' []))"

section \<open>One job\<close>

definition error_of :: "unit result \<Rightarrow> err option" where
  "error_of r = (case r of Inl e \<Rightarrow> Some e | Inr _ \<Rightarrow> None)"

definition process ::
    "rune_tables \<Rightarrow> 'x world_scheme options \<Rightarrow> job \<Rightarrow> 'x world_scheme \<Rightarrow> (string \<times> err option) \<times> 'x world_scheme" where
  "process tables opts j w =
     (if job_Type j = ''extract_document'' then processExtraction opts j w
      else if job_Type j = ''fetch_market_data'' then
        (case processMarketData opts j w of (r, w1) \<Rightarrow> (([], error_of r), w1))
      else if job_Type j = ''run_backtest'' then
        (case processBacktest tables opts j w of (r, w1) \<Rightarrow> (([], error_of r), w1))
      else (([], Some (Errorf ''unsupported job type %q'' [AQ (job_Type j)])), w))"

text \<open>After a job has failed: its row, and the document's status when it will not be tried again.\<close>

definition record_failure ::
    "rune_tables \<Rightarrow> job \<Rightarrow> string \<Rightarrow> err \<Rightarrow> 'x world_scheme \<Rightarrow> err option \<times> 'x world_scheme" where
  "record_failure tables j document_id cause w =
     (case FailJob j (error_text (rt_quote tables) cause) w of
        (Inl e, w1) \<Rightarrow> (Some (Errorf ''process job %s: %w; record failure: %v'' [AS (job_ID j), AW cause, AV e]), w1)
      | (Inr terminal, w1) \<Rightarrow>
          if terminal \<and> document_id \<noteq> [] then
            (case SetDocumentStatus document_id ''failed'' w1 of
               (Inl e, w2) \<Rightarrow> (Some (Errorf ''mark document failed after job error: %w'' [AW e]), w2)
             | (Inr _, w2) \<Rightarrow> (None, w2))
          else (None, w1))"

text \<open>
  Whether a job was processed, and the error for the log. \<open>meanwhile\<close> is what happens elsewhere while the job
  is being carried out: time passes, other processes work on the tables, connections fail or recover.
\<close>

definition runOne ::
    "rune_tables \<Rightarrow> 'x world_scheme options \<Rightarrow> ('x world_scheme \<Rightarrow> 'x world_scheme) \<Rightarrow> 'x world_scheme
      \<Rightarrow> (bool \<times> err option) \<times> 'x world_scheme" where
  "runOne tables opts meanwhile w =
     (case LeaseNextJob (op_WorkerID opts) (op_LeaseDuration opts) w of
        (Inl e, w1) \<Rightarrow> ((False, Some e), w1)
      | (Inr None, w1) \<Rightarrow> ((False, None), w1)
      | (Inr (Some j), w1) \<Rightarrow>
          (case process tables opts j w1 of
             ((document_id, None), w2) \<Rightarrow>
               (case CompleteJob (job_ID j) (meanwhile w2) of (r, w3) \<Rightarrow> ((True, error_of r), w3))
           | ((document_id, Some e), w2) \<Rightarrow>
               (case record_failure tables j document_id e (meanwhile w2) of (r, w3) \<Rightarrow> ((True, r), w3))))"

section \<open>The loop\<close>

text \<open>
  \<open>Run\<close> for as many iterations as \<open>steps\<close> has entries: what each iteration brought for the log, whether the
  worker has stopped by then, and the world. An entry is what happens elsewhere during the iteration, while a
  job is carried out or while the worker waits, and whether the context is done when the wait ends.
\<close>

fun run_loop ::
    "rune_tables \<Rightarrow> 'x world_scheme options \<Rightarrow> (bool \<times> ('x world_scheme \<Rightarrow> 'x world_scheme)) list \<Rightarrow> 'x world_scheme
      \<Rightarrow> (bool \<times> err option) list \<times> bool \<times> 'x world_scheme" where
  "run_loop tables opts [] w = ([], False, w)"
| "run_loop tables opts ((stop, meanwhile) # steps) w =
     (case runOne tables opts meanwhile w of
        ((True, e), w1) \<Rightarrow> (case run_loop tables opts steps w1 of (logged, r) \<Rightarrow> ((True, e) # logged, r))
      | ((False, e), w1) \<Rightarrow>
          if stop then ([(False, e)], True, meanwhile w1)
          else case run_loop tables opts steps (meanwhile w1) of (logged, r) \<Rightarrow> ((False, e) # logged, r))"

text \<open>\<open>None\<close> while the worker is still running.\<close>

definition Run ::
    "rune_tables \<Rightarrow> 'x world_scheme options \<Rightarrow> (bool \<times> ('x world_scheme \<Rightarrow> 'x world_scheme)) list \<Rightarrow> 'x world_scheme
      \<Rightarrow> unit result option \<times> 'x world_scheme" where
  "Run tables opts steps w =
     (if \<not> op_Store opts \<or> op_Extractor opts = None
      then (Some (Inl (Errorf ''worker requires a store and extractor'' [])), w)
      else if op_PollInterval opts \<le> 0 \<or> op_LeaseDuration opts \<le> 0
      then (Some (Inl (Errorf ''worker intervals must be positive'' [])), w)
      else case run_loop tables opts steps w of
        (logged, stopped, w') \<Rightarrow> (if stopped then Some (Inr ()) else None, w'))"

section \<open>The options of cmd/worker\<close>

definition worker_options :: "quant_client \<Rightarrow> string \<Rightarrow> string \<Rightarrow> int \<Rightarrow> int \<Rightarrow> 'x site_scheme options" where
  "worker_options client storage_path worker_id poll lease =
     \<lparr>op_Store = True, op_Extractor = Some (ExtractClaims client), op_MarketData = Some (FetchSnapshot client storage_path),
      op_Backtest = Some (RunBacktest client), op_Artifacts = Some (ArtifactStore_Save storage_path),
      op_WorkerID = worker_id, op_PollInterval = poll, op_LeaseDuration = lease\<rparr>"

end
