(* ===== verification/HttpTypes.thy ===== *)
theory HttpTypes
  imports Worker
begin

text \<open>
  \<open>internal/httpapi\<close>: what a request brings, what a response carries, and how the rows of the store are
  presented. A response keeps the value given to \<open>writeJSON\<close>; its encoding is not modelled.
\<close>

section \<open>Requests\<close>

text \<open>
  A body as its readers see it. Read as JSON: the first value in it and the number of bytes up to that
  value's end. Read as a form: whether its type is multipart, its length, and either the form or the number
  of bytes after which it is found malformed. A file is the first under \<open>"file"\<close> that can be opened.
\<close>

record uploaded_file =
  uf_Filename :: string
  uf_Size :: int
  uf_ContentType :: string
  uf_Content :: reader

record multipart_form =
  mf_File :: "uploaded_file option"
  mf_PublishedAt :: "string list"

record http_body =
  hb_Value :: raw_message
  hb_Bytes :: int
  hb_Multipart :: bool
  hb_Length :: int
  hb_Form :: "int + multipart_form"

text \<open>
  The path has no escapes; \<open>hr_RequestID\<close> is the header, empty when absent; \<open>hr_Query\<close> and \<open>hr_QueryError\<close> are
  what \<open>url.ParseQuery\<close> makes of \<open>hr_RawQuery\<close>.
\<close>

record http_request =
  hr_Method :: string
  hr_Path :: string
  hr_RequestID :: string
  hr_RawQuery :: string
  hr_Query :: "(string \<times> string) list"
  hr_QueryError :: bool
  hr_Body :: http_body

definition query_get :: "http_request \<Rightarrow> string \<Rightarrow> string" where
  "query_get request key = (case map_of (hr_Query request) key of None \<Rightarrow> [] | Some v \<Rightarrow> v)"

text \<open>\<open>json.NewDecoder(http.MaxBytesReader(body, limit))\<close>, \<open>DisallowUnknownFields\<close>, \<open>Decode\<close>.\<close>

definition decode_body :: "int \<Rightarrow> (string \<times> 'r field) list \<Rightarrow> 'r \<Rightarrow> http_request \<Rightarrow> 'r result" where
  "decode_body limit dec zero request =
     (if limit < hb_Bytes (hr_Body request) then Inl (External ''http: request body too large'')
      else unmarshal (dec_struct True dec) zero (hb_Value (hr_Body request)))"

text \<open>
  \<open>MaxBytesReader\<close> and \<open>ParseMultipartForm\<close>: too large, malformed, or the form. A query that does not parse is
  an error of the form; the values of a query come before those of the form.
\<close>

datatype form_result = FormTooLarge | FormMalformed | FormParsed multipart_form

definition parse_multipart :: "int \<Rightarrow> http_request \<Rightarrow> form_result" where
  "parse_multipart limit request =
     (let body = hr_Body request; most = (if limit < 0 then 0 else limit) in
      if \<not> hb_Multipart body then FormMalformed
      else case hb_Form body of
        Inl n \<Rightarrow> if most < n then FormTooLarge else FormMalformed
      | Inr form \<Rightarrow>
          if most < hb_Length body then FormTooLarge
          else if hr_QueryError request then FormMalformed
          else FormParsed form)"

definition form_value :: "http_request \<Rightarrow> multipart_form \<Rightarrow> string" where
  "form_value request form =
     (case map snd (filter (\<lambda>(k, v). k = ''published_at'') (hr_Query request)) @ mf_PublishedAt form of
        [] \<Rightarrow> [] | v # vs \<Rightarrow> v)"

section \<open>Responses\<close>

record document_response =
  dre_ID :: string
  dre_Filename :: string
  dre_Status :: string
  dre_JobID :: string
  dre_Duplicate :: bool
  dre_SourcePublishedAt :: "time option"
  dre_UploadedAt :: time

record claim_response =
  cre_ID :: string
  cre_DocumentID :: string
  cre_PageNumber :: int
  cre_Ticker :: "string option"
  cre_ClaimKind :: string
  cre_Direction :: string
  cre_Claim :: string
  cre_EvidenceQuote :: string
  cre_HorizonDays :: "int option"
  cre_Confidence :: float64
  cre_EffectiveAt :: time
  cre_ValidationStatus :: string

record strategy_response =
  sre_ID :: string
  sre_Slug :: string
  sre_Version :: int
  sre_Name :: string
  sre_Spec :: raw_message
  sre_CreatedAt :: time
  sre_Citations :: "claim_response list"

record snapshot_response =
  mre_ID :: string
  mre_Provider :: string
  mre_Symbols :: "string list"
  mre_Interval :: string
  mre_StartDate :: string
  mre_EndDate :: string
  mre_StorageKey :: "string option"
  mre_Checksum :: "string option"
  mre_RetrievedAt :: time

record backtest_response_body =
  bre_ID :: string
  bre_Status :: string
  bre_StrategyID :: string
  bre_MarketDataSnapshotID :: string
  bre_DocumentCutoffAt :: time
  bre_Summary :: raw_message
  bre_EngineVersion :: "string option"
  bre_ResultArtifactKey :: "string option"
  bre_ResultChecksum :: "string option"
  bre_JobID :: string
  bre_CreatedAt :: time
  bre_CompletedAt :: "time option"

record candidate_evidence_response =
  ere_ClaimID :: string
  ere_DocumentID :: string
  ere_PageNumber :: int
  ere_Claim :: string
  ere_EvidenceQuote :: string
  ere_Direction :: string
  ere_Confidence :: float64
  ere_Contribution :: float64
  ere_EffectiveAt :: time

record candidate_response =
  pre_ID :: string
  pre_Symbol :: string
  pre_Rank :: int
  pre_Weight :: float64
  pre_Score :: float64
  pre_Momentum :: float64
  pre_MomentumRank :: "float64 option"
  pre_ClaimSupport :: float64
  pre_AsOf :: string
  pre_StrategyID :: string
  pre_StrategySlug :: string
  pre_StrategyVersion :: int
  pre_BacktestRunID :: string
  pre_EngineVersion :: "string option"
  pre_ResultChecksum :: "string option"
  pre_Evidence :: "candidate_evidence_response list"

datatype response_body =
    NoBody
  | ErrorBody string string
  | HealthBody string
  | DocumentBody document_response
  | ClaimsBody "claim_response list"
  | ClaimBody claim_response
  | StrategyBody strategy_response
  | StrategiesBody "strategy_response list"
  | DraftBody spec "claim_response list"
  | JobBody string
  | SnapshotBody snapshot_response
  | SnapshotsBody "snapshot_response list"
  | BacktestBody backtest_response_body
  | CandidatesBody "candidate_response list"

record http_response =
  rs_Status :: int
  rs_Allow :: "string option"
  rs_Location :: "string option"
  rs_RequestID :: string
  rs_Body :: response_body

definition writeJSON :: "int \<Rightarrow> response_body \<Rightarrow> http_response" where
  "writeJSON status body =
     \<lparr>rs_Status = status, rs_Allow = None, rs_Location = None, rs_RequestID = [], rs_Body = body\<rparr>"

definition writeError :: "int \<Rightarrow> string \<Rightarrow> string \<Rightarrow> http_response" where
  "writeError status error message = writeJSON status (ErrorBody error message)"

definition methodNotAllowed :: "string \<Rightarrow> http_response" where
  "methodNotAllowed allowed =
     (writeError 405 ''method_not_allowed'' ''method is not allowed'')\<lparr>rs_Allow := Some allowed\<rparr>"

section \<open>Presenting rows\<close>

definition claimResponseFrom :: "stored_claim \<Rightarrow> claim_response" where
  "claimResponseFrom c =
     \<lparr>cre_ID = sc_ID c, cre_DocumentID = sc_DocumentID c, cre_PageNumber = sc_PageNumber c, cre_Ticker = sc_Ticker c,
      cre_ClaimKind = sc_Kind c, cre_Direction = sc_Direction c, cre_Claim = sc_Text c,
      cre_EvidenceQuote = sc_EvidenceQuote c, cre_HorizonDays = sc_HorizonDays c, cre_Confidence = sc_Confidence c,
      cre_EffectiveAt = sc_EffectiveAt c, cre_ValidationStatus = sc_ValidationStatus c\<rparr>"

definition claimResponsesFrom :: "stored_claim list \<Rightarrow> claim_response list" where
  "claimResponsesFrom cs = map claimResponseFrom cs"

definition documentResponseFrom :: "upload_result \<Rightarrow> document_response" where
  "documentResponseFrom r =
     \<lparr>dre_ID = doc_ID (ur_Document r), dre_Filename = doc_Filename (ur_Document r), dre_Status = doc_Status (ur_Document r),
      dre_JobID = (case ur_Job r of None \<Rightarrow> [] | Some j \<Rightarrow> job_ID j), dre_Duplicate = (\<not> ur_Created r),
      dre_SourcePublishedAt = doc_SourcePublishedAt (ur_Document r), dre_UploadedAt = doc_UploadedAt (ur_Document r)\<rparr>"

definition strategyResponseFrom :: "strategy \<Rightarrow> stored_claim list \<Rightarrow> strategy_response" where
  "strategyResponseFrom s citations =
     \<lparr>sre_ID = st_ID s, sre_Slug = st_Slug s, sre_Version = st_Version s, sre_Name = st_Name s, sre_Spec = st_Spec s,
      sre_CreatedAt = st_CreatedAt s, sre_Citations = claimResponsesFrom citations\<rparr>"

definition snapshotResponseFrom :: "market_data_snapshot \<Rightarrow> snapshot_response" where
  "snapshotResponseFrom s =
     \<lparr>mre_ID = snap_ID s, mre_Provider = snap_Provider s, mre_Symbols = snap_Symbols s, mre_Interval = snap_Interval s,
      mre_StartDate = snap_StartDate s, mre_EndDate = snap_EndDate s, mre_StorageKey = snap_StorageKey s,
      mre_Checksum = snap_Checksum s, mre_RetrievedAt = snap_RetrievedAt s\<rparr>"

definition backtestResponseFrom :: "backtest_run \<Rightarrow> job option \<Rightarrow> backtest_response_body" where
  "backtestResponseFrom r j =
     \<lparr>bre_ID = run_ID r, bre_Status = run_Status r, bre_StrategyID = run_StrategyID r,
      bre_MarketDataSnapshotID = run_MarketDataSnapshotID r, bre_DocumentCutoffAt = run_DocumentCutoffAt r,
      bre_Summary = (if run_Summary r = empty_object then NoBytes else run_Summary r),
      bre_EngineVersion = run_EngineVersion r, bre_ResultArtifactKey = run_ResultArtifactKey r,
      bre_ResultChecksum = run_ResultChecksum r, bre_JobID = (case j of None \<Rightarrow> [] | Some k \<Rightarrow> job_ID k),
      bre_CreatedAt = run_CreatedAt r, bre_CompletedAt = run_CompletedAt r\<rparr>"

text \<open>\<open>Format(time.DateOnly)\<close>: the year is one of the three around the mean length of a year.\<close>

definition year_of :: "int \<Rightarrow> int" where
  "year_of days =
     (let y = days * 400 div 146097 + 1
      in if days < days_before_year y then y - 1 else if days_before_year (y + 1) \<le> days then y + 1 else y)"

definition month_of :: "int \<Rightarrow> int \<Rightarrow> int" where
  "month_of y day_of_year = last (filter (\<lambda>m. days_before_month y m \<le> day_of_year) [1..12])"

definition padded :: "nat \<Rightarrow> int \<Rightarrow> string" where
  "padded width n =
     (let ds = digits_of (nat \<bar>n\<bar>)
      in (if n < 0 then ''-'' else []) @ replicate (width - length ds) (CHR ''0'') @ ds)"

definition date_text :: "time \<Rightarrow> string" where
  "date_text t =
     (let days = t div nanos_per_day; y = year_of days; day_of_year = days - days_before_year y; m = month_of y day_of_year
      in padded 4 y @ ''-'' @ padded 2 m @ ''-'' @ padded 2 (day_of_year - days_before_month y m + 1))"

definition candidateResponseFrom :: "candidate \<Rightarrow> candidate_response" where
  "candidateResponseFrom c =
     \<lparr>pre_ID = cand_ID c, pre_Symbol = cand_Symbol c, pre_Rank = cand_Rank c, pre_Weight = cand_Weight c,
      pre_Score = cand_Score c, pre_Momentum = cand_Momentum c, pre_MomentumRank = cand_MomentumRank c,
      pre_ClaimSupport = cand_ClaimSupport c, pre_AsOf = date_text (cand_AsOf c), pre_StrategyID = cand_StrategyID c,
      pre_StrategySlug = cand_StrategySlug c, pre_StrategyVersion = cand_StrategyVersion c,
      pre_BacktestRunID = cand_BacktestRunID c, pre_EngineVersion = cand_EngineVersion c,
      pre_ResultChecksum = cand_ResultChecksum c,
      pre_Evidence = map (\<lambda>e. \<lparr>ere_ClaimID = sc_ID (cc_Claim e), ere_DocumentID = sc_DocumentID (cc_Claim e),
        ere_PageNumber = sc_PageNumber (cc_Claim e), ere_Claim = sc_Text (cc_Claim e),
        ere_EvidenceQuote = sc_EvidenceQuote (cc_Claim e), ere_Direction = sc_Direction (cc_Claim e),
        ere_Confidence = sc_Confidence (cc_Claim e), ere_Contribution = cc_Contribution e,
        ere_EffectiveAt = sc_EffectiveAt (cc_Claim e)\<rparr>) (cand_Evidence c)\<rparr>"

section \<open>Checking what is given\<close>

definition validUUID :: "string \<Rightarrow> bool" where
  "validUUID value \<longleftrightarrow>
     length value = 36
     \<and> list_all (\<lambda>(index, c). if index \<in> {8, 13, 18, 23} then c = CHR ''-'' else hex_digit c) (enumerate 0 value)"

definition parsePublishedAt :: "string \<Rightarrow> time option result" where
  "parsePublishedAt value =
     (if trim_space value = [] then Inr None
      else case parse_rfc3339 value of None \<Rightarrow> Inl (External ''parsing time'') | Some t \<Rightarrow> Inr (Some t))"

text \<open>\<open>path.Base\<close>.\<close>

definition path_base :: "string \<Rightarrow> string" where
  "path_base p =
     (if p = [] then ''.''
      else let b = rev (takeWhile (\<lambda>c. c \<noteq> slash) (dropWhile (\<lambda>c. c = slash) (rev p)))
           in if b = [] then ''/'' else b)"

definition safeFilename :: "string \<Rightarrow> string" where
  "safeFilename given =
     (let value = path_base (trim_space (map (\<lambda>c. if c = CHR 0x5C then slash else c) given))
      in if value = ''.'' \<or> value = ''/'' \<or> value = [] then ''document.pdf'' else value)"

text \<open>\<open>strconv.Atoi\<close>, where it succeeds.\<close>

definition atoi :: "string \<Rightarrow> int option" where
  "atoi s =
     (let digits = (if s \<noteq> [] \<and> (hd s = CHR ''+'' \<or> hd s = CHR ''-'') then tl s else s)
      in if digits = [] then None
         else case number 0 digits of
           None \<Rightarrow> None
         | Some n \<Rightarrow>
             (let k = (if hd s = CHR ''-'' then - n else n) in if int64_range k then Some k else None))"

end
