(* ===== verification/HttpApi.thy ===== *)
theory HttpApi
  imports HttpTypes
begin

text \<open>
  \<open>internal/httpapi\<close>: the handlers of the API and their routing. A handler answers in every case and passes
  the world on.
\<close>

section \<open>What the API is given\<close>

record 'w uploader =
  up_Upload :: "upload_input \<Rightarrow> ('w, upload_result) act"
  up_Get :: "string \<Rightarrow> ('w, document) act"

record 'w claims_service =
  cl_ListClaimsByDocument :: "string \<Rightarrow> ('w, stored_claim list) act"
  cl_SetClaimValidationStatus :: "string \<Rightarrow> string \<Rightarrow> ('w, stored_claim) act"

record 'w strategy_service =
  sv_Draft :: "draft_input \<Rightarrow> ('w, draft) act"
  sv_Create :: "create_input \<Rightarrow> ('w, strategy) act"
  sv_List :: "('w, strategy list) act"
  sv_Get :: "string \<Rightarrow> ('w, strategy \<times> stored_claim list) act"

record 'w market_data_service =
  md_RequestSnapshot :: "market_data_request \<Rightarrow> ('w, job) act"
  md_List :: "('w, market_data_snapshot list) act"
  md_Get :: "string \<Rightarrow> ('w, market_data_snapshot) act"

record 'w backtest_store =
  bk_Create :: "create_backtest_input \<Rightarrow> ('w, backtest_run \<times> job) act"
  bk_Get :: "string \<Rightarrow> ('w, backtest_run) act"

record 'w api_options =
  ao_Version :: string
  ao_Documents :: "'w uploader option"
  ao_Claims :: "'w claims_service option"
  ao_Strategies :: "'w strategy_service option"
  ao_MarketData :: "'w market_data_service option"
  ao_Backtests :: "'w backtest_store option"
  ao_Candidates :: "(candidate_filter \<Rightarrow> ('w, candidate list) act) option"
  ao_MaxUploadBytes :: int

type_synonym 'w handler = "'w \<Rightarrow> http_response \<times> 'w"

definition answer :: "http_response \<Rightarrow> 'w handler" where
  "answer r w = (r, w)"

definition calling :: "('w, 'a) act \<Rightarrow> ('a result \<Rightarrow> 'w handler) \<Rightarrow> 'w handler" where
  "calling f k w = (case f w of (r, w1) \<Rightarrow> k r w1)"

definition defaultMaxUploadBytes :: int where "defaultMaxUploadBytes = 20971520"
definition maxBacktestBodyBytes :: int where "maxBacktestBodyBytes = 32768"
definition body_limit :: int where "body_limit = 1048576"

text \<open>The three outcomes of a lookup: found, \<open>ErrNotFound\<close>, any other error.\<close>

definition lookup :: "('w, 'a) act \<Rightarrow> http_response \<Rightarrow> http_response \<Rightarrow> ('a \<Rightarrow> 'w handler) \<Rightarrow> 'w handler" where
  "lookup f missing failed k =
     calling f (\<lambda>r. case r of
       Inr x \<Rightarrow> k x
     | Inl e \<Rightarrow> if errors_is e ErrNotFound then answer missing else answer failed)"

section \<open>server.go\<close>

definition healthz :: "'w api_options \<Rightarrow> http_request \<Rightarrow> 'w handler" where
  "healthz opts request =
     (if hr_Method request \<noteq> ''GET'' then answer (methodNotAllowed ''GET'')
      else answer (writeJSON 200 (HealthBody (ao_Version opts))))"

definition writeUploadError :: "err \<Rightarrow> http_response" where
  "writeUploadError e =
     (if errors_is e ErrFileTooLarge then
        writeError 413 ''file_too_large'' ''uploaded file exceeds the configured size limit''
      else if errors_is e ErrInvalidPDF then
        writeError 422 ''invalid_pdf'' ''uploaded file is not a readable PDF''
      else writeError 500 ''document_upload_failed'' ''could not store document'')"

text \<open>\<open>int64\<close> arithmetic: the limit of the body is the configured one and a megabyte, wrapping around.\<close>

definition upload_limit :: "int \<Rightarrow> int" where
  "upload_limit most = (most + 1048576 + 2 ^ 63) mod 2 ^ 64 - 2 ^ 63"

definition upload_file :: "'w uploader \<Rightarrow> http_request \<Rightarrow> multipart_form \<Rightarrow> uploaded_file \<Rightarrow> 'w handler" where
  "upload_file service request form file =
     (case parsePublishedAt (form_value request form) of
        Inl e \<Rightarrow> answer (writeError 400 ''invalid_published_at'' ''published_at must use RFC3339 format'')
      | Inr published_at \<Rightarrow>
          calling (up_Upload service
            \<lparr>ui_Filename = safeFilename (uf_Filename file), ui_MIMEType = uf_ContentType file,
             ui_SourcePublishedAt = published_at, ui_Content = uf_Content file\<rparr>) (\<lambda>r. case r of
              Inl e \<Rightarrow> answer (writeUploadError e)
            | Inr result \<Rightarrow>
                answer (writeJSON (if ur_Created result then 202 else 200) (DocumentBody (documentResponseFrom result)))))"

definition documents_handler :: "'w api_options \<Rightarrow> http_request \<Rightarrow> 'w handler" where
  "documents_handler opts request =
     (if hr_Method request \<noteq> ''POST'' then answer (methodNotAllowed ''POST'')
      else case ao_Documents opts of
        None \<Rightarrow> answer (writeError 503 ''document_service_unavailable'' ''document service is not configured'')
      | Some service \<Rightarrow>
          (let most = (if ao_MaxUploadBytes opts \<le> 0 then defaultMaxUploadBytes else ao_MaxUploadBytes opts) in
           case parse_multipart (upload_limit most) request of
             FormTooLarge \<Rightarrow>
               answer (writeError 413 ''invalid_upload'' ''upload must be a multipart request containing a PDF file'')
           | FormMalformed \<Rightarrow>
               answer (writeError 400 ''invalid_upload'' ''upload must be a multipart request containing a PDF file'')
           | FormParsed form \<Rightarrow>
               (case mf_File form of
                  None \<Rightarrow> answer (writeError 400 ''missing_file'' ''multipart field 'file' is required'')
                | Some file \<Rightarrow>
                    if uf_Filename file = [] then
                      answer (writeError 400 ''invalid_filename'' ''uploaded file must have a filename'')
                    else if most < uf_Size file then
                      answer (writeError 413 ''file_too_large'' ''uploaded file exceeds the configured size limit'')
                    else upload_file service request form file)))"

definition document_missing :: http_response where
  "document_missing = writeError 404 ''document_not_found'' ''document was not found''"

definition documentClaims :: "'w api_options \<Rightarrow> http_request \<Rightarrow> string \<Rightarrow> 'w handler" where
  "documentClaims opts request i =
     (if hr_Method request \<noteq> ''GET'' then answer (methodNotAllowed ''GET'')
      else case ao_Claims opts of
        None \<Rightarrow> answer (writeError 503 ''claims_service_unavailable'' ''claims service is not configured'')
      | Some service \<Rightarrow>
          if \<not> validUUID i then answer document_missing
          else lookup (cl_ListClaimsByDocument service i) document_missing
            (writeError 500 ''claims_list_failed'' ''could not list claims'')
            (\<lambda>claims. answer (writeJSON 200 (ClaimsBody (claimResponsesFrom claims)))))"

definition documentByID :: "'w api_options \<Rightarrow> http_request \<Rightarrow> 'w handler" where
  "documentByID opts request =
     (let remainder = trim_prefix (hr_Path request) ''/v1/documents/'' in
      case cut_suffix remainder ''/claims'' of
        (i, True) \<Rightarrow> documentClaims opts request i
      | (_, False) \<Rightarrow>
          if hr_Method request \<noteq> ''GET'' then answer (methodNotAllowed ''GET'')
          else (case ao_Documents opts of
            None \<Rightarrow> answer (writeError 503 ''document_service_unavailable'' ''document service is not configured'')
          | Some service \<Rightarrow>
              if \<not> validUUID remainder then answer document_missing
              else lookup (up_Get service remainder) document_missing
                (writeError 500 ''document_lookup_failed'' ''could not load document'')
                (\<lambda>x. answer (writeJSON 200 (DocumentBody
                   \<lparr>dre_ID = doc_ID x, dre_Filename = doc_Filename x, dre_Status = doc_Status x, dre_JobID = [],
                    dre_Duplicate = False, dre_SourcePublishedAt = doc_SourcePublishedAt x,
                    dre_UploadedAt = doc_UploadedAt x\<rparr>)))))"

section \<open>claims.go\<close>

definition review_dec :: "(string \<times> string field) list" where
  "review_dec = [(''validation_status'', dec_string (\<lambda>s _. s))]"

definition claimByID :: "'w api_options \<Rightarrow> http_request \<Rightarrow> 'w handler" where
  "claimByID opts request =
     (if hr_Method request \<noteq> ''PATCH'' then answer (methodNotAllowed ''PATCH'')
      else case ao_Claims opts of
        None \<Rightarrow> answer (writeError 503 ''claims_service_unavailable'' ''claims service is not configured'')
      | Some service \<Rightarrow>
          (let i = trim_prefix (hr_Path request) ''/v1/claims/'';
               missing = writeError 404 ''claim_not_found'' ''claim was not found'' in
           if \<not> validUUID i then answer missing
           else case decode_body body_limit review_dec [] request of
             Inl e \<Rightarrow> answer (writeError 400 ''invalid_request_body'' ''request body must be JSON with validation_status'')
           | Inr status \<Rightarrow>
               if \<not> valid_claim_review_status status then
                 answer (writeError 400 ''invalid_validation_status'' ''validation_status must be accepted or rejected'')
               else lookup (cl_SetClaimValidationStatus service i status) missing
                 (writeError 500 ''claim_review_failed'' ''could not update claim'')
                 (\<lambda>c. answer (writeJSON 200 (ClaimBody (claimResponseFrom c))))))"

section \<open>strategies.go\<close>

record strategy_body =
  sb_Spec :: spec
  sb_ClaimIDs :: "string list"

definition strategy_body_dec :: "(string \<times> strategy_body field) list" where
  "strategy_body_dec =
     [(''spec'', dec_within (dec_struct True (spec_dec True)) sb_Spec (\<lambda>s b. b\<lparr>sb_Spec := s\<rparr>)),
      (''claim_ids'', dec_slice string_elem (\<lambda>ids b. b\<lparr>sb_ClaimIDs := items ids\<rparr>))]"

definition create_answer :: "rune_tables \<Rightarrow> strategy result \<Rightarrow> http_response" where
  "create_answer tables r =
     (case r of
        Inr s \<Rightarrow> writeJSON 201 (StrategyBody (strategyResponseFrom s []))
      | Inl e \<Rightarrow>
          if errors_is e ErrNoClaims then
            writeError 400 ''missing_claims'' ''claim_ids must cite at least one accepted claim''
          else if errors_is e ErrInvalidSpec then writeError 422 ''invalid_spec'' (error_text (rt_quote tables) e)
          else if errors_is e ErrClaimNotCitable then
            writeError 409 ''claim_not_citable'' ''every cited claim must exist and be accepted''
          else writeError 500 ''strategy_create_failed'' ''could not create strategy'')"

definition createStrategy :: "rune_tables \<Rightarrow> 'w strategy_service \<Rightarrow> http_request \<Rightarrow> 'w handler" where
  "createStrategy tables service request =
     (case decode_body body_limit strategy_body_dec \<lparr>sb_Spec = zero_spec, sb_ClaimIDs = []\<rparr> request of
        Inl e \<Rightarrow> answer (writeError 400 ''invalid_request_body'' ''request body must be JSON with spec and claim_ids'')
      | Inr body \<Rightarrow>
          if \<not> list_all validUUID (sb_ClaimIDs body) then
            answer (writeError 400 ''invalid_claim_id'' ''claim_ids must be UUIDs'')
          else calling (sv_Create service \<lparr>ci_Spec = sb_Spec body, ci_ClaimIDs = sb_ClaimIDs body\<rparr>)
            (\<lambda>r. answer (create_answer tables r)))"

definition listStrategies :: "'w strategy_service \<Rightarrow> 'w handler" where
  "listStrategies service =
     calling (sv_List service) (\<lambda>r. case r of
       Inl e \<Rightarrow> answer (writeError 500 ''strategy_list_failed'' ''could not list strategies'')
     | Inr ss \<Rightarrow> answer (writeJSON 200 (StrategiesBody (map (\<lambda>s. strategyResponseFrom s []) ss))))"

definition strategies_handler :: "rune_tables \<Rightarrow> 'w api_options \<Rightarrow> http_request \<Rightarrow> 'w handler" where
  "strategies_handler tables opts request =
     (case ao_Strategies opts of
        None \<Rightarrow> answer (writeError 503 ''strategy_service_unavailable'' ''strategy service is not configured'')
      | Some service \<Rightarrow>
          if hr_Method request = ''POST'' then createStrategy tables service request
          else if hr_Method request = ''GET'' then listStrategies service
          else answer (methodNotAllowed ''GET, POST''))"

definition draft_body_dec :: "(string \<times> draft_input field) list" where
  "draft_body_dec =
     [(''claim_ids'', dec_slice string_elem (\<lambda>ids b. b\<lparr>di_ClaimIDs := items ids\<rparr>)),
      (''document_ids'', dec_slice string_elem (\<lambda>ids b. b\<lparr>di_DocumentIDs := items ids\<rparr>))]"

definition draft_answer :: "rune_tables \<Rightarrow> draft result \<Rightarrow> http_response" where
  "draft_answer tables r =
     (case r of
        Inr d \<Rightarrow> writeJSON 200 (DraftBody (dr_Spec d) (claimResponsesFrom (dr_Claims d)))
      | Inl e \<Rightarrow>
          if errors_is e ErrNoClaims then writeError 400 ''missing_input'' ''provide claim_ids or document_ids''
          else if errors_is e ErrClaimMissing \<or> errors_is e ErrNotFound then
            writeError 404 ''claims_not_found'' ''one or more referenced records were not found''
          else if errors_is e ErrEmptyDraft then writeError 422 ''empty_draft'' (error_text (rt_quote tables) e)
          else writeError 500 ''strategy_draft_failed'' ''could not build strategy draft'')"

definition draftStrategy :: "rune_tables \<Rightarrow> 'w strategy_service \<Rightarrow> http_request \<Rightarrow> 'w handler" where
  "draftStrategy tables service request =
     (if hr_Method request \<noteq> ''POST'' then answer (methodNotAllowed ''POST'')
      else case decode_body body_limit draft_body_dec \<lparr>di_ClaimIDs = [], di_DocumentIDs = []\<rparr> request of
        Inl e \<Rightarrow>
          answer (writeError 400 ''invalid_request_body'' ''request body must be JSON with claim_ids or document_ids'')
      | Inr body \<Rightarrow>
          if \<not> list_all validUUID (di_ClaimIDs body @ di_DocumentIDs body) then
            answer (writeError 400 ''invalid_id'' ''claim_ids and document_ids must be UUIDs'')
          else calling (sv_Draft service body) (\<lambda>r. answer (draft_answer tables r)))"

definition strategyByID :: "'w strategy_service \<Rightarrow> http_request \<Rightarrow> string \<Rightarrow> 'w handler" where
  "strategyByID service request i =
     (if hr_Method request \<noteq> ''GET'' then answer (methodNotAllowed ''GET'')
      else let missing = writeError 404 ''strategy_not_found'' ''strategy was not found'' in
        if \<not> validUUID i then answer missing
        else lookup (sv_Get service i) missing (writeError 500 ''strategy_lookup_failed'' ''could not load strategy'')
          (\<lambda>(s, citations). answer (writeJSON 200 (StrategyBody (strategyResponseFrom s citations)))))"

definition strategySubpath :: "rune_tables \<Rightarrow> 'w api_options \<Rightarrow> http_request \<Rightarrow> 'w handler" where
  "strategySubpath tables opts request =
     (case ao_Strategies opts of
        None \<Rightarrow> answer (writeError 503 ''strategy_service_unavailable'' ''strategy service is not configured'')
      | Some service \<Rightarrow>
          (let remainder = trim_prefix (hr_Path request) ''/v1/strategies/'' in
           if remainder = ''draft'' then draftStrategy tables service request
           else strategyByID service request remainder))"

section \<open>marketdata.go\<close>

definition request_answer :: "rune_tables \<Rightarrow> job result \<Rightarrow> http_response" where
  "request_answer tables r =
     (case r of
        Inr j \<Rightarrow> writeJSON 202 (JobBody (job_ID j))
      | Inl e \<Rightarrow>
          if errors_is e ErrInvalidRequest then
            writeError 400 ''invalid_market_data_request'' (error_text (rt_quote tables) e)
          else writeError 500 ''snapshot_request_failed'' ''could not enqueue market data snapshot'')"

definition requestMarketDataSnapshot :: "rune_tables \<Rightarrow> 'w market_data_service \<Rightarrow> http_request \<Rightarrow> 'w handler" where
  "requestMarketDataSnapshot tables service request =
     (case decode_body body_limit market_request_dec zero_market_request request of
        Inl e \<Rightarrow>
          answer (writeError 400 ''invalid_request_body'' ''request body must be JSON with symbols, start_date, and end_date'')
      | Inr body \<Rightarrow>
          (let asked = (if mdr_Interval body = [] then body\<lparr>mdr_Interval := ''1d''\<rparr> else body)
           in calling (md_RequestSnapshot service asked) (\<lambda>r. answer (request_answer tables r))))"

definition listMarketDataSnapshots :: "'w market_data_service \<Rightarrow> 'w handler" where
  "listMarketDataSnapshots service =
     calling (md_List service) (\<lambda>r. case r of
       Inl e \<Rightarrow> answer (writeError 500 ''snapshot_list_failed'' ''could not list market data snapshots'')
     | Inr ss \<Rightarrow> answer (writeJSON 200 (SnapshotsBody (map snapshotResponseFrom ss))))"

definition marketDataSnapshots :: "rune_tables \<Rightarrow> 'w api_options \<Rightarrow> http_request \<Rightarrow> 'w handler" where
  "marketDataSnapshots tables opts request =
     (case ao_MarketData opts of
        None \<Rightarrow> answer (writeError 503 ''market_data_service_unavailable'' ''market data service is not configured'')
      | Some service \<Rightarrow>
          if hr_Method request = ''POST'' then requestMarketDataSnapshot tables service request
          else if hr_Method request = ''GET'' then listMarketDataSnapshots service
          else answer (methodNotAllowed ''GET, POST''))"

definition marketDataSnapshotByID :: "'w api_options \<Rightarrow> http_request \<Rightarrow> 'w handler" where
  "marketDataSnapshotByID opts request =
     (if hr_Method request \<noteq> ''GET'' then answer (methodNotAllowed ''GET'')
      else case ao_MarketData opts of
        None \<Rightarrow> answer (writeError 503 ''market_data_service_unavailable'' ''market data service is not configured'')
      | Some service \<Rightarrow>
          (let i = trim_prefix (hr_Path request) ''/v1/market-data/snapshots/'';
               missing = writeError 404 ''snapshot_not_found'' ''market data snapshot was not found'' in
           if \<not> validUUID i then answer missing
           else lookup (md_Get service i) missing
             (writeError 500 ''snapshot_lookup_failed'' ''could not load market data snapshot'')
             (\<lambda>s. answer (writeJSON 200 (SnapshotBody (snapshotResponseFrom s))))))"

section \<open>backtest.go\<close>

record backtest_body =
  bb_StrategyID :: string
  bb_SnapshotID :: string
  bb_DocumentCutoffAt :: string
  bb_Parameters :: raw_message

definition backtest_body_dec :: "(string \<times> backtest_body field) list" where
  "backtest_body_dec =
     [(''strategy_id'', dec_string (\<lambda>s b. b\<lparr>bb_StrategyID := s\<rparr>)),
      (''market_data_snapshot_id'', dec_string (\<lambda>s b. b\<lparr>bb_SnapshotID := s\<rparr>)),
      (''document_cutoff_at'', dec_string (\<lambda>s b. b\<lparr>bb_DocumentCutoffAt := s\<rparr>)),
      (''parameters'', dec_raw (\<lambda>r b. b\<lparr>bb_Parameters := r\<rparr>))]"

definition zero_backtest_body :: backtest_body where
  "zero_backtest_body = \<lparr>bb_StrategyID = [], bb_SnapshotID = [], bb_DocumentCutoffAt = [], bb_Parameters = NoBytes\<rparr>"

text \<open>Once the strategy and the snapshot are there: the universe is compared with the snapshot's symbols.\<close>

definition create_backtest ::
    "'w backtest_store \<Rightarrow> backtest_body \<Rightarrow> time \<Rightarrow> strategy \<Rightarrow> market_data_snapshot \<Rightarrow> 'w handler" where
  "create_backtest store body cutoff s snapshot =
     (if snap_StorageKey snapshot = None \<or> snap_Checksum snapshot = None then
        answer (writeError 409 ''snapshot_not_ready'' ''market-data snapshot is not ready yet'')
      else case universe_symbols (st_Spec s) of
        Inl e \<Rightarrow> answer (writeError 500 ''strategy_spec_unreadable'' ''could not read the strategy spec'')
      | Inr universe \<Rightarrow>
          (let missing = missing_symbols universe (snap_Symbols snapshot) in
           if missing \<noteq> [] then
             answer (writeError 409 ''snapshot_universe_mismatch''
               (''market-data snapshot does not cover the strategy universe; missing: '' @ join_comma missing))
           else calling (bk_Create store
             \<lparr>cbi_StrategyID = bb_StrategyID body, cbi_SnapshotID = bb_SnapshotID body, cbi_DocumentCutoffAt = cutoff,
              cbi_Parameters = bb_Parameters body\<rparr>) (\<lambda>r. case r of
               Inl e \<Rightarrow> answer (writeError 500 ''backtest_create_failed'' ''could not create backtest'')
             | Inr (run, j) \<Rightarrow> answer (writeJSON 202 (BacktestBody (backtestResponseFrom run (Some j)))))))"

definition ask_backtest ::
    "'w strategy_service \<Rightarrow> 'w market_data_service \<Rightarrow> 'w backtest_store \<Rightarrow> backtest_body \<Rightarrow> 'w handler" where
  "ask_backtest strategies market store body =
     (if \<not> validUUID (bb_StrategyID body) then
        answer (writeError 400 ''invalid_strategy_id'' ''strategy_id must be a UUID'')
      else if \<not> validUUID (bb_SnapshotID body) then
        answer (writeError 400 ''invalid_snapshot_id'' ''market_data_snapshot_id must be a UUID'')
      else case parse_rfc3339 (trim_space (bb_DocumentCutoffAt body)) of
        None \<Rightarrow> answer (writeError 400 ''invalid_cutoff'' ''document_cutoff_at must use RFC3339 format'')
      | Some cutoff \<Rightarrow>
          lookup (sv_Get strategies (bb_StrategyID body))
            (writeError 404 ''strategy_not_found'' ''strategy was not found'')
            (writeError 500 ''strategy_lookup_failed'' ''could not load strategy'') (\<lambda>(s, _).
          lookup (md_Get market (bb_SnapshotID body))
            (writeError 404 ''snapshot_not_found'' ''market-data snapshot was not found'')
            (writeError 500 ''snapshot_lookup_failed'' ''could not load snapshot'')
            (create_backtest store body cutoff s)))"

definition backtests :: "'w api_options \<Rightarrow> http_request \<Rightarrow> 'w handler" where
  "backtests opts request =
     (if hr_Method request \<noteq> ''POST'' then answer (methodNotAllowed ''POST'')
      else case (ao_Backtests opts, ao_Strategies opts, ao_MarketData opts) of
        (Some store, Some strategies, Some market) \<Rightarrow>
          (case decode_body maxBacktestBodyBytes backtest_body_dec zero_backtest_body request of
             Inl e \<Rightarrow> answer (writeError 400 ''invalid_request'' ''request body must be a valid backtest request'')
           | Inr body \<Rightarrow> ask_backtest strategies market store body)
      | _ \<Rightarrow> answer (writeError 503 ''backtest_service_unavailable'' ''backtest service is not configured''))"

definition backtestByID :: "'w api_options \<Rightarrow> http_request \<Rightarrow> 'w handler" where
  "backtestByID opts request =
     (if hr_Method request \<noteq> ''GET'' then answer (methodNotAllowed ''GET'')
      else case ao_Backtests opts of
        None \<Rightarrow> answer (writeError 503 ''backtest_service_unavailable'' ''backtest service is not configured'')
      | Some store \<Rightarrow>
          (let i = trim_prefix (hr_Path request) ''/v1/backtests/'';
               missing = writeError 404 ''backtest_not_found'' ''backtest was not found'' in
           if \<not> validUUID i then answer missing
           else lookup (bk_Get store i) missing (writeError 500 ''backtest_lookup_failed'' ''could not load backtest'')
             (\<lambda>r. answer (writeJSON 200 (BacktestBody (backtestResponseFrom r None))))))"

section \<open>candidates.go\<close>

text \<open>The filter, or the refusal.\<close>

definition candidate_query :: "http_request \<Rightarrow> http_response + candidate_filter" where
  "candidate_query request =
     (let strategy = trim_space (query_get request ''strategy_id'');
          backtest = trim_space (query_get request ''backtest_id'');
          raw = trim_space (query_get request ''limit'');
          filter0 = \<lparr>cf_StrategyID = strategy, cf_BacktestID = backtest, cf_Limit = 0\<rparr> in
      if strategy \<noteq> [] \<and> \<not> validUUID strategy then
        Inl (writeError 400 ''invalid_strategy_id'' ''strategy_id must be a UUID'')
      else if backtest \<noteq> [] \<and> \<not> validUUID backtest then
        Inl (writeError 400 ''invalid_backtest_id'' ''backtest_id must be a UUID'')
      else if raw = [] then Inr filter0
      else case atoi raw of
        None \<Rightarrow> Inl (writeError 400 ''invalid_limit'' ''limit must be a positive integer'')
      | Some limit \<Rightarrow>
          if limit < 1 then Inl (writeError 400 ''invalid_limit'' ''limit must be a positive integer'')
          else Inr (filter0\<lparr>cf_Limit := limit\<rparr>))"

definition candidates_handler :: "'w api_options \<Rightarrow> http_request \<Rightarrow> 'w handler" where
  "candidates_handler opts request =
     (if hr_Method request \<noteq> ''GET'' then answer (methodNotAllowed ''GET'')
      else case ao_Candidates opts of
        None \<Rightarrow> answer (writeError 503 ''candidate_service_unavailable'' ''candidate service is not configured'')
      | Some list_candidates \<Rightarrow>
          (case candidate_query request of
             Inl refusal \<Rightarrow> answer refusal
           | Inr wanted \<Rightarrow>
               calling (list_candidates wanted) (\<lambda>r. case r of
                 Inl e \<Rightarrow> answer (writeError 500 ''candidate_list_failed'' ''could not list candidates'')
               | Inr cs \<Rightarrow> answer (writeJSON 200 (CandidatesBody (map candidateResponseFrom cs))))))"

section \<open>Routing\<close>

text \<open>
  \<open>http.ServeMux\<close>: a path that is not clean is redirected; a pattern that ends in a slash matches what it
  prefixes, and a path that only lacks that slash is redirected to it. A redirect keeps the query. The short
  HTML and text bodies that the mux writes itself, with a redirect and with its 404, are \<open>NoBody\<close>.
\<close>

definition routes :: "rune_tables \<Rightarrow> 'w api_options \<Rightarrow> (string \<times> (http_request \<Rightarrow> 'w handler)) list" where
  "routes tables opts =
     [(''/healthz'', healthz opts),
      (''/v1/documents'', documents_handler opts),
      (''/v1/documents/'', documentByID opts),
      (''/v1/claims/'', claimByID opts),
      (''/v1/strategies'', strategies_handler tables opts),
      (''/v1/strategies/'', strategySubpath tables opts),
      (''/v1/market-data/snapshots'', marketDataSnapshots tables opts),
      (''/v1/market-data/snapshots/'', marketDataSnapshotByID opts),
      (''/v1/backtests'', backtests opts),
      (''/v1/backtests/'', backtestByID opts),
      (''/v1/candidates'', candidates_handler opts)]"

definition clean_url :: "string \<Rightarrow> string" where
  "clean_url p =
     (if p = [] then ''/''
      else let rooted = (if hd p = slash then p else slash # p); c = path_clean rooted
           in if last rooted = slash \<and> c \<noteq> ''/'' then c @ ''/'' else c)"

definition matches :: "string \<Rightarrow> string \<Rightarrow> bool" where
  "matches pattern p \<longleftrightarrow> p = pattern \<or> last pattern = slash \<and> has_prefix p pattern"

definition redirect :: "http_request \<Rightarrow> string \<Rightarrow> http_response" where
  "redirect request p = (writeJSON 307 NoBody)\<lparr>rs_Location :=
     Some (if hr_RawQuery request = [] then p else p @ CHR ''?'' # hr_RawQuery request)\<rparr>"

definition serve_mux :: "(string \<times> (http_request \<Rightarrow> 'w handler)) list \<Rightarrow> http_request \<Rightarrow> 'w handler" where
  "serve_mux table request =
     (let p = (if hr_Method request = ''CONNECT'' then hr_Path request else clean_url (hr_Path request)) in
      case find (\<lambda>(pattern, _). matches pattern p) table of
        None \<Rightarrow>
          if map_of table (p @ ''/'') \<noteq> None then answer (redirect request (p @ ''/''))
          else if p \<noteq> hr_Path request then answer (redirect request p)
          else answer (writeJSON 404 NoBody)
      | Some (_, handle) \<Rightarrow> if p \<noteq> hr_Path request then answer (redirect request p) else handle request)"

definition withRequestID :: "(http_request \<Rightarrow> 'w handler) \<Rightarrow> http_request \<Rightarrow> 'w handler" where
  "withRequestID next_handler request w =
     (let request_id = (if hr_RequestID request = [] then ''skeleton-request-id'' else hr_RequestID request)
      in case next_handler request w of (r, w1) \<Rightarrow> (r\<lparr>rs_RequestID := request_id\<rparr>, w1))"

definition NewHandler :: "rune_tables \<Rightarrow> 'w api_options \<Rightarrow> http_request \<Rightarrow> 'w handler" where
  "NewHandler tables opts = withRequestID (serve_mux (routes tables opts))"

section \<open>The options of cmd/api\<close>

definition served_options :: "rune_tables \<Rightarrow> string \<Rightarrow> string \<Rightarrow> int \<Rightarrow> 'x site_scheme api_options" where
  "served_options tables version storage_path max_upload =
     (let files = \<lparr>fs_Root = storage_path, fs_MaxBytes = max_upload\<rparr> in
      \<lparr>ao_Version = version,
       ao_Documents = Some \<lparr>up_Upload = Upload files, up_Get = DocumentService_Get\<rparr>,
       ao_Claims = Some \<lparr>cl_ListClaimsByDocument = ListClaimsByDocument, cl_SetClaimValidationStatus = SetClaimValidationStatus\<rparr>,
       ao_Strategies = Some \<lparr>sv_Draft = StrategyService_Draft (rt_lower tables), sv_Create = StrategyService_Create,
         sv_List = StrategyService_List, sv_Get = StrategyService_Get\<rparr>,
       ao_MarketData = Some \<lparr>md_RequestSnapshot = RequestSnapshot, md_List = MarketDataService_List, md_Get = MarketDataService_Get\<rparr>,
       ao_Backtests = Some \<lparr>bk_Create = CreateBacktestWithRunJob, bk_Get = GetBacktestRun\<rparr>,
       ao_Candidates = Some ListCandidates, ao_MaxUploadBytes = max_upload\<rparr>)"

end
