(* ===== verification/TableFrames.thy ===== *)
theory TableFrames
  imports StoreRuns
begin

text \<open>
  Which operations of the store leave a view of the tables alone: the candidates and the queue, which
  change only through the operations meant for them.
\<close>

definition same_view :: "(db \<Rightarrow> 'v) \<Rightarrow> db \<Rightarrow> db \<Rightarrow> bool" where
  "same_view g d d' \<longleftrightarrow> g d' = g d"

lemma same_view_preorder: "db_preorder (same_view g)"
  by unfold_locales (simp_all add: same_view_def)

interpretation view: db_preorder "same_view g" for g
  by (rule same_view_preorder)

interpretation view_world: state_preorder "on_db (same_view g)" for g
  by (rule state_preorder_on_db) (rule view.state_preorder_axioms)

lemmas view_rules = view_world.keeps_intros view.keeps_pg_exec view.keeps_transaction view.keeps_pg_query
  view.keeps_go_now

text \<open>The interface: a view of neither the documents and their claims, nor the runs, nor the snapshots.\<close>

locale table_view =
  fixes g :: "db \<Rightarrow> 'v"
  assumes past_documents [simp]: "g (d\<lparr>db_documents := x1\<rparr>) = g d"
    and past_extractions [simp]: "g (d\<lparr>db_pages := x2\<rparr>) = g d" "g (d\<lparr>db_claims := x3\<rparr>) = g d"
    and past_runs [simp]: "g (d\<lparr>db_runs := x4\<rparr>) = g d"
    and past_snapshots [simp]: "g (d\<lparr>db_snapshots := x5\<rparr>) = g d"
    and past_uuids [simp]: "g (d\<lparr>db_next := n\<rparr>) = g d"
begin

lemma writes: "(\<And>d. g (f d) = g d) \<Longrightarrow> keeps (same_view g) (write_db f)"
  by (simp add: keeps_def same_view_def write_db_def)

lemma draws: "keeps (same_view g) gen_random_uuid"
  by (simp add: keeps_def same_view_def gen_random_uuid_def)

lemma one: "keeps (same_view g) (one_row x)"
  by (auto simp: one_row_def intro: view.keeps_intros split: option.split)

lemmas atoms = view.keeps_and_then view.keeps_convert view.keeps_constraint view.keeps_read_db view.keeps_ok
  view.keeps_fail writes draws one

lemma document_statements:
  "keeps (same_view g) (document_status_stmt i s)" "keeps (same_view g) (insert_page_stmt i p)"
  "keeps (same_view g) (insert_claim_stmt i k c)" "keeps (same_view g) (delete_pages_stmt i)"
  unfolding document_status_stmt_def insert_page_stmt_def insert_claim_stmt_def delete_pages_stmt_def
  by (intro atoms; simp)+

lemma run_statements:
  "keeps (same_view g) (run_status_stmt i s)" "keeps (same_view g) (complete_run_stmt i m k c e)"
  "keeps (same_view g) (insert_snapshot_stmt input)"
  unfolding run_status_stmt_def complete_run_stmt_def insert_snapshot_stmt_def Let_def
  by (intro atoms; simp)+

lemma reading_statements:
  "keeps (same_view g) (document_by_id_stmt i)" "keeps (same_view g) (run_by_id_stmt i)"
  "keeps (same_view g) (strategy_by_id_stmt i)" "keeps (same_view g) (snapshot_by_id_stmt i)"
  unfolding document_by_id_stmt_def run_by_id_stmt_def strategy_by_id_stmt_def snapshot_by_id_stmt_def
  by (intro atoms)+

lemmas statements = document_statements run_statements reading_statements

lemma found: "keeps (same_view g) s \<Longrightarrow> keeps (on_db (same_view g)) (found_or m (pg_exec s))"
  unfolding found_or_def by (auto intro!: view_rules split: sum.split)

lemma extraction: "keeps (on_db (same_view g)) (ReplaceExtraction i e)"
proof -
  have "keeps (on_db (same_view g)) (store_pages i ps ids)" for ps ids
    by (induction ps arbitrary: ids) (auto intro!: view_rules statements)
  then show ?thesis
    unfolding ReplaceExtraction_def store_claim_def by (auto intro!: view_rules statements split: option.split)
qed

lemma operations:
  "keeps (on_db (same_view g)) (GetDocument i)" "keeps (on_db (same_view g)) (SetDocumentStatus i s)"
  "keeps (on_db (same_view g)) (ReplaceExtraction i e)" "keeps (on_db (same_view g)) (GetBacktestRun i)"
  "keeps (on_db (same_view g)) (GetStrategyWithCitations i)" "keeps (on_db (same_view g)) (GetMarketDataSnapshot i)"
  "keeps (on_db (same_view g)) (SetBacktestStatus i s)" "keeps (on_db (same_view g)) (InsertMarketDataSnapshot input)"
  "keeps (on_db (same_view g)) (complete_run i result key)"
  unfolding GetDocument_def SetDocumentStatus_def GetBacktestRun_def GetStrategyWithCitations_def
    GetMarketDataSnapshot_def SetBacktestStatus_def InsertMarketDataSnapshot_def complete_run_def
  by (auto intro!: view_rules found statements extraction split: sum.split)

end

section \<open>The candidates\<close>

interpretation candidates: table_view db_candidates
  by unfold_locales simp_all

lemma queue_candidates:
  "keeps (on_db (same_view db_candidates)) (LeaseNextJob worker dur)"
  "keeps (on_db (same_view db_candidates)) (CompleteJob i)"
  "keeps (on_db (same_view db_candidates)) (FailJob j cause)"
proof -
  have "keeps (same_view db_candidates) (lease_stmt w u)" "keeps (same_view db_candidates) (update_leased_stmt i f)"
    for w u i f
    by (simp_all add: keeps_def same_view_def lease_stmt_def update_leased_stmt_def act_simps split: sum.split option.split)
  then show "keeps (on_db (same_view db_candidates)) (LeaseNextJob worker dur)"
    "keeps (on_db (same_view db_candidates)) (CompleteJob i)"
    "keeps (on_db (same_view db_candidates)) (FailJob j cause)"
    unfolding LeaseNextJob_def CompleteJob_def FailJob_def Let_def
    by (auto intro!: view_rules view.keeps_and_then view.keeps_convert split: option.split)
qed

section \<open>The queue\<close>

definition queue_of_db :: "db \<Rightarrow> job_row list \<times> time" where
  "queue_of_db d = (db_jobs d, db_now d)"

interpretation queue_view: table_view queue_of_db
  by unfold_locales (simp_all add: queue_of_db_def)

lemma CompleteBacktest_queue: "keeps (on_db (same_view queue_of_db)) (CompleteBacktest i result key)"
proof -
  have "keeps (same_view queue_of_db) (insert_candidate_stmt r s t p)"
    "keeps (same_view queue_of_db) (insert_evidence_stmt k ev)" "keeps (same_view queue_of_db) (delete_candidates_stmt r)"
    for r s t p k ev
    by (simp_all add: keeps_def same_view_def queue_of_db_def insert_candidate_stmt_def insert_evidence_stmt_def
        delete_candidates_stmt_def act_simps split: sum.split)
  then have "keeps (on_db (same_view queue_of_db)) (insertCandidates r s cs)" for r s cs
    unfolding insertCandidates_def insert_position_def by (auto intro!: view_rules)
  then show ?thesis
    unfolding CompleteBacktest_def by (auto intro!: view_rules queue_view.operations split: option.split)
qed

end
