(* ===== verification/Uuids.thy ===== *)
theory Uuids
  imports Sql
begin

text \<open>
  The canonical text of a \<open>uuid\<close>: what PostgreSQL stores reads as itself, so an id that came out of the
  database goes back in unchanged.
\<close>

definition lower_hex :: "char \<Rightarrow> bool" where
  "lower_hex c \<longleftrightarrow> byte_in 48 57 c \<or> byte_in 97 102 c"

lemma lower_hex_digit: "hex_digit c \<Longrightarrow> lower_hex (ascii_lower c)"
proof -
  assume "hex_digit c"
  then consider "byte_in 48 57 c" | "byte_in 97 102 c" | "byte_in 65 70 c" by (auto simp: hex_digit_def)
  then show ?thesis
  proof cases
    case 3
    then have k: "65 \<le> code c" "code c \<le> 70" by (simp_all add: byte_in_def)
    then have "code (char_of (code c + 32)) = code c + 32" by simp
    then show ?thesis using k by (simp add: ascii_lower_def lower_hex_def byte_in_def)
  qed (auto simp: ascii_lower_def lower_hex_def byte_in_def)
qed

lemma lower_hex_same: "lower_hex c \<Longrightarrow> hex_digit c \<and> ascii_lower c = c"
  by (auto simp: lower_hex_def hex_digit_def ascii_lower_def byte_in_def)

lemma uuid_digits_lower: "uuid_digits n s = Some (ds, r) \<Longrightarrow> length ds = 2 * n \<and> list_all lower_hex ds"
proof (induction n s arbitrary: ds r rule: uuid_digits.induct)
  case (2 left a b s)
  then show ?case
    by (auto simp: Let_def lower_hex_digit split: if_splits option.splits list.splits)
qed (simp_all split: list.splits)

text \<open>Eight, four, four, four and twelve digits with hyphens between them.\<close>

definition dashed :: "string \<Rightarrow> string" where
  "dashed ds = take 8 ds @ CHR ''-'' # take 4 (drop 8 ds) @ CHR ''-'' # take 4 (drop 12 ds) @ CHR ''-''
     # take 4 (drop 16 ds) @ CHR ''-'' # drop 20 ds"

lemma uuid_text_dashed: "uuid_text ds = dashed ds"
  by (simp add: uuid_text_def dashed_def)

lemma hex_no_mark: "hex_digit c \<Longrightarrow> c \<noteq> CHR ''-'' \<and> c \<noteq> CHR ''{''"
  by (auto simp: hex_digit_def byte_in_def)

lemma uuid_pair:
  "hex_digit a \<Longrightarrow> hex_digit b \<Longrightarrow> (case s of c # r \<Rightarrow> c \<noteq> CHR ''-'' | [] \<Rightarrow> True) \<Longrightarrow>
     uuid_digits (Suc left) (a # b # s)
       = map_option (\<lambda>(ds, r). (ascii_lower a # ascii_lower b # ds, r)) (uuid_digits left s)"
  by (auto split: option.splits list.splits)

lemma uuid_dash:
  "hex_digit a \<Longrightarrow> hex_digit b \<Longrightarrow> even left \<Longrightarrow> 0 < left \<Longrightarrow>
     uuid_digits (Suc left) (a # b # CHR ''-'' # s)
       = map_option (\<lambda>(ds, r). (ascii_lower a # ascii_lower b # ds, r)) (uuid_digits left s)"
  by (auto split: option.splits list.splits)

lemma sixteen: "(16::nat) = Suc (Suc (Suc (Suc (Suc (Suc (Suc (Suc (Suc (Suc (Suc (Suc (Suc (Suc (Suc (Suc 0)))))))))))))))"
  by simp

lemma dashed_digits:
  assumes "length ds = 32" and "list_all hex_digit ds"
  shows "uuid_digits 16 (dashed ds) = Some (map ascii_lower ds, [])"
proof -
  obtain a0 a1 a2 a3 a4 a5 a6 a7 b0 b1 b2 b3 c0 c1 c2 c3 d0 d1 d2 d3 e0 e1 e2 e3 e4 e5 e6 e7 e8 e9 ea eb where
    ds: "ds = [a0, a1, a2, a3, a4, a5, a6, a7, b0, b1, b2, b3, c0, c1, c2, c3, d0, d1, d2, d3, e0, e1, e2, e3, e4, e5,
      e6, e7, e8, e9, ea, eb]"
    using assms(1) by (auto simp: numeral_eq_Suc length_Suc_conv)
  have spelt: "dashed ds = [a0, a1, a2, a3, a4, a5, a6, a7, CHR ''-'', b0, b1, b2, b3, CHR ''-'', c0, c1, c2, c3, CHR ''-'',
      d0, d1, d2, d3, CHR ''-'', e0, e1, e2, e3, e4, e5, e6, e7, e8, e9, ea, eb]"
    by (simp add: ds dashed_def)
  show ?thesis
    unfolding spelt sixteen
    using assms(2) [unfolded ds] hex_no_mark
    by (simp add: uuid_pair uuid_dash del: uuid_digits.simps(2)) (simp add: ds)
qed

lemma uuid_in_dashed:
  assumes "length ds = 32" and "list_all hex_digit ds"
  shows "uuid_in (dashed ds) = Inr (dashed (map ascii_lower ds))"
proof -
  obtain c r where "dashed ds = c # r" "c \<noteq> CHR ''{''"
    using assms hex_no_mark by (cases ds) (auto simp: dashed_def)
  then show ?thesis
    using dashed_digits [OF assms] by (simp add: uuid_in_def uuid_text_dashed)
qed

lemma uuid_in_canonical: "uuid_in s = Inr u \<Longrightarrow> uuid_in u = Inr u"
proof -
  assume "uuid_in s = Inr u"
  then obtain body ds r where "uuid_digits 16 body = Some (ds, r)" "u = uuid_text ds"
    by (auto simp: uuid_in_def Let_def split: prod.splits option.splits if_splits list.splits)
  moreover from this have "length ds = 32" "list_all hex_digit ds" "map ascii_lower ds = ds"
    using uuid_digits_lower [of 16 body ds r] lower_hex_same by (auto simp: list_all_iff map_idI)
  ultimately show ?thesis using uuid_in_dashed [of ds] by (simp add: uuid_text_dashed)
qed

end
