(* ===== verification/WorkerSafety.thy ===== *)
theory WorkerSafety
  imports Worker TableFrames Uuids
begin

text \<open>
  What a worker does to the tables: every iteration is a step of the store, and no ranking it stores leaves
  the universe its strategy authorizes.
\<close>

lemma list_all2_row: "list_all2 P xs ys \<Longrightarrow> y \<in> set ys \<Longrightarrow> \<exists>x \<in> set xs. P x y"
  by (induction rule: list_all2_induct) auto

section \<open>The interface of the worker\<close>

text \<open>
  A preorder on worlds that the handling of documents, the fetching of market data and the running of
  backtests stay within. Then the processing of every job does.
\<close>

locale worker_jobs = state_preorder R
  for R :: "'x world_scheme \<Rightarrow> 'x world_scheme \<Rightarrow> bool" and tables :: rune_tables and opts :: "'x world_scheme options" +
  assumes documents: "keeps R (GetDocument i)" "keeps R (SetDocumentStatus i s)" "keeps R (ReplaceExtraction i e)"
    and extractor: "op_Extractor opts = Some extract \<Longrightarrow> keeps R (extract x)"
    and fetcher: "op_MarketData opts = Some fetch \<Longrightarrow> keeps R (fetch request)"
    and backtesting: "keeps R (processBacktest tables opts j)"
begin

lemma keeps_processMarketData: "keeps R (processMarketData opts j)"
  unfolding processMarketData_def
  by (auto intro!: keeps_fail keeps_ok keeps_and_then fetcher split: option.split sum.split)

lemma keeps_extract_and_store: "keeps R (extract_and_store opts x)"
  unfolding extract_and_store_def
  by (auto intro!: keeps_and_then documents extractor keeps_fail split: option.split)

lemma processExtraction_step: "R w (snd (processExtraction opts j w))"
proof (cases "id_payload ''document_id'' (job_Payload j)")
  case (Inr i)
  obtain g w1 where g: "GetDocument i w = (g, w1)" by fastforce
  have w1: "R w w1" by (rule keepsD [OF documents(1) g])
  show ?thesis
  proof (cases g)
    case (Inl e)
    then show ?thesis using g w1 Inr R_refl by (simp add: processExtraction_def)
  next
    case (Inr x)
    obtain r w2 where r: "extract_and_store opts x w1 = (r, w2)" by fastforce
    have "R w w2" by (rule R_trans [OF w1 keepsD [OF keeps_extract_and_store r]])
    then show ?thesis
      using g r Inr \<open>id_payload ''document_id'' (job_Payload j) = Inr i\<close> R_refl
      by (cases r) (simp_all add: processExtraction_def)
  qed
qed (simp add: processExtraction_def R_refl)

lemma process_step: "R w (snd (process tables opts j w))"
  using processExtraction_step [of w j] keeps_processMarketData [of j] backtesting [of j] R_refl [of w]
  by (auto simp: process_def keeps_def split: prod.split) (metis snd_conv)+

end

text \<open>Running a backtest stays within a preorder that its operations and services stay within.\<close>

locale worker_frame = state_preorder R
  for R :: "'x world_scheme \<Rightarrow> 'x world_scheme \<Rightarrow> bool" and opts :: "'x world_scheme options" +
  assumes document_calls: "keeps R (GetDocument i)" "keeps R (SetDocumentStatus i s)" "keeps R (ReplaceExtraction i e)"
    and backtests: "keeps R (GetBacktestRun i)" "keeps R (GetStrategyWithCitations i)" "keeps R (GetMarketDataSnapshot i)"
      "s \<noteq> ''completed'' \<Longrightarrow> keeps R (SetBacktestStatus i s)" "keeps R (CompleteBacktest i result key)"
    and extraction: "op_Extractor opts = Some extract \<Longrightarrow> keeps R (extract x)"
    and fetching: "op_MarketData opts = Some fetch \<Longrightarrow> keeps R (fetch request)"
    and engine: "op_Backtest opts = Some run \<Longrightarrow> keeps R (run question)"
    and artifacts: "op_Artifacts opts = Some save \<Longrightarrow> keeps R (save content)"
begin

lemma keeps_failIfTerminal: "keeps R (failIfTerminal j i cause)"
  unfolding failIfTerminal_def
  by (auto intro!: keeps_fail keeps_attempt backtests split: sum.split)

lemma keeps_or_terminal: "keeps R f \<Longrightarrow> (\<And>x. keeps R (k x)) \<Longrightarrow> keeps R (or_terminal j i f k)"
  unfolding or_terminal_def by (auto intro!: keeps_attempt keeps_failIfTerminal split: sum.split)

lemma keeps_convert: "keeps R (convert r)"
  by (simp add: keeps_def convert_def R_refl)

lemma keeps_storeResult:
  "(\<And>content. keeps R (save content)) \<Longrightarrow> keeps R (storeResult j i save run universe result)"
  unfolding storeResult_def Let_def
  by (auto intro!: keeps_failIfTerminal keeps_or_terminal backtests keeps_ok)

lemma keeps_runBacktest:
  "(\<And>question. keeps R (ask question)) \<Longrightarrow> (\<And>content. keeps R (save content)) \<Longrightarrow>
     keeps R (runBacktest tables j i ask save run)"
  unfolding runBacktest_def
  by (auto intro!: keeps_failIfTerminal keeps_or_terminal keeps_storeResult keeps_convert backtests split: option.split)

lemma keeps_processBacktest: "keeps R (processBacktest tables opts j)"
  unfolding processBacktest_def
  by (auto intro!: keeps_fail keeps_ok keeps_or_terminal keeps_runBacktest backtests engine artifacts
      split: option.split sum.split)

end

sublocale worker_frame \<subseteq> worker_jobs R tables opts for tables
  by unfold_locales (fact document_calls extraction fetching keeps_processBacktest)+

text \<open>With the operations of the queue, a whole iteration.\<close>

locale worker_loop_frame = worker_jobs R tables opts
  for R :: "'x world_scheme \<Rightarrow> 'x world_scheme \<Rightarrow> bool" and tables :: rune_tables and opts :: "'x world_scheme options" +
  assumes queue: "keeps R (LeaseNextJob worker dur)" "keeps R (CompleteJob i)" "keeps R (FailJob j cause)"
begin

lemma record_failure_step: "R w (snd (record_failure tables j i cause w))"
proof -
  obtain r w1 where f: "FailJob j (error_text (rt_quote tables) cause) w = (r, w1)" by fastforce
  have w1: "R w w1" by (rule keepsD [OF queue(3) f])
  obtain s w2 where s: "SetDocumentStatus i ''failed'' w1 = (s, w2)" by fastforce
  have w2: "R w w2" by (rule R_trans [OF w1 keepsD [OF documents(2) s]])
  show ?thesis using w1 w2 f s by (auto simp: record_failure_def split: sum.split)
qed

lemma runOne_step:
  assumes elsewhere: "\<And>v. R v (meanwhile v)"
  shows "R w (snd (runOne tables opts meanwhile w))"
proof -
  obtain l w1 where l: "LeaseNextJob (op_WorkerID opts) (op_LeaseDuration opts) w = (l, w1)" by fastforce
  have w1: "R w w1" by (rule keepsD [OF queue(1) l])
  show ?thesis
  proof (cases "\<exists>j. l = Inr (Some j)")
    case True
    then obtain j where j: "l = Inr (Some j)" by blast
    obtain i e w2 where p: "process tables opts j w1 = ((i, e), w2)" by (metis prod.collapse)
    have "R w w2" using R_trans [OF w1 process_step [of w1 j]] p by simp
    then have w2: "R w (meanwhile w2)" using elsewhere R_trans by blast
    show ?thesis
    proof (cases e)
      case None
      obtain c w3 where c: "CompleteJob (job_ID j) (meanwhile w2) = (c, w3)" by fastforce
      have "R w w3" by (rule R_trans [OF w2 keepsD [OF queue(2) c]])
      then show ?thesis using l j p c None by (simp add: runOne_def)
    next
      case (Some cause)
      obtain f w3 where f: "record_failure tables j i cause (meanwhile w2) = (f, w3)" by fastforce
      have "R w w3" using R_trans [OF w2 record_failure_step [of "meanwhile w2" j i cause]] f by simp
      then show ?thesis using l j p Some f by (simp add: runOne_def)
    qed
  next
    case False
    then show ?thesis using l w1 by (auto simp: runOne_def split: sum.split option.split)
  qed
qed

lemma run_loop_step:
  "\<forall>s \<in> set steps. \<forall>v. R v (snd s v) \<Longrightarrow> R w (snd (snd (run_loop tables opts steps w)))"
proof (induction steps arbitrary: w)
  case (Cons s steps)
  obtain stop meanwhile where s: "s = (stop, meanwhile)" by fastforce
  have elsewhere: "R v (meanwhile v)" for v using Cons.prems s by simp
  obtain p e w1 where one: "runOne tables opts meanwhile w = ((p, e), w1)" by (metis prod.collapse)
  have w1: "R w w1" using runOne_step [of meanwhile w] elsewhere one by simp
  have rest: "R v (snd (snd (run_loop tables opts steps v)))" for v using Cons.IH Cons.prems by simp
  have "snd (snd (run_loop tables opts (s # steps) w)) \<in>
      {snd (snd (run_loop tables opts steps w1)), meanwhile w1, snd (snd (run_loop tables opts steps (meanwhile w1)))}"
    by (cases p) (simp_all add: s one split: prod.split)
  then show ?case using R_trans [OF w1] R_trans [OF elsewhere] rest elsewhere by auto
qed (simp add: R_refl)

end

section \<open>The services stay away from the tables\<close>

text \<open>Neither the tables, nor the connection, nor the clock.\<close>

definition same_base :: "'x world_scheme \<Rightarrow> 'x world_scheme \<Rightarrow> bool" where
  "same_base w w' \<longleftrightarrow> w_db w' = w_db w \<and> w_faults w' = w_faults w \<and> w_clock w' = w_clock w"

lemma only_asks_base: "only_asks request w w' \<Longrightarrow> same_base w w'"
  by (auto simp: only_asks_def same_base_def)

lemma same_store_base: "same_store w w' \<Longrightarrow> same_base w w'"
  by (simp add: same_store_def same_base_def)

lemma keeps_weaken: "keeps R f \<Longrightarrow> (\<And>w w'. R w w' \<Longrightarrow> S w w') \<Longrightarrow> keeps S f"
  by (simp add: keeps_def)

lemma ExtractClaims_base: "keeps same_base (ExtractClaims client x)"
  unfolding keeps_def using ExtractClaims_asks only_asks_base by (metis prod.collapse)

lemma FetchMarketData_base: "keeps same_base (FetchMarketData client request)"
  unfolding keeps_def using FetchMarketData_asks only_asks_base by (metis prod.collapse)

lemma RunBacktest_base: "keeps same_base (RunBacktest client request)"
  unfolding keeps_def using RunBacktest_asks only_asks_base by (metis prod.collapse)

lemma cleaning_same: "keeps same_store c \<Longrightarrow> keeps same_store f \<Longrightarrow> keeps same_store (cleaning m c f)"
  unfolding cleaning_def ignoring_def by (auto intro!: same_store.keeps_intros split: sum.split)

lemma write_bytes_same: "keeps same_store (write_bytes p data)"
  unfolding keeps_def write_bytes_def using write_file_same by (auto split: prod.split option.split)

lemma pathFor_same: "keeps same_store (SnapshotStore_pathFor rt key)" "keeps same_store (ArtifactStore_pathFor rt key)"
  unfolding SnapshotStore_pathFor_def ArtifactStore_pathFor_def Let_def
  by (auto intro!: same_store.keeps_intros os_keeps)

lemma Save_same: "keeps same_store (SnapshotStore_Save rt csv)" "keeps same_store (ArtifactStore_Save rt csv)"
  unfolding SnapshotStore_Save_def ArtifactStore_Save_def Let_def
  by (auto intro!: same_store.keeps_intros os_keeps cleaning_same write_bytes_same pathFor_same
      ignoring_keeps same_store.state_preorder_axioms)

lemma ArtifactStore_base: "keeps same_base (ArtifactStore_Save rt content)"
  by (rule keeps_weaken [OF Save_same(2) same_store_base])

text \<open>A relation that looks only at the tables, the connection and the clock holds across the services.\<close>

locale base_frame = state_preorder R for R :: "'x site_scheme \<Rightarrow> 'x site_scheme \<Rightarrow> bool" +
  assumes base: "same_base w w' \<Longrightarrow> R w w'"
    and snapshots: "keeps R (InsertMarketDataSnapshot input)"
begin

lemma keeps_FetchSnapshot: "keeps R (FetchSnapshot client rt request)"
proof -
  have "keeps R (FetchMarketData client request)" by (rule keeps_weaken [OF FetchMarketData_base base])
  moreover have "keeps R (SnapshotStore_Save rt csv)" for csv
    by (rule keeps_weaken [OF Save_same(1)]) (rule base [OF same_store_base])
  ultimately show ?thesis
    unfolding FetchSnapshot_def Let_def by (auto intro!: keeps_intros snapshots split: option.split)
qed

lemma services:
  "op_Extractor (worker_options client rt i p l) = Some extract \<Longrightarrow> keeps R (extract x)"
  "op_MarketData (worker_options client rt i p l) = Some fetch \<Longrightarrow> keeps R (fetch request)"
  "op_Backtest (worker_options client rt i p l) = Some run \<Longrightarrow> keeps R (run question)"
  "op_Artifacts (worker_options client rt i p l) = Some save \<Longrightarrow> keeps R (save content)"
  using keeps_weaken [OF ExtractClaims_base base] keeps_weaken [OF RunBacktest_base base]
    keeps_weaken [OF ArtifactStore_base base] keeps_FetchSnapshot
  by (auto simp: worker_options_def)

end

interpretation store_base: base_frame "on_db store_step"
  by (intro base_frame.intro store_world.state_preorder_axioms base_frame_axioms.intro effects)
    (simp add: on_db_def same_base_def store.R_refl)

interpretation worker_store_jobs: worker_frame "on_db store_step" "worker_options client rt i p l" for client rt i p l
  by (intro worker_frame.intro worker_frame_axioms.intro store_world.state_preorder_axioms effects
      store_base.services) assumption+

interpretation worker_store: worker_loop_frame "on_db store_step" tables "worker_options client rt i p l"
  for tables client rt i p l
  by (intro worker_loop_frame.intro worker_loop_frame_axioms.intro worker_store_jobs.worker_jobs_axioms effects)

end
