(* ===== verification/WorkerProgress.thy ===== *)
theory WorkerProgress
  imports WorkerSafety
begin

text \<open>
  The retries of a worker come to an end. Every job has a budget of leases; an iteration that logs no error
  uses some of it up, however long it took and whatever went on elsewhere, so only so many iterations find
  work, and after that the worker finds nothing due.
\<close>

section \<open>The budget of the queue\<close>

text \<open>
  How often a job can still be leased and settled: as often as its attempts allow, and once more if its
  lease ran out with all attempts used.
\<close>

definition remaining :: "job_row \<Rightarrow> nat" where
  "remaining j = (if jr_State j \<in> {''completed'', ''failed''} then 0 else max 1 (nat (job_MaxAttempts j - job_Attempts j)))"

definition budget :: "db \<Rightarrow> nat" where
  "budget d = sum_list (map remaining (db_jobs d))"

text \<open>What the budget is worth when every new job, with its three attempts, is paid for in advance.\<close>

definition slack :: "db \<Rightarrow> int" where
  "slack d = int (budget d) - 3 * int (length (db_jobs d))"

lemma move_remaining: "job_move j k \<Longrightarrow> remaining k \<le> remaining j"
  by (induction rule: job_move.induct) (auto simp: remaining_def leased_row_def completed_row_def failed_row_def)

lemma moves_remaining: "job_moves j k \<Longrightarrow> remaining k \<le> remaining j"
  by (induction rule: rtranclp_induct) (auto dest: move_remaining)

lemma fresh_remaining: "fresh_job j \<Longrightarrow> remaining j \<le> 3"
  by (simp add: fresh_job_def remaining_def)

lemma moved_budget: "list_all2 job_moves js ks \<Longrightarrow> sum_list (map remaining ks) \<le> sum_list (map remaining js)"
  by (induction rule: list_all2_induct) (auto dest: moves_remaining intro: add_mono)

lemma new_budget: "\<forall>j \<in> set js. remaining j \<le> 3 \<Longrightarrow> sum_list (map remaining js) \<le> 3 * length js"
  by (induction js) auto

lemma evolve_slack:
  assumes "jobs_evolve d d'"
  shows "slack d' \<le> slack d \<and> length (db_jobs d) \<le> length (db_jobs d')"
proof -
  obtain moved new where rows: "db_jobs d' = moved @ new" "list_all2 job_moves (db_jobs d) moved"
    "\<forall>j \<in> set new. \<exists>j0. fresh_job j0 \<and> job_moves j0 j"
    using assms unfolding jobs_evolve_def by blast
  have "\<forall>j \<in> set new. remaining j \<le> 3" using rows(3) fresh_remaining moves_remaining by fastforce
  from new_budget [OF this] moved_budget [OF rows(2)] show ?thesis
    using list_all2_lengthD [OF rows(2)] by (simp add: slack_def budget_def rows(1))
qed

lemma step_slack:
  "store_step d d' \<Longrightarrow> schema_ok d \<Longrightarrow> schema_ok d' \<and> slack d' \<le> slack d \<and> length (db_jobs d) \<le> length (db_jobs d')"
  using evolve_slack by (simp add: store_step_def grows_def)

text \<open>One row is rewritten.\<close>

lemma rewritten_sum:
  "distinct js \<Longrightarrow> r \<in> set js \<Longrightarrow>
     sum_list (map remaining (map (\<lambda>q. if q = r then f q else q) js)) + remaining r = sum_list (map remaining js) + remaining (f r)"
proof (induction js)
  case (Cons j js)
  then show ?case
  proof (cases "j = r")
    case True
    then have "map (\<lambda>q. if q = r then f q else q) js = js" using Cons.prems(1) by (intro map_idI) auto
    then show ?thesis using True by simp
  qed auto
qed simp

lemma rewritten_slack:
  assumes "jobs_ok d" and "r \<in> set (db_jobs d)" and "db_jobs d' = map (\<lambda>q. if q = r then f q else q) (db_jobs d)"
  shows "slack d' + int (remaining r) = slack d + int (remaining (f r))"
proof -
  have "distinct (db_jobs d)" using assms(1) by (simp add: jobs_ok_def distinct_map)
  from rewritten_sum [OF this assms(2), of f] show ?thesis by (simp add: slack_def budget_def assms(3))
qed

section \<open>Processing leaves the queue alone\<close>

definition same_queue :: "'x world_scheme \<Rightarrow> 'x world_scheme \<Rightarrow> bool" where
  "same_queue w w' \<longleftrightarrow> w_clock w' = w_clock w \<and> on_db (same_view queue_of_db) w w'"

interpretation same_queue: state_preorder same_queue
  by unfold_locales (auto simp: same_queue_def on_db_def same_view_def)

lemma keeps_same_queue: "keeps same_rest f \<Longrightarrow> keeps (on_db (same_view queue_of_db)) f \<Longrightarrow> keeps same_queue f"
  by (simp add: keeps_def same_queue_def same_rest_def)

lemma same_queue_operations:
  "keeps same_queue (GetDocument i)" "keeps same_queue (SetDocumentStatus i s)" "keeps same_queue (ReplaceExtraction i e)"
  "keeps same_queue (GetBacktestRun i)" "keeps same_queue (GetStrategyWithCitations i)"
  "keeps same_queue (GetMarketDataSnapshot i)" "keeps same_queue (SetBacktestStatus i s)"
  "keeps same_queue (InsertMarketDataSnapshot input)" "keeps same_queue (CompleteBacktest i result key)"
  by (rule keeps_same_queue, rule same_rest.frame_operations, rule queue_view.operations CompleteBacktest_queue)+

interpretation same_queue_base: base_frame same_queue
  by (intro base_frame.intro same_queue.state_preorder_axioms base_frame_axioms.intro same_queue_operations)
    (simp add: same_queue_def same_base_def on_db_def same_view_def)

interpretation same_queue_worker: worker_frame same_queue "worker_options client rt i p l" for client rt i p l
  by (intro worker_frame.intro worker_frame_axioms.intro same_queue.state_preorder_axioms same_queue_operations
      same_queue_base.services) assumption+

lemma same_queue_jobs:
  "same_queue w w' \<Longrightarrow> w_clock w' = w_clock w \<and> db_now (w_db w') = db_now (w_db w) \<and> db_jobs (w_db w') = db_jobs (w_db w)"
  by (simp add: same_queue_def on_db_def same_view_def queue_of_db_def)

section \<open>An iteration that logs no error\<close>

text \<open>How such an iteration settles the row of the job: done, given up, or put off for a second at least.\<close>

definition settles :: "job_row \<Rightarrow> time \<Rightarrow> (job_row \<Rightarrow> job_row) \<Rightarrow> bool" where
  "settles j clock f \<longleftrightarrow>
     (\<exists>now. f = completed_row now)
     \<or> (\<exists>later m now. f = failed_row ''failed'' later m now)
     \<or> (job_Attempts j + 1 < job_MaxAttempts j
         \<and> (\<exists>later m now. f = failed_row ''retryable'' later m now \<and> ts_in (clock + nanos_per_second) \<le> later))"

lemma settlesI:
  "settles j clock (completed_row now)" "settles j clock (failed_row ''failed'' later m now)"
  "job_Attempts j + 1 < job_MaxAttempts j \<Longrightarrow> ts_in (clock + nanos_per_second) \<le> later \<Longrightarrow>
     settles j clock (failed_row ''retryable'' later m now)"
  unfolding settles_def by blast+

lemma ts_in_mono: "a \<le> b \<Longrightarrow> ts_in a \<le> ts_in b"
  unfolding ts_in_def by (simp add: minus_mod_eq_div_mult zdiv_mono1)

lemma leased_attributes:
  "job_ID (job.truncate (leased_row worker until now j)) = job_ID j"
  "job_Attempts (job.truncate (leased_row worker until now j)) = job_Attempts j + 1"
  "job_MaxAttempts (job.truncate (leased_row worker until now j)) = job_MaxAttempts j"
  by (simp_all add: job.truncate_def leased_row_def)

lemma FailJob_settles:
  assumes "FailJob (job.truncate (leased_row worker until now j)) cause w = (Inr terminal, w')" and "jobs_ok (w_db w)"
  shows "\<exists>r \<in> set (db_jobs (w_db w)). \<exists>f. uuid_in (job_ID j) = Inr (job_ID r) \<and> jr_State r = ''leased'' \<and> settles j (w_clock w) f
    \<and> db_jobs (w_db w') = map (\<lambda>q. if q = r then f q else q) (db_jobs (w_db w))"
proof -
  let ?used = "job_MaxAttempts j \<le> job_Attempts j + 1"
  let ?f = "failed_row (if ?used then ''failed'' else ''retryable'')
      (ts_in (if ?used then w_clock w else w_clock w + retryDelay (job_Attempts j + 1))) (take 2000 cause) (db_now (w_db w))"
  have "nanos_per_second \<le> retryDelay (job_Attempts j + 1)" using retry_delay_backoff [of "job_Attempts j + 1"] by simp
  then have "ts_in (w_clock w + nanos_per_second) \<le> ts_in (w_clock w + retryDelay (job_Attempts j + 1))"
    by (intro ts_in_mono) simp
  then have "settles j (w_clock w) ?f" by (cases ?used) (simp_all add: settlesI)
  with checked_one_row [OF assms(2) FailJob_stmt [OF assms(1)]] show ?thesis unfolding leased_attributes by blast
qed

lemma CompleteJob_settles:
  assumes "CompleteJob i w = (Inr (), w')" and "jobs_ok (w_db w)"
  shows "\<exists>r \<in> set (db_jobs (w_db w)). \<exists>f. uuid_in i = Inr (job_ID r) \<and> jr_State r = ''leased'' \<and> settles j (w_clock w) f
    \<and> db_jobs (w_db w') = map (\<lambda>q. if q = r then f q else q) (db_jobs (w_db w))"
  using checked_one_row [OF assms(2) assms(1) [unfolded CompleteJob_def]] settlesI(1) by blast

text \<open>Only time moves the server's clock.\<close>

interpretation clock_view: table_view db_now
  by unfold_locales simp_all

lemma queue_clock:
  "keeps (on_db (same_view db_now)) (LeaseNextJob worker dur)" "keeps (on_db (same_view db_now)) (CompleteJob i)"
  "keeps (on_db (same_view db_now)) (FailJob j cause)"
proof -
  have "keeps (same_view db_now) (lease_stmt w u)" "keeps (same_view db_now) (update_leased_stmt i f)" for w u i f
    by (simp_all add: keeps_def same_view_def lease_stmt_def update_leased_stmt_def act_simps split: sum.split option.split)
  then show "keeps (on_db (same_view db_now)) (LeaseNextJob worker dur)"
    "keeps (on_db (same_view db_now)) (CompleteJob i)" "keeps (on_db (same_view db_now)) (FailJob j cause)"
    unfolding LeaseNextJob_def CompleteJob_def FailJob_def Let_def
    by (auto intro!: view_rules view.keeps_and_then view.keeps_convert split: option.split)
qed

lemma queue_clocks:
  "LeaseNextJob worker dur w = (x, w') \<Longrightarrow> w_clock w' = w_clock w \<and> db_now (w_db w') = db_now (w_db w)"
  "CompleteJob i w = (y, w') \<Longrightarrow> w_clock w' = w_clock w \<and> db_now (w_db w') = db_now (w_db w)"
  "FailJob j cause w = (z, w') \<Longrightarrow> w_clock w' = w_clock w \<and> db_now (w_db w') = db_now (w_db w)"
  using keepsD [OF queue_clock(1)] keepsD [OF queue_clock(2)] keepsD [OF queue_clock(3)]
    keepsD [OF same_rest.frame_operations(3)] keepsD [OF same_rest.frame_operations(4)] keepsD [OF same_rest.frame_operations(5)]
  by (fastforce simp: on_db_def same_view_def same_rest_def)+

lemma LeaseNextJob_row:
  assumes "LeaseNextJob worker dur w = (Inr (Some g), w')" and "jobs_ok (w_db w)"
  shows "\<exists>j until. next_job (w_db w) = Some j \<and> g = job.truncate (leased_row worker until (db_now (w_db w)) j)
    \<and> db_jobs (w_db w') = map (\<lambda>q. if q = j then leased_row worker until (db_now (w_db w)) q else q) (db_jobs (w_db w))"
proof -
  let ?d = "w_db w" and ?u = "ts_in (w_clock w + dur)"
  from lease_stmt_Inr [OF LeaseNextJob_Inr [OF assms(1)]] obtain j where j: "next_job ?d = Some j"
    "g = job.truncate (leased_row worker ?u (db_now ?d) j)"
    "db_jobs (w_db w') = update_where (\<lambda>r. job_ID r = job_ID j) (leased_row worker ?u (db_now ?d)) (db_jobs ?d)"
    by (auto split: option.splits)
  have "update_where (\<lambda>r. job_ID r = job_ID j) (leased_row worker ?u (db_now ?d)) (db_jobs ?d) =
      map (\<lambda>q. if q = j then leased_row worker ?u (db_now ?d) q else q) (db_jobs ?d)"
    unfolding update_where_def using next_job_Some [OF j(1)] job_id_row [OF assms(2), of j] by (intro map_cong) auto
  with j show ?thesis by auto
qed

text \<open>The lease, the processing, what went on elsewhere, and the settling.\<close>

lemma clean_iteration:
  fixes w :: "'x site_scheme"
  assumes run: "runOne tables (worker_options client rt i p l) meanwhile w = ((True, None), w')"
    and ok: "schema_ok (w_db w)" and elsewhere: "\<And>v. store_step (w_db v) (w_db (meanwhile v))"
  obtains j until w1 w2 r f where "next_job (w_db w) = Some j"
    "db_jobs (w_db w1) = map (\<lambda>q. if q = j then leased_row i until (db_now (w_db w)) q else q) (db_jobs (w_db w))"
    "w_clock w1 = w_clock w" "db_now (w_db w1) = db_now (w_db w)" "schema_ok (w_db w1)"
    "store_step (w_db w1) (w_db w2)" "same_queue w1 w2" "schema_ok (w_db (meanwhile w2))"
    "r \<in> set (db_jobs (w_db (meanwhile w2)))" "uuid_in (job_ID j) = Inr (job_ID r)" "jr_State r = ''leased''"
    "settles j (w_clock (meanwhile w2)) f" "db_now (w_db w') = db_now (w_db (meanwhile w2))" "w_clock w' = w_clock (meanwhile w2)"
    "db_jobs (w_db w') = map (\<lambda>q. if q = r then f q else q) (db_jobs (w_db (meanwhile w2)))"
proof -
  let ?opts = "worker_options client rt i p l"
  obtain x w1 where l: "LeaseNextJob i l w = (x, w1)" by fastforce
  have "\<exists>g. x = Inr (Some g)"
    using run l by (auto simp: runOne_def worker_options_def split: sum.splits option.splits)
  then obtain g where x: "x = Inr (Some g)" by blast
  obtain doc e w2 where pr: "process tables ?opts g w1 = ((doc, e), w2)" by (metis prod.collapse)
  have jobs: "jobs_ok (w_db w)" using ok by (simp add: schema_ok_def)
  obtain j until where j: "next_job (w_db w) = Some j" "g = job.truncate (leased_row i until (db_now (w_db w)) j)"
    "db_jobs (w_db w1) = map (\<lambda>q. if q = j then leased_row i until (db_now (w_db w)) q else q) (db_jobs (w_db w))"
    using LeaseNextJob_row [OF l [unfolded x] jobs] by blast
  have ok1: "schema_ok (w_db w1)" using keepsD [OF LeaseNextJob_store l] ok by (simp add: on_db_def store_step_def)
  have step: "store_step (w_db w1) (w_db w2)"
    using worker_store_jobs.process_step [of w1 tables client rt i p l g] pr by (simp add: on_db_def)
  have same: "same_queue w1 w2" using same_queue_worker.process_step [of w1 tables client rt i p l g] pr by simp
  have ok3: "schema_ok (w_db (meanwhile w2))" using ok1 step elsewhere [of w2] by (simp add: store_step_def)
  then have jobs3: "jobs_ok (w_db (meanwhile w2))" by (simp add: schema_ok_def)
  have settled: "(\<exists>r \<in> set (db_jobs (w_db (meanwhile w2))). \<exists>f. uuid_in (job_ID j) = Inr (job_ID r) \<and> jr_State r = ''leased''
      \<and> settles j (w_clock (meanwhile w2)) f \<and> db_jobs (w_db w') = map (\<lambda>q. if q = r then f q else q) (db_jobs (w_db (meanwhile w2))))
    \<and> db_now (w_db w') = db_now (w_db (meanwhile w2)) \<and> w_clock w' = w_clock (meanwhile w2)"
  proof (cases e)
    case None
    then have "CompleteJob (job_ID g) (meanwhile w2) = (Inr (), w')"
      using run l x pr by (auto simp: runOne_def worker_options_def error_of_def split: prod.splits sum.splits)
    from CompleteJob_settles [OF this jobs3, of j] queue_clocks(2) [OF this] show ?thesis
      unfolding j(2) leased_attributes by blast
  next
    case (Some cause)
    then have "record_failure tables g doc cause (meanwhile w2) = (None, w')"
      using run l x pr by (auto simp: runOne_def worker_options_def split: prod.splits)
    then obtain terminal w3 where f: "FailJob g (error_text (rt_quote tables) cause) (meanwhile w2) = (Inr terminal, w3)"
      and "w' = w3 \<or> (\<exists>y. SetDocumentStatus doc ''failed'' w3 = (y, w'))"
      by (auto simp: record_failure_def split: prod.splits sum.splits if_splits)
    then have "same_queue w3 w'" using keepsD [OF same_queue_operations(2)] same_queue.R_refl by blast
    from same_queue_jobs [OF this] FailJob_settles [OF f [unfolded j(2)] jobs3] queue_clocks(3) [OF f] show ?thesis by simp
  qed
  show thesis
    using that [OF j(1,3) _ _ ok1 step same ok3] queue_clocks(1) [OF l] settled by blast
qed

section \<open>Iterations that settle a job are paid for\<close>

lemma settled_remaining:
  assumes "settles j clock f" and "jr_State r = ''leased''"
  shows "remaining (f r) \<le> remaining r"
    and "job_MaxAttempts j \<le> job_Attempts j + 1 \<Longrightarrow> remaining (f r) < remaining r"
  using assms by (auto simp: settles_def remaining_def completed_row_def failed_row_def)

text \<open>Either the settling or, where the job is put off, the lease before it uses some of the budget up.\<close>

lemma clean_iteration_pays:
  fixes w :: "'x site_scheme"
  assumes run: "runOne tables (worker_options client rt i p l) meanwhile w = ((True, None), w')"
    and ok: "schema_ok (w_db w)" and elsewhere: "\<And>v. store_step (w_db v) (w_db (meanwhile v))"
  shows "slack (w_db w') < slack (w_db w)"
proof -
  from assms show ?thesis
  proof (rule clean_iteration)
    fix j until w1 w2 r f
    assume j: "next_job (w_db w) = Some j"
      and leased: "db_jobs (w_db w1) = map (\<lambda>q. if q = j then leased_row i until (db_now (w_db w)) q else q) (db_jobs (w_db w))"
      and between: "schema_ok (w_db w1)" "store_step (w_db w1) (w_db w2)" "schema_ok (w_db (meanwhile w2))"
      and r: "r \<in> set (db_jobs (w_db (meanwhile w2)))" "jr_State r = ''leased''" "settles j (w_clock (meanwhile w2)) f"
        "db_jobs (w_db w') = map (\<lambda>q. if q = r then f q else q) (db_jobs (w_db (meanwhile w2)))"
    have jobs: "jobs_ok (w_db w)" "jobs_ok (w_db (meanwhile w2))" using ok between(3) by (simp_all add: schema_ok_def)
    have due: "j \<in> set (db_jobs (w_db w))" "jr_State j \<notin> {''completed'', ''failed''}"
      using next_job_Some [OF j] by (auto simp: leasable_def)
    let ?l = "leased_row i until (db_now (w_db w))"
    have lease: "slack (w_db w1) + int (remaining j) = slack (w_db w) + int (remaining (?l j))"
      using rewritten_slack [OF jobs(1) due(1) leased] .
    have cheaper: "remaining (?l j) \<le> remaining j"
      "\<not> job_MaxAttempts j \<le> job_Attempts j + 1 \<Longrightarrow> remaining (?l j) < remaining j"
      using due(2) by (auto simp: remaining_def leased_row_def)
    have "slack (w_db (meanwhile w2)) \<le> slack (w_db w1)"
      using step_slack [OF between(2,1)] step_slack [OF elsewhere] by force
    then show ?thesis
      using lease cheaper rewritten_slack [OF jobs(2) r(1,4)] settled_remaining [OF r(3,2)]
      by (cases "job_MaxAttempts j \<le> job_Attempts j + 1") fastforce+
  qed
qed

lemma iteration_pays:
  fixes w :: "'x site_scheme"
  assumes "runOne tables (worker_options client rt i p l) meanwhile w = (entry, w')"
    and "schema_ok (w_db w)" and elsewhere: "\<And>v. store_step (w_db v) (w_db (meanwhile v))"
  shows "schema_ok (w_db w') \<and> length (db_jobs (w_db w)) \<le> length (db_jobs (w_db w'))
    \<and> slack (w_db w') + (if entry = (True, None) then 1 else 0) \<le> slack (w_db w)"
proof -
  have "store_step (w_db w) (w_db w')"
    using worker_store.runOne_step [of meanwhile w tables client rt i p l] elsewhere assms(1) by (simp add: on_db_def)
  moreover have "slack (w_db w') < slack (w_db w)" if "entry = (True, None)"
    using clean_iteration_pays [OF _ assms(2) elsewhere] assms(1) that by blast
  ultimately show ?thesis using step_slack [OF _ assms(2)] by fastforce
qed

section \<open>The whole loop\<close>

abbreviation clean :: "bool \<times> err option \<Rightarrow> bool" where
  "clean entry \<equiv> entry = (True, None)"

lemma loop_pays:
  fixes w :: "'x site_scheme"
  assumes "\<forall>s \<in> set steps. \<forall>v. store_step (w_db v) (w_db (snd s v))" and "schema_ok (w_db w)"
    and "run_loop tables (worker_options client rt i p l) steps w = (logged, stopped, w')"
  shows "slack (w_db w') + int (length (filter clean logged)) \<le> slack (w_db w) \<and> length (db_jobs (w_db w)) \<le> length (db_jobs (w_db w'))"
  using assms
proof (induction steps arbitrary: w logged)
  case (Cons s steps)
  obtain stop meanwhile where s: "s = (stop, meanwhile)" by fastforce
  have elsewhere: "store_step (w_db v) (w_db (meanwhile v))" for v using Cons.prems(1) s by simp
  obtain b e w1 where one: "runOne tables (worker_options client rt i p l) meanwhile w = ((b, e), w1)" by (metis prod.collapse)
  note paid = iteration_pays [OF one Cons.prems(2) elsewhere]
  have rest: "\<forall>s \<in> set steps. \<forall>v. store_step (w_db v) (w_db (snd s v))" using Cons.prems(1) by simp
  show ?case
  proof (cases b)
    case True
    then obtain logged1 where l: "run_loop tables (worker_options client rt i p l) steps w1 = (logged1, stopped, w')"
      "logged = (b, e) # logged1"
      using Cons.prems(3) one s by (auto split: prod.splits)
    show ?thesis using Cons.IH [OF rest _ l(1)] paid by (auto simp: l(2))
  next
    case False
    have later: "schema_ok (w_db (meanwhile w1)) \<and> slack (w_db (meanwhile w1)) \<le> slack (w_db w1)
        \<and> length (db_jobs (w_db w1)) \<le> length (db_jobs (w_db (meanwhile w1)))"
      using step_slack [OF elsewhere] paid by blast
    show ?thesis
    proof (cases stop)
      case True
      then show ?thesis using Cons.prems(3) one s False later paid by auto
    next
      case go: False
      then obtain logged1 where l: "run_loop tables (worker_options client rt i p l) steps (meanwhile w1) = (logged1, stopped, w')"
        "logged = (b, e) # logged1"
        using Cons.prems(3) one s False by (auto split: prod.splits)
      show ?thesis using Cons.IH [OF rest _ l(1)] paid later False by (auto simp: l(2))
    qed
  qed
qed simp


section \<open>A worker at concrete tables\<close>

definition sample_universe :: raw_message where
  "sample_universe = Raw (JObject [(''universe'', JObject [(''symbols'', JArray [JString ''SPY''])])])"

definition ranked_db :: db where
  "ranked_db = sample_db\<lparr>
     db_strategies := [\<lparr>st_ID = strategy_id1, st_Slug = ''momentum'', st_Version = 1, st_Name = ''Momentum'',
        st_Spec = sample_universe, st_CreatedAt = 2500\<rparr>],
     db_jobs := [queued_row sample_id ''extract_document'' (document_payload doc_id) 8000]\<rparr>"

abbreviation sample_client :: quant_client where
  "sample_client \<equiv> \<lparr>qc_baseURL = ''http://quant'', qc_URLError = (\<lambda>_. None)\<rparr>"

lemma ranked_ok: "schema_ok ranked_db"
  using sample_ok
  by (simp add: schema_ok_def ranked_db_def keys_ok_def refs_ok_def checks_ok_def versions_ok_def uuids_ok_def jobs_ok_def
      sample_db_def queued_row_def job_row_ok_def job_types_def uuid_in_samples)

definition plain_tables :: rune_tables where
  "plain_tables = \<lparr>rt_lower = (\<lambda>r. r), rt_quote = (\<lambda>r. r)\<rparr>"

text \<open>Twenty iterations, during each of which a second goes by.\<close>

definition second_later :: "site \<Rightarrow> site" where
  "second_later w = w\<lparr>w_db := (w_db w)\<lparr>db_now := db_now (w_db w) + 1000000000\<rparr>, w_clock := w_clock w + 1000000000\<rparr>"

lemma second_later_step: "store_step (w_db v) (w_db (second_later v))"
  unfolding second_later_def by (simp, rule store_step_same) (simp_all add: same_tables_def)

lemma ranked_budget: "budget (w_db (sample_site ranked_db)) = 3 \<and> length (db_jobs (w_db (sample_site ranked_db))) = 1"
  by (simp add: budget_def remaining_def sample_site_def ranked_db_def queued_row_def)


end
