(* ===== verification/WorkerLogic.thy ===== *)
theory WorkerLogic
  imports WorkerProgress
begin

text \<open>
  How the worker runs a backtest, step by step: what it knows of the run, the strategy and the snapshot it
  works on, and what has to be shown of its two decisive calls, to the engine and to \<open>CompleteBacktest\<close>, for the
  whole of \<open>processBacktest\<close> to stay within a relation.
\<close>

section \<open>Reading\<close>

lemma step_grows:
  "store_step d d' \<Longrightarrow> schema_ok d \<Longrightarrow>
     schema_ok d' \<and> set (db_strategies d) \<subseteq> set (db_strategies d') \<and> rows_extend same_run (db_runs d) (db_runs d')"
  by (auto simp: store_step_def grows_def dest: set_mono_prefix)

text \<open>A row found under its key.\<close>

lemma found_row:
  assumes "found_or m (pg_exec (and_then (convert (uuid_in i)) (\<lambda>u.
      and_then (read_db (\<lambda>d. find (\<lambda>r. key r = u) (rows d))) one_row))) w = (Inr x, w')"
  shows "w_db w' = w_db w \<and> x \<in> set (rows (w_db w)) \<and> uuid_in i = Inr (key x)"
  using assms
  by (auto simp: found_or_def attempt_def fail_def ok_def one_row_def act_simps find_Some_iff
      split: prod.splits sum.splits if_splits option.splits dest!: pg_exec_Inr)

lemma GetBacktestRun_finds:
  assumes "GetBacktestRun i w = (Inr run, w')"
  shows "w_db w' = w_db w \<and> run \<in> set (db_runs (w_db w)) \<and> uuid_in (run_ID run) = Inr (run_ID run)"
  using found_row [OF assms [unfolded GetBacktestRun_def run_by_id_stmt_def]] uuid_in_canonical by blast

lemma GetSnapshot_finds:
  assumes "GetMarketDataSnapshot i w = (Inr snap, w')"
  shows "w_db w' = w_db w \<and> snap \<in> set (db_snapshots (w_db w)) \<and> uuid_in i = Inr (snap_ID snap)"
  using found_row [OF assms [unfolded GetMarketDataSnapshot_def snapshot_by_id_stmt_def]] by blast

text \<open>A claim as it was read is a claim the strategy cites, with everything but its review status.\<close>

definition cites :: "strategy \<Rightarrow> stored_claim \<Rightarrow> db \<Rightarrow> bool" where
  "cites s c d \<longleftrightarrow>
     (\<exists>row \<in> set (db_claims d). (st_ID s, cr_ID row) \<in> set (db_citations d) \<and> cr_ID row = sc_ID c
        \<and> cr_DocumentID row = sc_DocumentID c \<and> cr_Direction row = sc_Direction c \<and> cr_Confidence row = sc_Confidence c
        \<and> cr_EffectiveAt row = sc_EffectiveAt c \<and> cr_HorizonDays row = sc_HorizonDays c)"

lemma cites_later:
  assumes "cites s c d" and "schema_ok d" and "store_step d d'"
  shows "cites s c d'"
proof -
  have g: "cited_kept d d'" "set (db_citations d) \<subseteq> set (db_citations d')"
    using assms(2,3) by (auto simp: store_step_def grows_def dest: set_mono_prefix)
  obtain row where row: "row \<in> set (db_claims d)" "(st_ID s, cr_ID row) \<in> set (db_citations d)" "cr_ID row = sc_ID c"
    "cr_DocumentID row = sc_DocumentID c" "cr_Direction row = sc_Direction c" "cr_Confidence row = sc_Confidence c"
    "cr_EffectiveAt row = sc_EffectiveAt c" "cr_HorizonDays row = sc_HorizonDays c"
    using assms(1) unfolding cites_def by blast
  have "cr_ID row \<in> snd ` set (db_citations d)" using row(2) by force
  then obtain k where k: "k \<in> set (db_claims d')" "k\<lparr>cr_ValidationStatus := cr_ValidationStatus row\<rparr> = row"
    using g(1) row(1) unfolding cited_kept_def by blast
  have "cr_ID k = cr_ID row" "cr_DocumentID k = cr_DocumentID row" "cr_Direction k = cr_Direction row"
    "cr_Confidence k = cr_Confidence row" "cr_EffectiveAt k = cr_EffectiveAt row" "cr_HorizonDays k = cr_HorizonDays row"
    using arg_cong [OF k(2), of cr_ID] arg_cong [OF k(2), of cr_DocumentID] arg_cong [OF k(2), of cr_Direction]
      arg_cong [OF k(2), of cr_Confidence] arg_cong [OF k(2), of cr_EffectiveAt] arg_cong [OF k(2), of cr_HorizonDays]
    by simp_all
  then show ?thesis using row k(1) g(2) unfolding cites_def by (intro bexI [of _ k]) auto
qed

text \<open>What the worker knows, which stays true while the store goes on.\<close>

definition knows :: "backtest_run \<Rightarrow> strategy \<Rightarrow> stored_claim list \<Rightarrow> db \<Rightarrow> bool" where
  "knows run s cs d \<longleftrightarrow>
     uuid_in (run_ID run) = Inr (run_ID run) \<and> (\<exists>r \<in> set (db_runs d). same_run run r)
     \<and> s \<in> set (db_strategies d) \<and> st_ID s = run_StrategyID run \<and> (\<forall>c \<in> set cs. cites s c d)"

definition knows_snapshot :: "backtest_run \<Rightarrow> market_data_snapshot \<Rightarrow> db \<Rightarrow> bool" where
  "knows_snapshot run snap d \<longleftrightarrow>
     snap \<in> set (db_snapshots d) \<and> uuid_in (run_MarketDataSnapshotID run) = Inr (snap_ID snap)"

lemma knows_later:
  assumes "knows run s cs d" and "schema_ok d" and "store_step d d'"
  shows "knows run s cs d'"
proof -
  note g = step_grows [OF assms(3,2)]
  then have "\<exists>r \<in> set (db_runs d'). same_run run r"
    using assms(1) rows_extend_row [of same_run "db_runs d" "db_runs d'"] same_run_trans unfolding knows_def by meson
  then show ?thesis using assms g cites_later unfolding knows_def by blast
qed

lemma knows_snapshot_later:
  "knows_snapshot run snap d \<Longrightarrow> schema_ok d \<Longrightarrow> store_step d d' \<Longrightarrow> knows_snapshot run snap d'"
  using set_mono_prefix by (fastforce simp: knows_snapshot_def store_step_def grows_def)

lemma citations_cited:
  assumes "citations_stmt i d = (Inr cs, d')" and "uuid_in i = Inr (st_ID s)" and "c \<in> set cs"
  shows "cites s c d"
  using assms
  by (auto simp: citations_stmt_def act_simps go_sort.srt_set joined_claims_def joined_claim_def cites_def stored_of_def) blast

lemma GetStrategy_finds:
  assumes get: "GetStrategyWithCitations (run_StrategyID run) w = (Inr (s, cs), w')"
    and run: "run \<in> set (db_runs (w_db w))" "uuid_in (run_ID run) = Inr (run_ID run)" and ok: "schema_ok (w_db w)"
  shows "w_db w' = w_db w \<and> knows run s cs (w_db w)"
proof -
  obtain w1 where s: "found_or ''get strategy: %w'' (pg_exec (strategy_by_id_stmt (run_StrategyID run))) w = (Inr s, w1)"
    and cs: "pg_query ''list strategy citations: %w'' ''iterate claims: %w'' (citations_stmt (run_StrategyID run)) w1 = (Inr cs, w')"
    using get by (auto simp: GetStrategyWithCitations_def and_then_Inr ok_def)
  note s1 = found_row [OF s [unfolded strategy_by_id_stmt_def]]
  have "run_StrategyID run \<in> st_ID ` set (db_strategies (w_db w))"
    using run(1) ok by (auto simp: schema_ok_def refs_ok_def)
  then have id: "uuid_in (run_StrategyID run) = Inr (run_StrategyID run)"
    using ok by (auto simp: schema_ok_def uuids_ok_def)
  obtain d where d: "citations_stmt (run_StrategyID run) (w_db w1) = (Inr cs, d)" "w_db w' = w_db w1"
    using pg_query_Inr [OF cs] by blast
  have "cites s c (w_db w)" if "c \<in> set cs" for c
    using citations_cited [OF d(1) _ that] s1 id by simp
  then show ?thesis using s1 d(2) id run unfolding knows_def by (auto intro: bexI [of _ run])
qed

section \<open>From step to step\<close>

text \<open>From tables of which \<open>P\<close> holds, \<open>f\<close> stays within \<open>R\<close>, and where it succeeds, \<open>Q\<close> holds of its value.\<close>

definition leads ::
    "('x world_scheme \<Rightarrow> 'x world_scheme \<Rightarrow> bool) \<Rightarrow> (db \<Rightarrow> bool) \<Rightarrow> ('x world_scheme, 'a) act \<Rightarrow> ('a \<Rightarrow> db \<Rightarrow> bool) \<Rightarrow> bool"
  where
  "leads R P f Q \<longleftrightarrow> (\<forall>w r w'. P (w_db w) \<longrightarrow> f w = (r, w') \<longrightarrow> R w w' \<and> (\<forall>x. r = Inr x \<longrightarrow> Q x (w_db w')))"

lemma leadsI:
  "(\<And>w r w'. P (w_db w) \<Longrightarrow> f w = (r, w') \<Longrightarrow> R w w' \<and> (\<forall>x. r = Inr x \<longrightarrow> Q x (w_db w'))) \<Longrightarrow> leads R P f Q"
  by (simp add: leads_def)

lemma leadsD: "leads R P f Q \<Longrightarrow> P (w_db w) \<Longrightarrow> f w = (r, w') \<Longrightarrow> R w w' \<and> (\<forall>x. r = Inr x \<longrightarrow> Q x (w_db w'))"
  by (simp add: leads_def)

lemma leads_convert: "(\<And>w. R w w) \<Longrightarrow> (\<And>d x. P d \<Longrightarrow> r = Inr x \<Longrightarrow> Q x d) \<Longrightarrow> leads R P (convert r) Q"
  by (auto simp: leads_def convert_def)

lemma failIfTerminal_fails: "failIfTerminal j i cause w \<noteq> (Inr x, w')"
  by (auto simp: failIfTerminal_def attempt_def fail_def split: prod.splits sum.splits)

text \<open>
  The interface between the worker's code and what is proved of it: a relation that refines the store's
  discipline, that the reads and the status changes stay within, and that the calls to the engine, to the
  store of artifacts and to \<open>CompleteBacktest\<close> stay within given what the worker knows when it makes them.
\<close>

locale backtest_logic = state_preorder R
  for R :: "'x world_scheme \<Rightarrow> 'x world_scheme \<Rightarrow> bool" and tables :: rune_tables
    and engine :: "backtest_request \<Rightarrow> ('x world_scheme, backtest_result) act"
    and save :: "string \<Rightarrow> ('x world_scheme, string) act" +
  assumes discipline: "R w w' \<Longrightarrow> store_step (w_db w) (w_db w')"
    and reads: "keeps R (GetBacktestRun i)" "keeps R (GetStrategyWithCitations i)" "keeps R (GetMarketDataSnapshot i)"
    and marks: "status \<noteq> ''completed'' \<Longrightarrow> keeps R (SetBacktestStatus i status)"
    and saves: "keeps R (save content)"
    and asks: "schema_ok (w_db w) \<Longrightarrow> knows run s cs (w_db w) \<Longrightarrow> knows_snapshot run snap (w_db w) \<Longrightarrow>
      snap_StorageKey snap = Some storage_key \<Longrightarrow> snap_Checksum snap = Some checksum \<Longrightarrow>
      backtestSignals tables (st_Spec s) cs (run_DocumentCutoffAt run) = Inr (signals, universe) \<Longrightarrow>
      R w (snd (engine \<lparr>br_BacktestID = run_ID run, br_Spec = st_Spec s, br_SnapshotStorageKey = storage_key,
        br_SnapshotChecksum = checksum, br_DocumentCutoffAt = run_DocumentCutoffAt run,
        br_Parameters = run_Parameters run, br_Signals = signals\<rparr> w))"
    and completes: "schema_ok (w_db w) \<Longrightarrow> knows run s cs (w_db w) \<Longrightarrow> universe_symbols (st_Spec s) = Inr universe \<Longrightarrow>
      missing_symbols (candidate_symbols (res_Candidates result)) universe = [] \<Longrightarrow>
      R w (snd (CompleteBacktest (run_ID run) result key w))"
begin

lemma keeps_terminal: "keeps R (failIfTerminal j i cause)"
  unfolding failIfTerminal_def by (auto intro!: keeps_intros marks split: sum.split)

lemma leads_failIfTerminal: "leads R P (failIfTerminal j i cause) Q"
  by (rule leadsI) (auto simp: failIfTerminal_fails dest: keepsD [OF keeps_terminal])

lemma leads_or_terminal:
  assumes "leads R P f Q" and "\<And>x. leads R (Q x) (k x) S"
  shows "leads R P (or_terminal j i f k) S"
proof (rule leadsI)
  fix w r w' assume P: "P (w_db w)" and run: "or_terminal j i f k w = (r, w')"
  obtain y w1 where f: "f w = (y, w1)" by fastforce
  note first = leadsD [OF assms(1) P f]
  show "R w w' \<and> (\<forall>x. r = Inr x \<longrightarrow> S x (w_db w'))"
  proof (cases y)
    case (Inl e)
    then have "failIfTerminal j i e w1 = (r, w')" using run f by (simp add: or_terminal_def attempt_def)
    then show ?thesis using leadsD [OF leads_failIfTerminal [of "\<lambda>_. True" j i e S]] first R_trans by blast
  next
    case (Inr x)
    then have "k x w1 = (r, w')" using run f by (simp add: or_terminal_def attempt_def)
    then show ?thesis using leadsD [OF assms(2)] first Inr R_trans by blast
  qed
qed

text \<open>What is known survives the steps in between; over tables that are not sound nothing has to be shown.\<close>

lemma leads_knowing:
  assumes "keeps R f" and "\<And>d d'. P d \<Longrightarrow> schema_ok d \<Longrightarrow> store_step d d' \<Longrightarrow> P d'"
  shows "leads R (\<lambda>d. schema_ok d \<and> P d) f (\<lambda>_ d. schema_ok d \<and> P d)"
proof (rule leadsI)
  fix w r w' assume d: "schema_ok (w_db w) \<and> P (w_db w)" and f: "f w = (r, w')"
  have R: "R w w'" by (rule keepsD [OF assms(1) f])
  then have "schema_ok (w_db w') \<and> P (w_db w')" using discipline [OF R] d assms(2) by (simp add: store_step_def) (meson store_step_def)
  with R show "R w w' \<and> (\<forall>x. r = Inr x \<longrightarrow> schema_ok (w_db w') \<and> P (w_db w'))" by simp
qed

lemma leads_storeResult:
  assumes spec: "universe_symbols (st_Spec s) = Inr universe"
  shows "leads R (\<lambda>d. schema_ok d \<and> knows run s cs d) (storeResult j i save (run_ID run) universe result) (\<lambda>_ _. True)"
proof -
  have saved: "leads R (\<lambda>d. schema_ok d \<and> knows run s cs d) (save content) (\<lambda>_ d. schema_ok d \<and> knows run s cs d)" for content
    by (rule leads_knowing [OF saves knows_later])
  have completed: "leads R (\<lambda>d. schema_ok d \<and> knows run s cs d) (CompleteBacktest (run_ID run) result key) (\<lambda>_ _. True)"
    if "missing_symbols (candidate_symbols (res_Candidates result)) universe = []" for key
    using completes [OF _ _ spec that] by (intro leadsI) (metis snd_conv)
  have "leads R (\<lambda>d. schema_ok d \<and> knows run s cs d)
      (or_terminal j i (save content) (\<lambda>key. or_terminal j i (CompleteBacktest (run_ID run) result key) ok)) (\<lambda>_ _. True)"
    if "missing_symbols (candidate_symbols (res_Candidates result)) universe = []" for content
    by (rule leads_or_terminal [OF saved], rule leads_or_terminal [OF completed [OF that]])
      (simp add: leads_def ok_def R_refl)
  then show ?thesis
    unfolding storeResult_def Let_def by (simp add: leads_failIfTerminal)
qed

lemma leads_runBacktest:
  "leads R (\<lambda>d. schema_ok d \<and> run \<in> set (db_runs d) \<and> uuid_in (run_ID run) = Inr (run_ID run))
     (runBacktest tables j i engine save run) (\<lambda>_ _. True)"
proof -
  let ?K = "\<lambda>s cs d. schema_ok d \<and> knows run s cs d"
  have strategy: "leads R (\<lambda>d. schema_ok d \<and> run \<in> set (db_runs d) \<and> uuid_in (run_ID run) = Inr (run_ID run))
      (GetStrategyWithCitations (run_StrategyID run)) (\<lambda>x. ?K (fst x) (snd x))"
    by (intro leadsI conjI keepsD [OF reads(2)]) (use GetStrategy_finds in fastforce)+
  have snapshot: "leads R (?K s cs) (GetMarketDataSnapshot (run_MarketDataSnapshotID run))
      (\<lambda>snap d. schema_ok d \<and> knows run s cs d \<and> knows_snapshot run snap d)" for s cs
    by (intro leadsI conjI keepsD [OF reads(3)]) (use GetSnapshot_finds in \<open>fastforce simp: knows_snapshot_def\<close>)+
  have rest: "leads R (\<lambda>d. schema_ok d \<and> knows run s cs d \<and> knows_snapshot run snap d)
      (or_terminal j i (convert (backtestSignals tables (st_Spec s) cs (run_DocumentCutoffAt run))) (\<lambda>(signals, universe).
       or_terminal j i (SetBacktestStatus (run_ID run) ''running'') (\<lambda>_.
       or_terminal j i (engine \<lparr>br_BacktestID = run_ID run, br_Spec = st_Spec s, br_SnapshotStorageKey = storage_key,
         br_SnapshotChecksum = checksum, br_DocumentCutoffAt = run_DocumentCutoffAt run,
         br_Parameters = run_Parameters run, br_Signals = signals\<rparr>)
         (storeResult j i save (run_ID run) universe)))) (\<lambda>_ _. True)" (is "leads R ?L _ _")
    if keys: "snap_StorageKey snap = Some storage_key" "snap_Checksum snap = Some checksum" for s cs snap storage_key checksum
  proof (cases "backtestSignals tables (st_Spec s) cs (run_DocumentCutoffAt run)")
    case (Inl e)
    then show ?thesis
      by (intro leads_or_terminal [of _ _ "\<lambda>_ _. False"]) (simp_all add: leads_def convert_def R_refl)
  next
    case (Inr su)
    obtain signals universe where su: "su = (signals, universe)" by fastforce
    have spec: "universe_symbols (st_Spec s) = Inr universe"
      using Inr su by (auto simp: backtestSignals_def split: sum.splits)
    have signals: "leads R ?L (convert (Inr su)) (\<lambda>x d. x = (signals, universe) \<and> ?L d)"
      by (rule leads_convert) (auto simp: R_refl su)
    have asked: "leads R ?L (engine \<lparr>br_BacktestID = run_ID run, br_Spec = st_Spec s, br_SnapshotStorageKey = storage_key,
         br_SnapshotChecksum = checksum, br_DocumentCutoffAt = run_DocumentCutoffAt run,
         br_Parameters = run_Parameters run, br_Signals = signals\<rparr>) (\<lambda>_. ?K s cs)" (is "leads R ?L (engine ?q) _")
    proof (rule leadsI)
      fix w r w' assume L: "?L (w_db w)" and run: "engine ?q w = (r, w')"
      have R: "R w w'" using asks [OF _ _ _ keys Inr [unfolded su]] L run by (metis snd_conv)
      have "?K s cs (w_db w')" using discipline [OF R] L knows_later by (auto simp: store_step_def)
      with R show "R w w' \<and> (\<forall>x. r = Inr x \<longrightarrow> ?K s cs (w_db w'))" by simp
    qed
    have marked: "leads R ?L (SetBacktestStatus (run_ID run) ''running'') (\<lambda>_. ?L)"
      by (rule leads_knowing [OF marks]) (auto intro: knows_later knows_snapshot_later)
    have "leads R ?L (or_terminal j i (SetBacktestStatus (run_ID run) ''running'') (\<lambda>_. or_terminal j i (engine ?q)
        (storeResult j i save (run_ID run) universe))) (\<lambda>_ _. True)"
      by (rule leads_or_terminal [OF marked], rule leads_or_terminal [OF asked], rule leads_storeResult [OF spec])
    then show ?thesis
      unfolding Inr by (intro leads_or_terminal [OF signals]) (auto simp: leads_def)
  qed
  show ?thesis
    unfolding runBacktest_def
    by (rule leads_or_terminal [OF strategy], unfold case_prod_beta, rule leads_or_terminal [OF snapshot])
      (auto intro!: leads_failIfTerminal rest [unfolded case_prod_beta] split: option.split)
qed

lemma leads_processBacktest:
  assumes "op_Backtest opts = Some engine" and "op_Artifacts opts = Some save"
  shows "leads R schema_ok (processBacktest tables opts j) (\<lambda>_ _. True)"
proof -
  have run: "leads R schema_ok (GetBacktestRun i)
      (\<lambda>run d. schema_ok d \<and> run \<in> set (db_runs d) \<and> uuid_in (run_ID run) = Inr (run_ID run))" for i
    by (intro leadsI conjI keepsD [OF reads(1)]) (use GetBacktestRun_finds in fastforce)+
  have "leads R schema_ok (or_terminal j i (GetBacktestRun i)
      (\<lambda>run. if run_Status run = ''completed'' then ok () else runBacktest tables j i engine save run)) (\<lambda>_ _. True)" for i
    by (rule leads_or_terminal [OF run]) (simp add: leads_runBacktest, simp add: leads_def ok_def R_refl)
  moreover have "leads R schema_ok (fail e :: (_, unit) act) (\<lambda>_ _. True)" for e by (simp add: leads_def fail_def R_refl)
  ultimately show ?thesis
    unfolding processBacktest_def using assms by (simp split: sum.split)
qed

end

end
