(* ===== verification/EngineRequests.thy ===== *)
theory EngineRequests
  imports WorkerLogic
begin

text \<open>
  What a worker asks the engine: every backtest request rests on rows of the tables, and no signal in it
  is newer than the run's cutoff.
\<close>

section \<open>Requests that rest on the tables\<close>

text \<open>A signal as it is sent, drawn from a claim.\<close>

definition drawn_from :: "stored_claim \<Rightarrow> wire_signal \<Rightarrow> bool" where
  "drawn_from c g \<longleftrightarrow>
     ws_ClaimID g = sc_ID c \<and> ws_Direction g = sc_Direction c \<and> ws_Confidence g = sc_Confidence c
     \<and> ws_EffectiveAt g = sc_EffectiveAt c \<and> ws_HorizonDays g = sc_HorizonDays c"

definition rests_on ::
    "wire_backtest \<Rightarrow> backtest_run \<Rightarrow> strategy \<Rightarrow> stored_claim list \<Rightarrow> market_data_snapshot \<Rightarrow> string list \<Rightarrow> bool" where
  "rests_on b run s cs snap universe \<longleftrightarrow>
     wb_BacktestID b = run_ID run \<and> wb_DocumentCutoffAt b = run_DocumentCutoffAt run
     \<and> wb_Parameters b = rawOrEmpty (run_Parameters run) \<and> wb_Spec b = st_Spec s
     \<and> snap_StorageKey snap = Some (wb_SnapshotStorageKey b) \<and> snap_Checksum snap = Some (wb_SnapshotChecksum b)
     \<and> universe_symbols (st_Spec s) = Inr universe
     \<and> (\<forall>g \<in> set (wb_Signals b). ws_Symbol g \<in> set universe \<and> ws_EffectiveAt g \<le> wb_DocumentCutoffAt b
          \<and> ws_Direction g \<noteq> ''neutral'' \<and> (\<exists>c \<in> set cs. drawn_from c g))"

definition backed :: "db \<Rightarrow> quant_request \<Rightarrow> bool" where
  "backed d request \<longleftrightarrow>
     (case request of
        BacktestRequest b \<Rightarrow>
          \<exists>run s cs snap universe. knows run s cs d \<and> knows_snapshot run snap d \<and> rests_on b run s cs snap universe
      | _ \<Rightarrow> True)"

lemma backed_later: "backed d q \<Longrightarrow> schema_ok d \<Longrightarrow> store_step d d' \<Longrightarrow> backed d' q"
  unfolding backed_def by (cases q) (auto dest: knows_later knows_snapshot_later, meson knows_later knows_snapshot_later)

text \<open>The store's discipline is kept, and what has been asked meanwhile rests on the tables.\<close>

definition asks_backed :: "'x site_scheme \<Rightarrow> 'x site_scheme \<Rightarrow> bool" where
  "asks_backed w w' \<longleftrightarrow>
     store_step (w_db w) (w_db w')
     \<and> (schema_ok (w_db w) \<longrightarrow> (\<exists>sent. s_sent w' = s_sent w @ sent \<and> (\<forall>q \<in> set sent. backed (w_db w') q)))"

lemma asks_backed_trans:
  assumes "asks_backed a b" and "asks_backed b c"
  shows "asks_backed a c"
  unfolding asks_backed_def
proof (intro conjI impI)
  show "store_step (w_db a) (w_db c)" using assms store.R_trans unfolding asks_backed_def by blast
  assume ok: "schema_ok (w_db a)"
  then have ok': "schema_ok (w_db b)" "store_step (w_db b) (w_db c)" using assms by (simp_all add: asks_backed_def store_step_def)
  obtain s1 s2 where "s_sent b = s_sent a @ s1" "\<forall>q \<in> set s1. backed (w_db b) q" "s_sent c = s_sent b @ s2"
    "\<forall>q \<in> set s2. backed (w_db c) q"
    using assms ok ok'(1) unfolding asks_backed_def by blast
  then show "\<exists>sent. s_sent c = s_sent a @ sent \<and> (\<forall>q \<in> set sent. backed (w_db c) q)"
    using backed_later [OF _ ok'] by (intro exI [of _ "s1 @ s2"]) auto
qed

interpretation asks_backed: state_preorder asks_backed
proof
  show "asks_backed w w" for w by (simp add: asks_backed_def store.R_refl)
qed (rule asks_backed_trans)

lemma silent_asks: "store_step (w_db w) (w_db w') \<Longrightarrow> s_sent w' = s_sent w \<Longrightarrow> asks_backed w w'"
  by (simp add: asks_backed_def)

lemma store_asks: "keeps (on_db store_step) f \<Longrightarrow> keeps same_rest f \<Longrightarrow> keeps asks_backed f"
  using silent_asks same_rest_disk unfolding keeps_def on_db_def same_disk_def by blast

lemma same_store_asks: "same_store w w' \<Longrightarrow> asks_backed w w'"
  by (simp add: asks_backed_def same_store_def store.R_refl)

lemma only_asks_backed: "only_asks q w w' \<Longrightarrow> (schema_ok (w_db w) \<Longrightarrow> backed (w_db w) q) \<Longrightarrow> asks_backed w w'"
  by (fastforce simp: only_asks_def asks_backed_def store.R_refl)

lemma asks_operations:
  "keeps asks_backed (LeaseNextJob worker dur)" "keeps asks_backed (CompleteJob i)" "keeps asks_backed (FailJob j cause)"
  "keeps asks_backed (GetDocument i)" "keeps asks_backed (SetDocumentStatus i s)" "keeps asks_backed (ReplaceExtraction i e)"
  "keeps asks_backed (GetStrategyWithCitations i)" "keeps asks_backed (InsertMarketDataSnapshot m)"
  "keeps asks_backed (GetMarketDataSnapshot i)" "keeps asks_backed (GetBacktestRun i)"
  "keeps asks_backed (CompleteBacktest i result key)"
  by (rule store_asks, rule effects, rule same_rest.frame_operations)+

lemma asks_status: "s \<noteq> ''completed'' \<Longrightarrow> keeps asks_backed (SetBacktestStatus i s)"
  by (rule store_asks [OF SetBacktestStatus_store same_rest.frame_operations(21)])

lemma asks_ExtractClaims: "keeps asks_backed (ExtractClaims client x)"
  unfolding keeps_def
proof
  fix w :: "'a site_scheme"
  obtain r w' where e: "ExtractClaims client x w = (r, w')" by fastforce
  then obtain q where "only_asks (ExtractClaimsRequest q) w w'" using ExtractClaims_asks by blast
  then show "asks_backed w (snd (ExtractClaims client x w))"
    using only_asks_backed [of "ExtractClaimsRequest q" w w'] e by (simp add: backed_def)
qed

lemma asks_FetchSnapshot: "keeps asks_backed (FetchSnapshot client rt request)"
proof -
  have "keeps asks_backed (FetchMarketData client request)"
    unfolding keeps_def
  proof
    fix w
    obtain r w' where e: "FetchMarketData client request w = (r, w')" by fastforce
    from only_asks_backed [OF FetchMarketData_asks [OF e]] show "asks_backed w (snd (FetchMarketData client request w))"
      using e by (simp add: backed_def)
  qed
  moreover have "keeps asks_backed (SnapshotStore_Save rt csv)" for csv
    by (rule keeps_weaken [OF Save_same(1) same_store_asks])
  ultimately show ?thesis
    unfolding FetchSnapshot_def Let_def by (auto intro!: asks_backed.keeps_intros asks_operations split: option.split)
qed

section \<open>The question put to the engine\<close>

lemma signals_drawn:
  assumes "backtestSignals tables spec cs cutoff = Inr (signals, universe)" and "g \<in> set (claimSignals signals)"
  shows "ws_Symbol g \<in> set universe \<and> ws_EffectiveAt g \<le> cutoff \<and> ws_Direction g \<noteq> ''neutral''
    \<and> (\<exists>c \<in> set cs. drawn_from c g)"
proof -
  have s: "signals = build_signals (rt_lower tables) cs universe cutoff"
    using assms(1) by (auto simp: backtestSignals_def split: sum.splits)
  obtain t where t: "t \<in> set signals" "ws_ClaimID g = sig_ClaimID t" "ws_Symbol g = sig_Symbol t"
    "ws_Direction g = sig_Direction t" "ws_Confidence g = sig_Confidence t" "ws_EffectiveAt g = sig_EffectiveAt t"
    "ws_HorizonDays g = sig_HorizonDays t"
    using assms(2) by (auto simp: claimSignals_def)
  obtain c where "c \<in> set cs" "admitted (rt_lower tables) (set universe) cutoff c (sig_Symbol t)" "t = signal_of c (sig_Symbol t)"
    using build_signals_sources t(1) unfolding s by blast
  then obtain y where "c \<in> set cs" "admitted (rt_lower tables) (set universe) cutoff c y" "t = signal_of c y" by blast
  then show ?thesis using t(2-7) by (auto simp: admitted_def drawn_from_def signal_of_def)
qed

lemma asks_RunBacktest:
  assumes "knows run s cs (w_db w)" and "knows_snapshot run snap (w_db w)"
    and "snap_StorageKey snap = Some storage_key" and "snap_Checksum snap = Some checksum"
    and signals: "backtestSignals tables (st_Spec s) cs (run_DocumentCutoffAt run) = Inr (signals, universe)"
  shows "asks_backed w (snd (RunBacktest client \<lparr>br_BacktestID = run_ID run, br_Spec = st_Spec s,
    br_SnapshotStorageKey = storage_key, br_SnapshotChecksum = checksum, br_DocumentCutoffAt = run_DocumentCutoffAt run,
    br_Parameters = run_Parameters run, br_Signals = signals\<rparr> w))" (is "asks_backed w (snd (RunBacktest client ?q w))")
proof -
  obtain r w' where e: "RunBacktest client ?q w = (r, w')" by fastforce
  have "universe_symbols (st_Spec s) = Inr universe" using signals by (auto simp: backtestSignals_def split: sum.splits)
  then have "backed (w_db w) (BacktestRequest (wire_request ?q))"
    unfolding backed_def using assms(1-4) signals_drawn [OF signals]
    by (auto simp: wire_request_def rests_on_def intro!: exI)
  from only_asks_backed [OF RunBacktest_asks [OF e] this] show ?thesis using e by simp
qed

interpretation asks_logic: backtest_logic asks_backed tables "RunBacktest client" "ArtifactStore_Save rt"
  for tables client rt
proof (intro backtest_logic.intro asks_backed.state_preorder_axioms backtest_logic_axioms.intro asks_operations)
  show "asks_backed w w' \<Longrightarrow> store_step (w_db w) (w_db w')" for w w' :: "'a site_scheme"
    by (simp add: asks_backed_def)
  show "keeps asks_backed (ArtifactStore_Save rt content)" for content
    by (rule keeps_weaken [OF Save_same(2) same_store_asks])
  show "asks_backed w (snd (CompleteBacktest i result key w))" for w :: "'a site_scheme" and i result key
    by (rule asks_operations(11) [unfolded keeps_def, rule_format])
qed (simp_all add: asks_status asks_RunBacktest)

lemma asks_processBacktest: "keeps asks_backed (processBacktest tables (worker_options client rt i p l) j)"
  unfolding keeps_def
proof
  fix w :: "'a site_scheme"
  let ?f = "processBacktest tables (worker_options client rt i p l) j"
  obtain r w' where f: "?f w = (r, w')" by fastforce
  show "asks_backed w (snd (?f w))"
  proof (cases "schema_ok (w_db w)")
    case True
    have "leads asks_backed schema_ok ?f (\<lambda>_ _. True)"
      by (rule asks_logic.leads_processBacktest) (simp_all add: worker_options_def)
    from leadsD [where P = schema_ok, OF this True f] show ?thesis using f by simp
  next
    case False
    then show ?thesis
      using keeps_on_db [OF worker_store_jobs.keeps_processBacktest f] f by (simp add: asks_backed_def)
  qed
qed

interpretation asks_worker: worker_loop_frame asks_backed tables "worker_options client rt i p l"
  for tables client rt i p l
proof (intro worker_loop_frame.intro worker_loop_frame_axioms.intro worker_jobs.intro worker_jobs_axioms.intro
    asks_backed.state_preorder_axioms asks_operations asks_processBacktest)
  show "op_Extractor (worker_options client rt i p l) = Some ext \<Longrightarrow> keeps asks_backed (ext x)"
    "op_MarketData (worker_options client rt i p l) = Some fetch \<Longrightarrow> keeps asks_backed (fetch request)"
    for ext fetch x request
    using asks_ExtractClaims asks_FetchSnapshot by (auto simp: worker_options_def)
qed

text \<open>
  The engine is only asked about committed research. After any number of iterations, whatever answers and
  faults the worker meets, every backtest request it has sent rests on the tables: it names a run, carries that
  run's cutoff and parameters, the spec of the run's own strategy and the storage key and checksum of the
  run's snapshot; and each of its signals is drawn, unchanged, from a claim that this strategy cites, is
  not neutral, trades a symbol of the strategy's universe, and took effect no later than the cutoff, so
  the engine never sees research from after it. (Meanwhile other processes may do what the store allows.)
\<close>

lemma engine_requests_backed:
  assumes "run_loop tables (worker_options client rt i p l) steps w = (logged, stopped, w')"
    and "\<forall>s \<in> set steps. \<forall>v. asks_backed v (snd s v)" and "schema_ok (w_db w)"
  shows "\<exists>sent. s_sent w' = s_sent w @ sent \<and> (\<forall>q \<in> set sent. backed (w_db w') q)"
proof -
  have "asks_backed w (snd (snd (run_loop tables (worker_options client rt i p l) steps w)))"
    by (rule asks_worker.run_loop_step [OF assms(2)])
  then show ?thesis using assms(1,3) by (simp add: asks_backed_def)
qed

end
