(* ===== verification/RankingSafety.thy ===== *)
theory RankingSafety
  imports WorkerLogic
begin

text \<open>No ranking a worker stores leaves the universe its strategy authorizes.\<close>

section \<open>Authorized rankings\<close>

definition authorized :: "db \<Rightarrow> bool" where
  "authorized d \<longleftrightarrow>
     (\<forall>c \<in> set (db_candidates d). \<exists>s \<in> set (db_strategies d). \<exists>universe.
        st_ID s = cnd_StrategyID c \<and> universe_symbols (st_Spec s) = Inr universe \<and> cnd_Symbol c \<in> set universe)"

definition stays_authorized :: "db \<Rightarrow> db \<Rightarrow> bool" where
  "stays_authorized d d' \<longleftrightarrow> (schema_ok d \<and> authorized d \<longrightarrow> schema_ok d' \<and> authorized d')"

lemma authorized_preorder: "db_preorder stays_authorized"
  by unfold_locales (simp_all add: stays_authorized_def)

interpretation authorized: db_preorder stays_authorized
  by (rule authorized_preorder)

interpretation authorized_world: state_preorder "on_db stays_authorized"
  by (rule state_preorder_on_db) (rule authorized.state_preorder_axioms)

lemma unchanged_authorized:
  assumes "store_step d d'" and "db_candidates d' = db_candidates d"
  shows "stays_authorized d d'"
  unfolding stays_authorized_def
proof (intro impI)
  assume d: "schema_ok d \<and> authorized d"
  then have d': "schema_ok d'" "set (db_strategies d) \<subseteq> set (db_strategies d')"
    using step_grows [OF assms(1)] by simp_all
  have "authorized d'"
    using d d'(2) unfolding authorized_def assms(2) by (meson subsetD)
  with d'(1) show "schema_ok d' \<and> authorized d'" ..
qed

lemma keeps_authorized:
  assumes "keeps (on_db store_step) f" and "keeps (on_db (same_view db_candidates)) f"
  shows "keeps (on_db stays_authorized) f"
  unfolding keeps_def on_db_def
proof
  fix w
  show "stays_authorized (w_db w) (w_db (snd (f w)))"
    using assms unchanged_authorized by (simp add: keeps_def on_db_def same_view_def)
qed


section \<open>Completing a run under its strategy\<close>

lemma run_unique:
  "schema_ok d \<Longrightarrow> r \<in> set (db_runs d) \<Longrightarrow> q \<in> set (db_runs d) \<Longrightarrow> run_ID r = run_ID q \<Longrightarrow> r = q"
  by (auto simp: schema_ok_def keys_ok_def distinct_map dest: inj_onD)

lemma candidate_strategy:
  assumes "schema_ok d" and "c \<in> set (db_candidates d)" and "r \<in> set (db_runs d)" and "cnd_RunID c = run_ID r"
  shows "cnd_StrategyID c = run_StrategyID r"
proof -
  have "(cnd_RunID c, cnd_StrategyID c) \<in> (\<lambda>r. (run_ID r, run_StrategyID r)) ` set (db_runs d)"
    using assms(1,2) by (auto simp: schema_ok_def refs_ok_def)
  then show ?thesis using run_unique [OF assms(1) assms(3)] assms(4) by auto
qed

lemma CompleteBacktest_authorized:
  assumes run: "CompleteBacktest (run_ID run) result key w = (r, w')"
    and k: "knows run s cs (w_db w)" and spec: "universe_symbols (st_Spec s) = Inr universe"
    and inside: "missing_symbols (candidate_symbols (res_Candidates result)) universe = []"
  shows "stays_authorized (w_db w) (w_db w')"
  unfolding stays_authorized_def
proof
  let ?d = "w_db w" and ?d' = "w_db w'"
  assume d: "schema_ok ?d \<and> authorized ?d"
  have "store_step ?d ?d'" by (rule keeps_on_db [OF CompleteBacktest_store run])
  then have d': "schema_ok ?d'" and k': "knows run s cs ?d'"
    using d knows_later [OF k] by (simp_all add: store_step_def)
  have strategies: "set (db_strategies ?d) \<subseteq> set (db_strategies ?d')"
    using step_grows [OF \<open>store_step ?d ?d'\<close>] d by simp
  consider "?d' = ?d"
    | row where "row \<in> set (db_runs ?d)" "uuid_in (run_ID run) = Inr (run_ID row)"
        "list_all2 (candidate_stored ?d' (run_ID row) (cs_AsOf (res_Candidates result)))
          (cs_Positions (res_Candidates result)) (filter (\<lambda>c. cnd_RunID c = run_ID row) (db_candidates ?d'))"
        "filter (\<lambda>c. cnd_RunID c \<noteq> run_ID row) (db_candidates ?d') = filter (\<lambda>c. cnd_RunID c \<noteq> run_ID row) (db_candidates ?d)"
    using complete_backtest_cases [OF run] d by blast
  then show "schema_ok ?d' \<and> authorized ?d'"
  proof cases
    case 2
    have ids: "run_ID row = run_ID run" using 2(2) k by (simp add: knows_def)
    have "\<exists>s \<in> set (db_strategies ?d'). \<exists>u. st_ID s = cnd_StrategyID c \<and> universe_symbols (st_Spec s) = Inr u \<and> cnd_Symbol c \<in> set u"
      if c: "c \<in> set (db_candidates ?d')" for c
    proof (cases "cnd_RunID c = run_ID row")
      case True
      then have "c \<in> set (filter (\<lambda>c. cnd_RunID c = run_ID row) (db_candidates ?d'))" using c by simp
      then obtain p where "p \<in> set (cs_Positions (res_Candidates result))" "cnd_Symbol c = cp_Symbol p"
        using list_all2_row [OF 2(3)] by (auto simp: candidate_stored_def)
      then have "cnd_Symbol c \<in> set universe"
        using inside by (auto simp: missing_symbols_Nil candidate_symbols_def)
      moreover obtain q where "q \<in> set (db_runs ?d')" "same_run run q" using k' by (auto simp: knows_def)
      then have "cnd_StrategyID c = run_StrategyID run"
        using candidate_strategy [OF d' c, of q] True ids by (simp add: same_run_def)
      ultimately show ?thesis using k' spec by (auto simp: knows_def)
    next
      case False
      then have "c \<in> set (filter (\<lambda>c. cnd_RunID c \<noteq> run_ID row) (db_candidates ?d'))" using c by simp
      then have "c \<in> set (filter (\<lambda>c. cnd_RunID c \<noteq> run_ID row) (db_candidates ?d))" by (simp only: 2(4))
      then show ?thesis using d strategies unfolding authorized_def by (meson filter_is_subset subsetD)
    qed
    then show ?thesis using d' by (simp add: authorized_def)
  qed (use d in simp)
qed

section \<open>Every iteration\<close>

text \<open>The store's discipline and the authorization together.\<close>

definition disciplined :: "'x world_scheme \<Rightarrow> 'x world_scheme \<Rightarrow> bool" where
  "disciplined w w' \<longleftrightarrow> store_step (w_db w) (w_db w') \<and> stays_authorized (w_db w) (w_db w')"

interpretation disciplined: state_preorder disciplined
  by unfold_locales (auto simp: disciplined_def store.R_refl authorized.R_refl intro: store.R_trans authorized.R_trans)

lemma keeps_disciplined:
  assumes "keeps (on_db store_step) f" and "keeps (on_db (same_view db_candidates)) f"
  shows "keeps disciplined f"
  using assms keeps_authorized [OF assms] by (simp add: keeps_def disciplined_def on_db_def)

lemma disciplined_operations:
  "keeps disciplined (GetDocument i)" "keeps disciplined (SetDocumentStatus i s)"
  "keeps disciplined (ReplaceExtraction i e)" "keeps disciplined (InsertMarketDataSnapshot m)"
  "keeps disciplined (GetBacktestRun i)" "keeps disciplined (GetStrategyWithCitations i)"
  "keeps disciplined (GetMarketDataSnapshot i)"
  "keeps disciplined (LeaseNextJob worker dur)" "keeps disciplined (CompleteJob i)" "keeps disciplined (FailJob j cause)"
  by (rule keeps_disciplined, rule effects, rule candidates.operations queue_candidates)+

lemma disciplined_status: "s \<noteq> ''completed'' \<Longrightarrow> keeps disciplined (SetBacktestStatus i s)"
  by (rule keeps_disciplined [OF SetBacktestStatus_store candidates.operations(7)])

interpretation disciplined_base: base_frame disciplined
  by (intro base_frame.intro disciplined.state_preorder_axioms base_frame_axioms.intro disciplined_operations)
    (simp add: disciplined_def same_base_def store.R_refl authorized.R_refl)

lemma disciplined_CompleteBacktest:
  assumes "knows run s cs (w_db w)" and "universe_symbols (st_Spec s) = Inr universe"
    and "missing_symbols (candidate_symbols (res_Candidates result)) universe = []"
  shows "disciplined w (snd (CompleteBacktest (run_ID run) result key w))"
proof -
  obtain r w' where run: "CompleteBacktest (run_ID run) result key w = (r, w')" by fastforce
  show ?thesis
    using CompleteBacktest_authorized [OF run assms] keeps_on_db [OF CompleteBacktest_store run] run
    by (simp add: disciplined_def)
qed

interpretation disciplined_logic: backtest_logic disciplined tables "RunBacktest client" "ArtifactStore_Save rt"
  for tables client rt
proof (intro backtest_logic.intro disciplined.state_preorder_axioms backtest_logic_axioms.intro disciplined_operations)
  show "disciplined w w' \<Longrightarrow> store_step (w_db w) (w_db w')" for w w' :: "'a site_scheme"
    by (simp add: disciplined_def)
  show "keeps disciplined (ArtifactStore_Save rt content)" for content
    by (rule keeps_weaken [OF ArtifactStore_base disciplined_base.base])
  show "disciplined w (snd (RunBacktest client question w))" for w :: "'a site_scheme" and question
    using RunBacktest_base [of client question] disciplined_base.base unfolding keeps_def by blast
qed (simp_all add: disciplined_status disciplined_CompleteBacktest)

lemma processBacktest_disciplined:
  "keeps disciplined (processBacktest tables (worker_options client rt i p l) j)"
  unfolding keeps_def
proof
  fix w :: "'a site_scheme"
  let ?f = "processBacktest tables (worker_options client rt i p l) j"
  obtain r w' where f: "?f w = (r, w')" by fastforce
  show "disciplined w (snd (?f w))"
  proof (cases "schema_ok (w_db w)")
    case True
    have "leads disciplined schema_ok ?f (\<lambda>_ _. True)"
      by (rule disciplined_logic.leads_processBacktest) (simp_all add: worker_options_def)
    from leadsD [where P = schema_ok, OF this True f] show ?thesis using f by simp
  next
    case False
    then show ?thesis
      using keeps_on_db [OF worker_store_jobs.keeps_processBacktest f] f
      by (simp add: disciplined_def store_step_def stays_authorized_def)
  qed
qed

interpretation disciplined_worker: worker_loop_frame disciplined tables "worker_options client rt i p l"
  for tables client rt i p l
  by (intro worker_loop_frame.intro worker_loop_frame_axioms.intro worker_jobs.intro worker_jobs_axioms.intro
      disciplined.state_preorder_axioms disciplined_operations processBacktest_disciplined disciplined_base.services)
    assumption+

text \<open>
  A stored ranking never leaves the universe its strategy authorizes. However long a worker runs, whatever
  the quant service answers, the disk and the connection do, and whatever else happens to the tables while
  it waits, provided that keeps to the same: every candidate stands for a symbol of the universe that
  \<open>UniverseSymbols\<close> reads from its own strategy's spec, and the tables stay sound.
\<close>

lemma candidates_authorized:
  assumes "run_loop tables (worker_options client rt i p l) steps w = (logged, stopped, w')"
    and "\<forall>s \<in> set steps. \<forall>v. disciplined v (snd s v)"
    and "schema_ok (w_db w)" and "authorized (w_db w)"
  shows "schema_ok (w_db w') \<and> authorized (w_db w')"
proof -
  have "disciplined w (snd (snd (run_loop tables (worker_options client rt i p l) steps w)))"
    by (rule disciplined_worker.run_loop_step [OF assms(2)])
  then show ?thesis using assms(1,3,4) by (simp add: disciplined_def stays_authorized_def)
qed

section \<open>At concrete tables\<close>

lemma ranked_authorized: "authorized ranked_db"
proof -
  have "universe_symbols sample_universe = Inr [''SPY'']" unfolding sample_universe_def by code_simp
  then show ?thesis by (simp add: authorized_def ranked_db_def sample_db_def sample_candidate_def)
qed

end
