(* ===== verification/ServiceFrames.thy ===== *)
theory ServiceFrames
  imports EngineRequests RankingSafety
begin

text \<open>What the services of the API leave alone: files away from the tables, store operations within theirs.\<close>

section \<open>Files away from the tables\<close>

lemma lw_write_same: "lw_write data lw w = (r, w') \<Longrightarrow> same_store w w'"
  by (auto simp: lw_write_def multi_write_def Let_def same_store.R_refl split: prod.splits option.splits if_splits
      dest!: write_file_same)

lemma io_copy_same: "io_copy r lw w = (res, w') \<Longrightarrow> same_store w w'"
proof (induction r lw w arbitrary: res w' rule: io_copy.induct)
  case (1 r lw w)
  show ?case
  proof (cases "rd_Bytes r = []")
    case True
    then show ?thesis using 1(2) by (simp add: io_copy.simps [of r] same_store.R_refl)
  next
    case False
    obtain n e lw1 w1 where l: "lw_write (fst (read_some copy_buffer r)) lw w = ((n, e, lw1), w1)" by (metis prod.collapse)
    have w1: "same_store w w1" by (rule lw_write_same [OF l])
    show ?thesis
    proof (cases e)
      case None
      then have "io_copy (snd (read_some copy_buffer r)) lw1 w1 = (res, w')"
        using 1(2) False l by (simp add: io_copy.simps [of r])
      then have "same_store w1 w'" using 1(1) [OF False l [symmetric]] None by (cases res) simp
      with w1 show ?thesis by (rule same_store.R_trans)
    next
      case (Some a)
      then show ?thesis using 1(2) False l w1 by (simp add: io_copy.simps [of r])
    qed
  qed
qed

lemma ignoring_same: "keeps same_store a \<Longrightarrow> keeps same_store b \<Longrightarrow> keeps same_store (ignoring a b)"
  by (rule ignoring_keeps [OF same_store.state_preorder_axioms])

lemmas disk_rules = same_store.keeps_intros os_keeps ignoring_same

lemma write_upload_same: "keeps same_store (write_upload store source temporary :: ('x site_scheme, limited_writer) act)"
proof -
  have fails: "same_store w (snd (ignoring os_call (fail e :: ('x site_scheme, limited_writer) act) w1))"
    if "same_store w w1" for w w1 :: "'x site_scheme" and e
    using ignoring_same [OF os_call_same same_store.keeps_fail, unfolded keeps_def] that same_store.R_trans by blast
  have "keeps same_store (write_header header lw :: ('x site_scheme, limited_writer) act)" for header lw
    by (auto simp: keeps_def write_header_def split: prod.split option.split intro!: fails dest!: lw_write_same)
  moreover have "keeps same_store (write_rest rest lw :: ('x site_scheme, limited_writer) act)" for rest lw
    unfolding keeps_def write_rest_def
    by (auto split: prod.split option.split simp del: if_split_asm intro: fails dest!: io_copy_same)
  ultimately show ?thesis
    unfolding write_upload_def by (auto intro!: disk_rules split: prod.split option.split)
qed

lemma document_path_same: "keeps same_store (FileStore_pathFor store key)"
  unfolding FileStore_pathFor_def Let_def by (auto intro!: disk_rules split: sum.split)

lemma FileStore_Save_same: "keeps same_store (FileStore_Save store source)"
  unfolding FileStore_Save_def store_upload_def randomName_def Let_def
  by (auto intro!: disk_rules write_upload_same document_path_same split: sum.split)

lemma FileStore_Delete_same: "keeps same_store (FileStore_Delete store key)"
  unfolding FileStore_Delete_def by (auto intro!: disk_rules document_path_same split: sum.split)

section \<open>Services\<close>

text \<open>A preorder that looks neither at files nor at the disk's faults, and holds across the API's store operations.\<close>

locale service_frame = state_preorder R for R :: "'x site_scheme \<Rightarrow> 'x site_scheme \<Rightarrow> bool" +
  assumes disk: "same_store w w' \<Longrightarrow> R w w'"
    and stored: "keeps R (CreateDocumentWithExtractionJob d)" "keeps R (GetDocument i)" "keeps R (ListClaimsByDocument i)"
      "keeps R (GetClaimsByIDs ids)" "keeps R (SetClaimValidationStatus i status)" "keeps R (CreateStrategyWithCitations c)"
      "keeps R ListStrategies" "keeps R (GetStrategyWithCitations i)" "keeps R (create_market_data_job request)"
      "keeps R ListMarketDataSnapshots" "keeps R (GetMarketDataSnapshot i)" "keeps R (CreateBacktestWithRunJob b)"
      "keeps R (GetBacktestRun i)" "keeps R (ListCandidates f)"
begin

lemma keeps_Upload: "keeps R (Upload files input)"
proof -
  have "keeps R (FileStore_Save files r)" "keeps R (FileStore_Delete files key)" for r key
    by (rule keeps_weaken [OF FileStore_Save_same disk] keeps_weaken [OF FileStore_Delete_same disk], assumption)+
  then show ?thesis
    unfolding Upload_def createDocument_def
    by (auto intro!: keeps_intros stored ignoring_keeps state_preorder_axioms split: sum.split prod.split)
qed

lemma keeps_Draft: "keeps R (StrategyService_Draft ul input)"
proof -
  have "keeps R (draft_claims_of_documents is claims)" for "is" claims
    by (induction "is" arbitrary: claims) (auto intro!: keeps_intros stored)
  then show ?thesis
    unfolding StrategyService_Draft_def draft_claims_by_ids_def by (auto intro!: keeps_intros stored split: sum.split)
qed

lemma keeps_services:
  "keeps R (Upload files input)" "keeps R (DocumentService_Get i)" "keeps R (StrategyService_Draft ul drafted)"
  "keeps R (StrategyService_Create asked)" "keeps R StrategyService_List" "keeps R (StrategyService_Get i)"
  "keeps R (RequestSnapshot request)" "keeps R MarketDataService_List" "keeps R (MarketDataService_Get i)"
  unfolding DocumentService_Get_def StrategyService_Create_def StrategyService_List_def StrategyService_Get_def
    RequestSnapshot_def MarketDataService_List_def MarketDataService_Get_def Let_def
  by (auto intro!: keeps_intros stored keeps_Upload keeps_Draft split: option.split sum.split)

end

text \<open>Every operation of the store follows its discipline and leaves the rest of the world alone.\<close>

lemma asks_stored:
  "keeps asks_backed (CreateDocumentWithExtractionJob d)" "keeps asks_backed (GetDocument i)"
  "keeps asks_backed (ListClaimsByDocument i)" "keeps asks_backed (GetClaimsByIDs ids)"
  "keeps asks_backed (SetClaimValidationStatus i status)" "keeps asks_backed (CreateStrategyWithCitations c)"
  "keeps asks_backed ListStrategies" "keeps asks_backed (GetStrategyWithCitations i)"
  "keeps asks_backed (create_market_data_job request)" "keeps asks_backed ListMarketDataSnapshots"
  "keeps asks_backed (GetMarketDataSnapshot i)" "keeps asks_backed (CreateBacktestWithRunJob b)"
  "keeps asks_backed (GetBacktestRun i)" "keeps asks_backed (ListCandidates f)"
  by (rule store_asks, rule effects, rule same_rest.frame_operations)+

interpretation asks_services: service_frame asks_backed
  by (intro service_frame.intro service_frame_axioms.intro asks_backed.state_preorder_axioms asks_stored same_store_asks)

text \<open>None of them touches the candidates.\<close>

lemma candidate_statements:
  "keeps (same_view db_candidates) (insert_document_stmt input)" "keeps (same_view db_candidates) (document_by_sha_stmt sha)"
  "keeps (same_view db_candidates) (review_claim_stmt i status)" "keeps (same_view db_candidates) (insert_job_stmt t p)"
  "keeps (same_view db_candidates) (insert_run_stmt b m)" "keeps (same_view db_candidates) (accepted_count_stmt ids)"
  "keeps (same_view db_candidates) (insert_strategy_stmt c)" "keeps (same_view db_candidates) (insert_citations_stmt i ids)"
  unfolding insert_document_stmt_def document_by_sha_stmt_def review_claim_stmt_def insert_job_stmt_def insert_run_stmt_def
    accepted_count_stmt_def insert_strategy_stmt_def insert_citations_stmt_def Let_def
  by (auto intro!: candidates.atoms)+

lemma candidate_operations:
  "keeps (on_db (same_view db_candidates)) (CreateDocumentWithExtractionJob d)" "keeps (on_db (same_view db_candidates)) (GetDocument i)"
  "keeps (on_db (same_view db_candidates)) (ListClaimsByDocument i)" "keeps (on_db (same_view db_candidates)) (GetClaimsByIDs ids)"
  "keeps (on_db (same_view db_candidates)) (SetClaimValidationStatus i status)"
  "keeps (on_db (same_view db_candidates)) (CreateStrategyWithCitations c)" "keeps (on_db (same_view db_candidates)) ListStrategies"
  "keeps (on_db (same_view db_candidates)) (GetStrategyWithCitations i)"
  "keeps (on_db (same_view db_candidates)) (create_market_data_job request)"
  "keeps (on_db (same_view db_candidates)) ListMarketDataSnapshots" "keeps (on_db (same_view db_candidates)) (GetMarketDataSnapshot i)"
  "keeps (on_db (same_view db_candidates)) (CreateBacktestWithRunJob b)"
  "keeps (on_db (same_view db_candidates)) (GetBacktestRun i)" "keeps (on_db (same_view db_candidates)) (ListCandidates f)"
  unfolding CreateDocumentWithExtractionJob_def ListClaimsByDocument_def GetClaimsByIDs_def SetClaimValidationStatus_def
    CreateStrategyWithCitations_def ListStrategies_def create_market_data_job_def ListMarketDataSnapshots_def
    CreateBacktestWithRunJob_def insert_job_def ListCandidates_def attachCandidateEvidence_def
  by (auto intro!: view_rules view.keeps_convert candidate_statements candidates.found candidates.operations split: option.split sum.split)

lemma disciplined_stored:
  "keeps disciplined (CreateDocumentWithExtractionJob d)" "keeps disciplined (GetDocument i)"
  "keeps disciplined (ListClaimsByDocument i)" "keeps disciplined (GetClaimsByIDs ids)"
  "keeps disciplined (SetClaimValidationStatus i status)" "keeps disciplined (CreateStrategyWithCitations c)"
  "keeps disciplined ListStrategies" "keeps disciplined (GetStrategyWithCitations i)"
  "keeps disciplined (create_market_data_job request)" "keeps disciplined ListMarketDataSnapshots"
  "keeps disciplined (GetMarketDataSnapshot i)" "keeps disciplined (CreateBacktestWithRunJob b)"
  "keeps disciplined (GetBacktestRun i)" "keeps disciplined (ListCandidates f)"
  by (rule keeps_disciplined, rule effects, rule candidate_operations)+

interpretation disciplined_services: service_frame disciplined
  by (intro service_frame.intro service_frame_axioms.intro disciplined.state_preorder_axioms disciplined_stored
      disciplined_base.base same_store_base)

end
