(* ===== verification/HttpSafety.thy ===== *)
theory HttpSafety
  imports HttpApi ServiceFrames
begin

text \<open>Handlers within a relation on worlds, the interface of the API's services, and that reading changes nothing.\<close>

section \<open>Ids\<close>

text \<open>What the API takes for a UUID, the database takes too.\<close>

lemma validUUID_dashed:
  assumes "validUUID s"
  shows "\<exists>ds. s = dashed ds \<and> length ds = 32 \<and> list_all hex_digit ds"
proof -
  obtain a0 a1 a2 a3 a4 a5 a6 a7 m0 b0 b1 b2 b3 m1 c0 c1 c2 c3 m2 d0 d1 d2 d3 m3 e0 e1 e2 e3 e4 e5 e6 e7 e8 e9 ea eb where
    s: "s = [a0, a1, a2, a3, a4, a5, a6, a7, m0, b0, b1, b2, b3, m1, c0, c1, c2, c3, m2, d0, d1, d2, d3, m3,
      e0, e1, e2, e3, e4, e5, e6, e7, e8, e9, ea, eb]"
    using assms by (auto simp: validUUID_def numeral_eq_Suc length_Suc_conv)
  let ?ds = "[a0, a1, a2, a3, a4, a5, a6, a7, b0, b1, b2, b3, c0, c1, c2, c3, d0, d1, d2, d3,
      e0, e1, e2, e3, e4, e5, e6, e7, e8, e9, ea, eb]"
  have "s = dashed ?ds" "list_all hex_digit ?ds"
    using assms unfolding s by (simp_all add: validUUID_def dashed_def)
  then show ?thesis by (intro exI [of _ ?ds]) simp
qed

lemma validUUID_reads: "validUUID s \<Longrightarrow> \<exists>u. uuid_in s = Inr u"
  using validUUID_dashed uuid_in_dashed by blast

section \<open>Handlers within a relation\<close>

lemma find_in: "find P xs = Some x \<Longrightarrow> x \<in> set xs"
  by (induction xs) (auto split: if_splits)

definition serves :: "('w \<Rightarrow> 'w \<Rightarrow> bool) \<Rightarrow> 'w handler \<Rightarrow> bool" where
  "serves R h \<longleftrightarrow> (\<forall>w. R w (snd (h w)))"

context state_preorder begin

lemma serves_answer: "serves R (answer r)"
  by (simp add: serves_def answer_def R_refl)

lemma serves_calling: "keeps R f \<Longrightarrow> (\<And>r. serves R (k r)) \<Longrightarrow> serves R (calling f k)"
  unfolding serves_def keeps_def calling_def by (auto split: prod.split) (metis R_trans snd_conv)

lemma serves_lookup: "keeps R f \<Longrightarrow> (\<And>x. serves R (k x)) \<Longrightarrow> serves R (lookup f missing failed k)"
  unfolding lookup_def by (auto intro!: serves_calling serves_answer split: sum.split)

lemma serves_withRequestID: "serves R (h request) \<Longrightarrow> serves R (withRequestID h request)"
  by (auto simp: serves_def withRequestID_def Let_def split: prod.split) (metis snd_conv)

lemma serves_mux_routes:
  "(\<And>pattern h. (pattern, h) \<in> set table \<Longrightarrow> serves R (h request)) \<Longrightarrow> serves R (serve_mux table request)"
  unfolding serve_mux_def Let_def
  by (auto intro: serves_answer dest: find_in split: option.split)

lemmas serves_intros = serves_answer serves_calling serves_lookup

end

section \<open>The interface of the API\<close>

text \<open>
  A preorder that every service stays within, as far as requests of this method reach it: then answering
  such a request does.
\<close>

locale api_frame = state_preorder R
  for R :: "'w \<Rightarrow> 'w \<Rightarrow> bool" and tables :: rune_tables and opts :: "'w api_options" and verb :: string +
  assumes documents: "ao_Documents opts = Some ds \<Longrightarrow> verb = ''POST'' \<Longrightarrow> keeps R (up_Upload ds input)"
      "ao_Documents opts = Some ds \<Longrightarrow> keeps R (up_Get ds i)"
    and claims: "ao_Claims opts = Some cs \<Longrightarrow> keeps R (cl_ListClaimsByDocument cs i)"
      "ao_Claims opts = Some cs \<Longrightarrow> verb = ''PATCH'' \<Longrightarrow> keeps R (cl_SetClaimValidationStatus cs i status)"
    and strategies: "ao_Strategies opts = Some ss \<Longrightarrow> verb = ''POST'' \<Longrightarrow> keeps R (sv_Draft ss drafted)"
      "ao_Strategies opts = Some ss \<Longrightarrow> verb = ''POST'' \<Longrightarrow> keeps R (sv_Create ss created)"
      "ao_Strategies opts = Some ss \<Longrightarrow> keeps R (sv_List ss)" "ao_Strategies opts = Some ss \<Longrightarrow> keeps R (sv_Get ss i)"
    and market_data: "ao_MarketData opts = Some ms \<Longrightarrow> verb = ''POST'' \<Longrightarrow> keeps R (md_RequestSnapshot ms wanted)"
      "ao_MarketData opts = Some ms \<Longrightarrow> keeps R (md_List ms)" "ao_MarketData opts = Some ms \<Longrightarrow> keeps R (md_Get ms i)"
    and backtesting: "ao_Backtests opts = Some bs \<Longrightarrow> verb = ''POST'' \<Longrightarrow> keeps R (bk_Create bs b)"
      "ao_Backtests opts = Some bs \<Longrightarrow> keeps R (bk_Get bs i)"
    and ranking: "ao_Candidates opts = Some ranked \<Longrightarrow> keeps R (ranked f)"
begin

lemmas services = documents claims strategies market_data backtesting ranking

lemma serves_documents: "hr_Method request = verb \<Longrightarrow> serves R (documents_handler opts request)"
  unfolding documents_handler_def upload_file_def Let_def
  by (auto intro!: serves_intros services split: sum.split option.split form_result.split)

lemma serves_documentByID: "hr_Method request = verb \<Longrightarrow> serves R (documentByID opts request)"
  unfolding documentByID_def documentClaims_def Let_def
  by (auto intro!: serves_intros services split: sum.split option.split prod.split bool.split)

lemma serves_claimByID: "hr_Method request = verb \<Longrightarrow> serves R (claimByID opts request)"
  unfolding claimByID_def Let_def by (auto intro!: serves_intros services split: sum.split option.split)

lemma serves_strategies: "hr_Method request = verb \<Longrightarrow> serves R (strategies_handler tables opts request)"
  unfolding strategies_handler_def createStrategy_def listStrategies_def Let_def
  by (auto intro!: serves_intros services split: sum.split option.split)

lemma serves_strategySubpath: "hr_Method request = verb \<Longrightarrow> serves R (strategySubpath tables opts request)"
  unfolding strategySubpath_def draftStrategy_def strategyByID_def Let_def
  by (auto intro!: serves_intros services split: sum.split option.split prod.split)

lemma serves_marketDataSnapshots: "hr_Method request = verb \<Longrightarrow> serves R (marketDataSnapshots tables opts request)"
  unfolding marketDataSnapshots_def requestMarketDataSnapshot_def listMarketDataSnapshots_def Let_def
  by (auto intro!: serves_intros services split: sum.split option.split)

lemma serves_backtests: "hr_Method request = verb \<Longrightarrow> serves R (backtests opts request)"
  unfolding backtests_def ask_backtest_def create_backtest_def Let_def
  by (auto intro!: serves_intros services split: sum.split option.split prod.split)

lemma serves_lookups:
  "hr_Method request = verb \<Longrightarrow> serves R (healthz opts request)"
  "hr_Method request = verb \<Longrightarrow> serves R (marketDataSnapshotByID opts request)"
  "hr_Method request = verb \<Longrightarrow> serves R (backtestByID opts request)"
  "hr_Method request = verb \<Longrightarrow> serves R (candidates_handler opts request)"
  unfolding healthz_def marketDataSnapshotByID_def backtestByID_def candidates_handler_def Let_def
  by (auto intro!: serves_intros services split: sum.split option.split)

lemmas serves_handlers = serves_documents serves_documentByID serves_claimByID serves_strategies serves_strategySubpath
  serves_marketDataSnapshots serves_backtests serves_lookups

lemma serves_api:
  assumes "hr_Method request = verb"
  shows "serves R (NewHandler tables opts request)"
  unfolding NewHandler_def
proof (intro serves_withRequestID serves_mux_routes)
  fix pattern h
  assume "(pattern, h) \<in> set (routes tables opts)"
  then show "serves R (h request)" using serves_handlers [OF assms] by (auto simp: routes_def)
qed

end

section \<open>The services of cmd/api\<close>

context service_frame begin

lemma served: "api_frame R (served_options tables version rt most) verb"
  by (intro api_frame.intro state_preorder_axioms api_frame_axioms.intro)
    (auto simp: served_options_def Let_def intro: keeps_services stored)

end

section \<open>Reading changes nothing\<close>

definition read_only :: "'x site_scheme \<Rightarrow> 'x site_scheme \<Rightarrow> bool" where
  "read_only w w' \<longleftrightarrow> w_db w' = w_db w \<and> w_clock w' = w_clock w \<and> same_disk w w'"

interpretation read_only: state_preorder read_only
  by unfold_locales (auto simp: read_only_def same_disk_def)

definition whole :: "db \<Rightarrow> db" where
  "whole d = d"

lemma keeps_read_only:
  assumes "keeps (on_db (same_view whole)) f" and "keeps same_rest f"
  shows "keeps read_only f"
  using assms by (auto simp: keeps_def read_only_def on_db_def same_view_def whole_def same_rest_def
      intro!: same_rest_disk [unfolded same_rest_def])

lemma whole_one_row: "keeps (same_view whole) (one_row x)"
  by (auto simp: one_row_def intro: view.keeps_intros split: option.split)

lemma reading_statements_whole:
  "keeps (same_view whole) (document_by_id_stmt i)" "keeps (same_view whole) (run_by_id_stmt i)"
  "keeps (same_view whole) (strategy_by_id_stmt i)" "keeps (same_view whole) (snapshot_by_id_stmt i)"
  unfolding document_by_id_stmt_def run_by_id_stmt_def strategy_by_id_stmt_def snapshot_by_id_stmt_def
  by (intro view.keeps_and_then view.keeps_convert view.keeps_read_db whole_one_row)+

lemma found_whole: "keeps (same_view whole) s \<Longrightarrow> keeps (on_db (same_view whole)) (found_or m (pg_exec s))"
  unfolding found_or_def by (auto intro!: view_rules split: sum.split)

lemma reading_whole:
  "keeps (on_db (same_view whole)) (GetDocument i)" "keeps (on_db (same_view whole)) (ListClaimsByDocument i)"
  "keeps (on_db (same_view whole)) ListStrategies" "keeps (on_db (same_view whole)) (GetStrategyWithCitations i)"
  "keeps (on_db (same_view whole)) (GetMarketDataSnapshot i)" "keeps (on_db (same_view whole)) ListMarketDataSnapshots"
  "keeps (on_db (same_view whole)) (GetBacktestRun i)" "keeps (on_db (same_view whole)) (ListCandidates f)"
  unfolding GetDocument_def ListClaimsByDocument_def ListStrategies_def GetStrategyWithCitations_def GetMarketDataSnapshot_def
    ListMarketDataSnapshots_def GetBacktestRun_def ListCandidates_def attachCandidateEvidence_def
  by (auto intro!: view_rules found_whole reading_statements_whole)

lemma reading_only:
  "keeps read_only (DocumentService_Get i)" "keeps read_only (ListClaimsByDocument i)" "keeps read_only StrategyService_List"
  "keeps read_only (StrategyService_Get i)" "keeps read_only (MarketDataService_Get i)" "keeps read_only MarketDataService_List"
  "keeps read_only (GetBacktestRun i)" "keeps read_only (ListCandidates f)"
  unfolding DocumentService_Get_def StrategyService_List_def StrategyService_Get_def MarketDataService_Get_def
    MarketDataService_List_def
  by (rule keeps_read_only, rule reading_whole, rule same_rest.frame_operations)+

lemma reading_frame:
  assumes "verb \<notin> {''POST'', ''PATCH''}"
  shows "api_frame read_only (served_options tables version rt most) verb"
proof (intro api_frame.intro read_only.state_preorder_axioms api_frame_axioms.intro)
qed (use assms in \<open>auto simp: served_options_def Let_def intro: reading_only\<close>)

text \<open>A \<open>GET\<close> in particular, for every configuration of \<open>cmd/api\<close>.\<close>

interpretation getting: api_frame read_only tables "served_options tables version rt most" "''GET''" for tables version rt most
  by (rule reading_frame) simp

text \<open>
  C24 Reading is safe. A request that is neither a \<open>POST\<close> nor a \<open>PATCH\<close>, to whatever path and with whatever
  body, changes no row, no file and asks the quant service nothing, whatever faults the connection has.
\<close>

theorem reading_changes_nothing:
  fixes w :: "'x site_scheme"
  assumes "hr_Method request \<notin> {''POST'', ''PATCH''}"
    and "NewHandler tables (served_options tables version rt most) request w = (r, w')"
  shows "w_db w' = w_db w \<and> s_files w' = s_files w \<and> s_sent w' = s_sent w"
proof -
  have "serves read_only (NewHandler tables (served_options tables version rt most) request :: 'x site_scheme handler)"
    by (rule api_frame.serves_api [OF reading_frame [OF assms(1)] refl])
  from this [unfolded serves_def, rule_format, of w] assms(2) show ?thesis
    by (simp add: read_only_def same_disk_def)
qed

definition get_request :: "string \<Rightarrow> http_request" where
  "get_request path = \<lparr>hr_Method = ''GET'', hr_Path = path, hr_RequestID = [], hr_RawQuery = [], hr_Query = [], hr_QueryError = False,
     hr_Body = \<lparr>hb_Value = NoBytes, hb_Bytes = 0, hb_Multipart = False, hb_Length = 0, hb_Form = Inl 0\<rparr>\<rparr>"

theorem reading_changes_nothing_witness:
  "\<exists>r w'. NewHandler plain_tables (served_options plain_tables ''dev'' ''/srv'' 20971520) (get_request ''/v1/candidates'')
       (sample_site ranked_db) = (r, w')
     \<and> w_db w' = w_db (sample_site ranked_db) \<and> s_files w' = s_files (sample_site ranked_db)
     \<and> s_sent w' = s_sent (sample_site ranked_db)"
proof -
  obtain r w' where run: "NewHandler plain_tables (served_options plain_tables ''dev'' ''/srv'' 20971520)
      (get_request ''/v1/candidates'') (sample_site ranked_db) = (r, w')" by fastforce
  from reading_changes_nothing [OF _ run] show ?thesis using run by (simp add: get_request_def)
qed

end
