(* ===== verification/HttpResponses.thy ===== *)
theory HttpResponses
  imports HttpSafety
begin

text \<open>What the API answers: the shape of its responses, and that its routes do not overlap.\<close>

section \<open>Responses\<close>

definition error_statuses :: "int list" where
  "error_statuses = [400, 404, 405, 409, 413, 422, 500, 503]"

text \<open>
  A body goes with its statuses; an \<open>Allow\<close> header with 405 and a \<open>Location\<close> with a redirect, and only with those.
\<close>

definition lawful :: "http_response \<Rightarrow> bool" where
  "lawful r \<longleftrightarrow>
     (case rs_Body r of
        NoBody \<Rightarrow> rs_Status r \<in> {307, 404}
      | ErrorBody error message \<Rightarrow> rs_Status r \<in> set error_statuses \<and> error \<noteq> []
      | DocumentBody d \<Rightarrow> rs_Status r \<in> {200, 202}
      | BacktestBody b \<Rightarrow> rs_Status r \<in> {200, 202}
      | StrategyBody s \<Rightarrow> rs_Status r \<in> {200, 201}
      | JobBody j \<Rightarrow> rs_Status r = 202
      | _ \<Rightarrow> rs_Status r = 200)
     \<and> (rs_Allow r \<noteq> None \<longleftrightarrow> rs_Status r = 405) \<and> (rs_Location r \<noteq> None \<longleftrightarrow> rs_Status r = 307)"

definition answers :: "(http_response \<Rightarrow> bool) \<Rightarrow> 'w handler \<Rightarrow> bool" where
  "answers P h \<longleftrightarrow> (\<forall>w. P (fst (h w)))"

lemma answers_answer: "P r \<Longrightarrow> answers P (answer r)"
  by (simp add: answers_def answer_def)

lemma answers_calling: "(\<And>r. answers P (k r)) \<Longrightarrow> answers P (calling f k)"
  by (simp add: answers_def calling_def split: prod.split)

lemma answers_lookup: "P missing \<Longrightarrow> P failed \<Longrightarrow> (\<And>x. answers P (k x)) \<Longrightarrow> answers P (lookup f missing failed k)"
  unfolding lookup_def by (auto intro!: answers_calling answers_answer split: sum.split)

lemmas answers_intros = answers_answer answers_calling answers_lookup

lemma lawful_error: "status \<in> set error_statuses \<Longrightarrow> status \<noteq> 405 \<Longrightarrow> error \<noteq> [] \<Longrightarrow> lawful (writeError status error message)"
  by (auto simp: lawful_def writeError_def writeJSON_def error_statuses_def)

lemma lawful_method: "lawful (methodNotAllowed allowed)"
  by (simp add: lawful_def methodNotAllowed_def writeError_def writeJSON_def error_statuses_def)

lemma lawful_json:
  "lawful (writeJSON 404 NoBody)" "lawful (redirect request p)" "lawful (writeJSON 200 (HealthBody v))"
  "lawful (writeJSON 200 (ClaimsBody cs))" "lawful (writeJSON 200 (ClaimBody c))" "lawful (writeJSON 200 (StrategiesBody ss))"
  "lawful (writeJSON 200 (DraftBody sp cs))" "lawful (writeJSON 200 (SnapshotBody s))" "lawful (writeJSON 200 (SnapshotsBody sns))"
  "lawful (writeJSON 200 (CandidatesBody ks))" "lawful (writeJSON 202 (JobBody j))"
  "status \<in> {200, 202} \<Longrightarrow> lawful (writeJSON status (DocumentBody d))"
  "status \<in> {200, 202} \<Longrightarrow> lawful (writeJSON status (BacktestBody b))"
  "status \<in> {200, 201} \<Longrightarrow> lawful (writeJSON status (StrategyBody st))"
  by (auto simp: lawful_def writeJSON_def redirect_def)

lemmas lawful_responses = lawful_error lawful_method lawful_json

lemma lawful_uploads: "lawful (writeUploadError e)" "lawful document_missing"
  by (auto simp: writeUploadError_def document_missing_def intro!: lawful_responses) (simp_all add: error_statuses_def)

lemma lawful_outcomes:
  "lawful (create_answer tables created)" "lawful (draft_answer tables drafted)" "lawful (request_answer tables asked)"
  unfolding create_answer_def draft_answer_def request_answer_def
  by (auto intro!: lawful_responses simp: error_statuses_def split: sum.split)

lemma lawful_query: "candidate_query request = Inl r \<Longrightarrow> lawful r"
  by (auto simp: candidate_query_def Let_def error_statuses_def intro!: lawful_responses split: if_splits option.splits)

lemmas lawful_rules = answers_intros lawful_method lawful_json lawful_uploads lawful_outcomes

lemma lawful_failure [simp]:
  "lawful (writeError 400 (c # e) m)" "lawful (writeError 404 (c # e) m)" "lawful (writeError 409 (c # e) m)"
  "lawful (writeError 413 (c # e) m)" "lawful (writeError 422 (c # e) m)" "lawful (writeError 500 (c # e) m)"
  "lawful (writeError 503 (c # e) m)"
  by (rule lawful_error; simp add: error_statuses_def)+

lemma lawful_documents: "answers lawful (documents_handler opts request)"
  unfolding documents_handler_def upload_file_def Let_def
  by (auto intro!: lawful_rules split: sum.split option.split form_result.split)

lemma lawful_documentByID: "answers lawful (documentByID opts request)"
  unfolding documentByID_def documentClaims_def Let_def
  by (auto intro!: lawful_rules split: option.split prod.split bool.split)

lemma lawful_claimByID: "answers lawful (claimByID opts request)"
  unfolding claimByID_def Let_def by (auto intro!: lawful_rules split: sum.split option.split)

lemma lawful_strategies: "answers lawful (strategies_handler tables opts request)"
  unfolding strategies_handler_def createStrategy_def listStrategies_def Let_def
  by (auto intro!: lawful_rules split: sum.split option.split)

lemma lawful_strategySubpath: "answers lawful (strategySubpath tables opts request)"
  unfolding strategySubpath_def draftStrategy_def strategyByID_def Let_def
  by (auto intro!: lawful_rules split: sum.split option.split prod.split)

lemma lawful_marketDataSnapshots: "answers lawful (marketDataSnapshots tables opts request)"
  unfolding marketDataSnapshots_def requestMarketDataSnapshot_def listMarketDataSnapshots_def Let_def
  by (auto intro!: lawful_rules split: sum.split option.split)

lemma lawful_backtests: "answers lawful (backtests opts request)"
  unfolding backtests_def ask_backtest_def create_backtest_def Let_def
  by (auto intro!: lawful_rules split: sum.split option.split prod.split)

lemma lawful_lookups:
  "answers lawful (healthz opts request)" "answers lawful (marketDataSnapshotByID opts request)"
  "answers lawful (backtestByID opts request)" "answers lawful (candidates_handler opts request)"
  unfolding healthz_def marketDataSnapshotByID_def backtestByID_def candidates_handler_def Let_def
  by (auto intro!: lawful_rules dest: lawful_query split: sum.split option.split)

lemma lawful_id: "lawful (r\<lparr>rs_RequestID := i\<rparr>) \<longleftrightarrow> lawful r"
  by (cases "rs_Body r") (simp_all add: lawful_def)

lemmas lawful_handlers = lawful_documents lawful_documentByID lawful_claimByID lawful_strategies lawful_strategySubpath
  lawful_marketDataSnapshots lawful_backtests lawful_lookups

text \<open>
  C25 Every response is lawful, whatever is requested, whatever is configured and whatever the services do: an
  error status comes with an error code, except that the mux's own 404 for a path with no route has none, and a
  success status with the value it is documented for, 405 and only 405 names the methods allowed, a redirect
  and nothing else a location, and the request's id is always echoed.
\<close>

theorem responses_lawful:
  "NewHandler tables opts request w = (r, w') \<Longrightarrow>
     lawful r \<and> rs_RequestID r \<noteq> [] \<and> (hr_RequestID request \<noteq> [] \<longrightarrow> rs_RequestID r = hr_RequestID request)"
proof -
  assume run: "NewHandler tables opts request w = (r, w')"
  have "lawful (fst (h request v))" if "(pattern, h) \<in> set (routes tables opts)" for pattern h v
    using that by (auto simp: routes_def lawful_handlers [unfolded answers_def, rule_format])
  then have "answers lawful (serve_mux (routes tables opts) request)"
    unfolding serve_mux_def Let_def
    by (auto simp: answers_def answer_def lawful_json split: option.split dest!: find_in)
  then have "lawful (fst (serve_mux (routes tables opts) request w))" by (simp add: answers_def)
  with run show ?thesis by (auto simp: NewHandler_def withRequestID_def Let_def lawful_id split: prod.splits if_splits)
qed

theorem responses_lawful_witness:
  "\<exists>r w'. NewHandler plain_tables (served_options plain_tables ''dev'' ''/srv'' 20971520) (get_request ''/v1/candidates'')
       (sample_site ranked_db) = (r, w') \<and> lawful r \<and> rs_RequestID r \<noteq> []"
proof -
  obtain r w' where run: "NewHandler plain_tables (served_options plain_tables ''dev'' ''/srv'' 20971520)
      (get_request ''/v1/candidates'') (sample_site ranked_db) = (r, w')" by fastforce
  from responses_lawful [OF run] show ?thesis using run by blast
qed

section \<open>Routes\<close>

text \<open>No path is matched by two patterns, so the order in which they are registered does not matter.\<close>

definition patterns :: "string list" where
  "patterns = [''/healthz'', ''/v1/documents'', ''/v1/documents/'', ''/v1/claims/'', ''/v1/strategies'', ''/v1/strategies/'',
     ''/v1/market-data/snapshots'', ''/v1/market-data/snapshots/'', ''/v1/backtests'', ''/v1/backtests/'', ''/v1/candidates'']"

lemma matches_both:
  assumes "matches p1 p" and "matches p2 p"
  shows "p1 = p2 \<or> last p1 = slash \<and> has_prefix p2 p1 \<or> last p2 = slash \<and> has_prefix p1 p2"
  using assms by (auto simp: matches_def has_prefix_append append_eq_append_conv2)

lemma routes_apart:
  "list_all (\<lambda>p1. list_all (\<lambda>p2. p1 = p2 \<or> \<not> (last p1 = slash \<and> has_prefix p2 p1)) patterns) patterns"
  by code_simp

lemma routes_disjoint:
  assumes "(p1, h1) \<in> set (routes tables opts)" and "(p2, h2) \<in> set (routes tables opts)"
    and "matches p1 p" and "matches p2 p"
  shows "p1 = p2"
proof -
  have "p1 \<in> set patterns" "p2 \<in> set patterns" using assms(1,2) by (auto simp: routes_def patterns_def)
  then show ?thesis using matches_both [OF assms(3,4)] routes_apart by (auto simp: list_all_iff)
qed

end
