(* ===== verification/HttpAnswers.thy ===== *)
theory HttpAnswers
  imports HttpResponses
begin

text \<open>What the answers of the API mean.\<close>

section \<open>Asking for a backtest\<close>

text \<open>A run and its job, just created for a request.\<close>

definition backtest_created :: "create_backtest_input \<Rightarrow> backtest_run \<Rightarrow> job_row \<Rightarrow> db \<Rightarrow> db \<Rightarrow> bool" where
  "backtest_created input run j d d' \<longleftrightarrow>
     (\<exists>n. d' = d\<lparr>db_runs := db_runs d @ [run], db_jobs := db_jobs d @ [j], db_next := n\<rparr>)
     \<and> run_Status run = ''queued'' \<and> run_EngineVersion run = None \<and> run_ResultArtifactKey run = None
     \<and> run_DocumentCutoffAt run = ts_in (cbi_DocumentCutoffAt input)
     \<and> uuid_in (cbi_StrategyID input) = Inr (run_StrategyID run)
     \<and> uuid_in (cbi_SnapshotID input) = Inr (run_MarketDataSnapshotID run)
     \<and> jsonb_in (or_empty_object (cbi_Parameters input)) = Inr (run_Parameters run)
     \<and> jr_State j = ''queued'' \<and> job_Type j = ''run_backtest'' \<and> job_Attempts j = 0
     \<and> jsonb_in (backtest_payload (run_ID run)) = Inr (job_Payload j)"

lemma insert_run_Inr:
  assumes "insert_run_stmt input parameters d = (Inr run, d')"
  shows "d' = d\<lparr>db_runs := db_runs d @ [run], db_next := Suc (db_next d)\<rparr>
     \<and> run_Status run = ''queued'' \<and> run_EngineVersion run = None \<and> run_ResultArtifactKey run = None
     \<and> run_DocumentCutoffAt run = ts_in (cbi_DocumentCutoffAt input)
     \<and> uuid_in (cbi_StrategyID input) = Inr (run_StrategyID run)
     \<and> uuid_in (cbi_SnapshotID input) = Inr (run_MarketDataSnapshotID run)
     \<and> jsonb_in parameters = Inr (run_Parameters run)"
  using assms by (cases d) (auto simp: insert_run_stmt_def Let_def act_simps split: sum.splits if_splits)

lemma inserted_job_Inr:
  assumes "insert_job_stmt t payload d = (Inr k, d')"
  shows "\<exists>p. let j = queued_row (db_uuid d (db_next d)) t p (db_now d) in
     jsonb_in payload = Inr p \<and> k = job.truncate j \<and> d' = d\<lparr>db_jobs := db_jobs d @ [j], db_next := Suc (db_next d)\<rparr>"
  using assms by (cases d) (auto simp: insert_job_stmt_def Let_def act_simps split: sum.splits if_splits)

lemma CreateBacktest_cases:
  assumes "CreateBacktestWithRunJob input w = (r, w')"
  obtains (unchanged) e where "r = Inl e" "w_db w' = w_db w"
  | (created) run j where "backtest_created input run j (w_db w) (w_db w')"
      "r = Inr (run, job.truncate j) \<or> (\<exists>e. r = Inl e)"
proof (cases "create_backtest_input_validate input")
  case None
  let ?body = "and_then (wrapping ''insert backtest run: %w'' []
       (pg_exec (insert_run_stmt input (or_empty_object (cbi_Parameters input))))) (\<lambda>run.
     and_then (insert_job ''run_backtest'' (backtest_payload (run_ID run))) (\<lambda>j.
     ok (''commit backtest transaction: %w'', (run, j))))"
  have "transaction ''begin backtest transaction: %w'' ?body w = (r, w')"
    using assms None by (simp add: CreateBacktestWithRunJob_def)
  then show thesis
  proof (cases rule: transaction_cases)
    case (unchanged e)
    then show ?thesis by (rule that(1))
  next
    case (committed m x w1 w2)
    obtain run k w3 where run: "pg_exec (insert_run_stmt input (or_empty_object (cbi_Parameters input))) w1 = (Inr run, w3)"
      and job: "pg_exec (insert_job_stmt ''run_backtest'' (backtest_payload (run_ID run))) w3 = (Inr k, w2)"
      and x: "x = (run, k)"
      using committed(2) by (auto simp: and_then_Inr wrapping_Inr insert_job_def ok_def)
    have w1: "w_db w1 = w_db w" using next_fault_same [OF committed(1)] by simp
    obtain d where d: "insert_run_stmt input (or_empty_object (cbi_Parameters input)) (w_db w1) = (Inr run, d)" "w_db w3 = d"
      using pg_exec_Inr [OF run] by auto
    obtain d' where d': "insert_job_stmt ''run_backtest'' (backtest_payload (run_ID run)) (w_db w3) = (Inr k, d')" "w_db w2 = d'"
      using pg_exec_Inr [OF job] by auto
    obtain p where j: "jsonb_in (backtest_payload (run_ID run)) = Inr p"
      "k = job.truncate (queued_row (db_uuid d (db_next d)) ''run_backtest'' p (db_now d))"
      "d' = d\<lparr>db_jobs := db_jobs d @ [queued_row (db_uuid d (db_next d)) ''run_backtest'' p (db_now d)], db_next := Suc (db_next d)\<rparr>"
      using inserted_job_Inr [OF d'(1)] d(2) by (auto simp: Let_def)
    have "backtest_created input run (queued_row (db_uuid d (db_next d)) ''run_backtest'' p (db_now d)) (w_db w) (w_db w')"
      using insert_run_Inr [OF d(1)] j(1,3) d'(2) w1 committed(3) by (auto simp: backtest_created_def queued_row_def)
    then show ?thesis using that(2) committed(4) j(2) x by blast
  qed
qed (use assms that(1) in \<open>auto simp: CreateBacktestWithRunJob_def fail_def\<close>)

text \<open>The outcomes of a lookup that changes nothing.\<close>

lemma lookup_cases:
  assumes "lookup f missing failed k w = (r, w')" and "keeps (on_db (same_view whole)) f"
  obtains (found) x w1 where "f w = (Inr x, w1)" "w_db w1 = w_db w" "k x w1 = (r, w')"
  | (refused) "r = missing \<or> r = failed" "w_db w' = w_db w"
proof -
  obtain a w1 where f: "f w = (a, w1)" by fastforce
  have "w_db w1 = w_db w" using keepsD [OF assms(2) f] by (simp add: on_db_def same_view_def whole_def)
  then show thesis
    using assms(1) f found refused by (cases a) (auto simp: lookup_def calling_def answer_def split: if_splits)
qed

definition backtest_input :: "backtest_body \<Rightarrow> time \<Rightarrow> create_backtest_input" where
  "backtest_input body cutoff =
     \<lparr>cbi_StrategyID = bb_StrategyID body, cbi_SnapshotID = bb_SnapshotID body, cbi_DocumentCutoffAt = cutoff,
      cbi_Parameters = bb_Parameters body\<rparr>"

text \<open>A request that was accepted: what it named was there, ready and sufficient, and is now queued.\<close>

definition backtest_accepted :: "http_request \<Rightarrow> http_response \<Rightarrow> db \<Rightarrow> db \<Rightarrow> bool" where
  "backtest_accepted request r d d' \<longleftrightarrow>
     (\<exists>body cutoff s snap universe run j.
        decode_body maxBacktestBodyBytes backtest_body_dec zero_backtest_body request = Inr body
        \<and> parse_rfc3339 (trim_space (bb_DocumentCutoffAt body)) = Some cutoff
        \<and> s \<in> set (db_strategies d) \<and> st_ID s = run_StrategyID run
        \<and> snap \<in> set (db_snapshots d) \<and> snap_ID snap = run_MarketDataSnapshotID run
        \<and> snap_StorageKey snap \<noteq> None \<and> snap_Checksum snap \<noteq> None
        \<and> universe_symbols (st_Spec s) = Inr universe \<and> set universe \<subseteq> set (snap_Symbols snap)
        \<and> backtest_created (backtest_input body cutoff) run j d d'
        \<and> rs_Body r = BacktestBody (backtestResponseFrom run (Some (job.truncate j))))"

lemma not_accepted [simp]:
  "rs_Status (writeError c e m) = c" "rs_Status (writeJSON c b) = c" "rs_Status (methodNotAllowed a) = 405"
  "rs_Body (writeJSON c b) = b"
  by (simp_all add: writeError_def writeJSON_def methodNotAllowed_def)

lemma create_backtest_answer:
  assumes run: "create_backtest \<lparr>bk_Create = CreateBacktestWithRunJob, bk_Get = GetBacktestRun\<rparr> body cutoff s snap w = (r, w')"
    and body: "decode_body maxBacktestBodyBytes backtest_body_dec zero_backtest_body request = Inr body"
      "parse_rfc3339 (trim_space (bb_DocumentCutoffAt body)) = Some cutoff"
    and rows: "s \<in> set (db_strategies (w_db w))" "uuid_in (bb_StrategyID body) = Inr (st_ID s)"
      "snap \<in> set (db_snapshots (w_db w))" "uuid_in (bb_SnapshotID body) = Inr (snap_ID snap)"
  shows "if rs_Status r = 202 then backtest_accepted request r (w_db w) (w_db w') else rs_Status r \<noteq> 500 \<longrightarrow> w_db w' = w_db w"
proof -
  consider (refused) "rs_Status r \<noteq> 202" "w_db w' = w_db w"
    | (tried) universe a where "snap_StorageKey snap \<noteq> None" "snap_Checksum snap \<noteq> None"
        "universe_symbols (st_Spec s) = Inr universe" "set universe \<subseteq> set (snap_Symbols snap)"
        "CreateBacktestWithRunJob (backtest_input body cutoff) w = (a, w')"
        "r = (case a of Inl e \<Rightarrow> writeError 500 ''backtest_create_failed'' ''could not create backtest''
            | Inr (run, j) \<Rightarrow> writeJSON 202 (BacktestBody (backtestResponseFrom run (Some j))))"
    using run unfolding create_backtest_def Let_def
    by (auto simp: calling_def answer_def backtest_input_def missing_symbols_Nil split: if_splits sum.splits prod.splits)
  then show ?thesis
  proof cases
    case tried
    show ?thesis
    proof (rule CreateBacktest_cases [OF tried(5)])
      fix e
      assume "a = Inl e" "w_db w' = w_db w"
      then show ?thesis using tried(6) by simp
    next
      fix row j
      assume c: "backtest_created (backtest_input body cutoff) row j (w_db w) (w_db w')"
        and a: "a = Inr (row, job.truncate j) \<or> (\<exists>e. a = Inl e)"
      have "st_ID s = run_StrategyID row" "snap_ID snap = run_MarketDataSnapshotID row"
        using c rows(2,4) by (simp_all add: backtest_created_def backtest_input_def)
      then have "a = Inr (row, job.truncate j) \<Longrightarrow> backtest_accepted request r (w_db w) (w_db w')"
        using body rows(1,3) tried(1-4,6) c unfolding backtest_accepted_def by fastforce
      then show ?thesis using a tried(6) by auto
    qed
  qed simp
qed

lemma GetStrategy_row:
  assumes "GetStrategyWithCitations i w = (Inr (s, cs), w')"
  shows "s \<in> set (db_strategies (w_db w)) \<and> uuid_in i = Inr (st_ID s)"
proof -
  obtain w1 where "found_or ''get strategy: %w'' (pg_exec (strategy_by_id_stmt i)) w = (Inr s, w1)"
    using assms by (auto simp: GetStrategyWithCitations_def and_then_Inr ok_def)
  from found_row [OF this [unfolded strategy_by_id_stmt_def]] show ?thesis by blast
qed

abbreviation served_backtests :: "'x world_scheme backtest_store" where
  "served_backtests \<equiv> \<lparr>bk_Create = CreateBacktestWithRunJob, bk_Get = GetBacktestRun\<rparr>"

abbreviation find_snapshot :: "backtest_body \<Rightarrow> time \<Rightarrow> strategy \<Rightarrow> 'x world_scheme handler" where
  "find_snapshot body cutoff s \<equiv> lookup (MarketDataService_Get (bb_SnapshotID body))
     (writeError 404 ''snapshot_not_found'' ''market-data snapshot was not found'')
     (writeError 500 ''snapshot_lookup_failed'' ''could not load snapshot'') (create_backtest served_backtests body cutoff s)"

abbreviation find_strategy :: "backtest_body \<Rightarrow> time \<Rightarrow> 'x world_scheme handler" where
  "find_strategy body cutoff \<equiv> lookup (StrategyService_Get (bb_StrategyID body))
     (writeError 404 ''strategy_not_found'' ''strategy was not found'')
     (writeError 500 ''strategy_lookup_failed'' ''could not load strategy'') (\<lambda>(s, _). find_snapshot body cutoff s)"

lemma found_backtest:
  assumes run: "find_strategy body cutoff w = (r, w')"
    and body: "decode_body maxBacktestBodyBytes backtest_body_dec zero_backtest_body request = Inr body"
      "parse_rfc3339 (trim_space (bb_DocumentCutoffAt body)) = Some cutoff"
  shows "if rs_Status r = 202 then backtest_accepted request r (w_db w) (w_db w') else rs_Status r \<noteq> 500 \<longrightarrow> w_db w' = w_db w"
  using run
proof (rule lookup_cases)
  show "keeps (on_db (same_view whole)) (StrategyService_Get (bb_StrategyID body))"
    by (simp add: StrategyService_Get_def reading_whole)
next
  fix x w1
  assume s: "StrategyService_Get (bb_StrategyID body) w = (Inr x, w1)" "w_db w1 = w_db w"
    and next_step: "(case x of (s, _) \<Rightarrow> find_snapshot body cutoff s) w1 = (r, w')"
  obtain st cs where x: "x = (st, cs)" by fastforce
  note st = GetStrategy_row [OF s(1) [unfolded x StrategyService_Get_def]]
  from next_step [unfolded x prod.case] show ?thesis
  proof (rule lookup_cases)
    show "keeps (on_db (same_view whole)) (MarketDataService_Get (bb_SnapshotID body))"
      by (simp add: MarketDataService_Get_def reading_whole)
  next
    fix snap w2
    assume snap: "MarketDataService_Get (bb_SnapshotID body) w1 = (Inr snap, w2)" "w_db w2 = w_db w1"
      and create: "create_backtest served_backtests body cutoff st snap w2 = (r, w')"
    note found = GetSnapshot_finds [OF snap(1) [unfolded MarketDataService_Get_def]]
    show ?thesis
      using create_backtest_answer [OF create body] st found snap(2) s(2) by (auto split: if_split_asm)
  qed (auto simp: s(2))
qed auto

text \<open>
  C22 An accepted backtest request is worth running. \<open>POST /v1/backtests\<close> answers 202 only when exactly one
  run and its job were added, both queued, with the cutoff and the parameters asked for, and only for
  a strategy and a snapshot in the tables, the snapshot with its data and covering the strategy's whole
  universe; the response carries that run and that job. Any other answer but 500 leaves the tables as they were.
\<close>

theorem backtest_request_answered:
  assumes "backtests (served_options tables version rt most) request w = (r, w')"
  shows "if rs_Status r = 202 then backtest_accepted request r (w_db w) (w_db w') else rs_Status r \<noteq> 500 \<longrightarrow> w_db w' = w_db w"
proof -
  consider (refused) "rs_Status r \<noteq> 202" "w_db w' = w_db w"
    | (asked) body cutoff where "decode_body maxBacktestBodyBytes backtest_body_dec zero_backtest_body request = Inr body"
        "parse_rfc3339 (trim_space (bb_DocumentCutoffAt body)) = Some cutoff" "find_strategy body cutoff w = (r, w')"
    using assms unfolding backtests_def ask_backtest_def
    by (auto simp: served_options_def Let_def answer_def split: if_splits sum.splits option.splits)
  then show ?thesis
  proof cases
    case asked
    show ?thesis by (rule found_backtest [OF asked(3,1,2)])
  qed simp
qed

section \<open>Looking up by id\<close>

text \<open>The store on a connection that works.\<close>

lemma found_healthy:
  assumes "w_faults w = []" and "uuid_in i = Inr u"
  shows "found_or m (pg_exec (and_then (convert (uuid_in i)) (\<lambda>u.
      and_then (read_db (\<lambda>d. find (\<lambda>r. key r = u) (rows d))) one_row))) w
    = (case find (\<lambda>r. key r = u) (rows (w_db w)) of None \<Rightarrow> Inl ErrNotFound | Some x \<Rightarrow> Inr x, w)"
  using assms
  by (simp add: found_or_def attempt_def pg_exec_def next_fault_def one_row_def act_simps split: option.split)

lemma find_row: "find (\<lambda>r. key r = u) rows = None \<longleftrightarrow> u \<notin> key ` set rows"
  by (auto simp: find_None_iff)

lemma cut_claims: "validUUID i \<Longrightarrow> cut_suffix i ''/claims'' = (i, False)"
proof -
  assume "validUUID i"
  then obtain ds where "i = dashed ds" "length ds = 32" "list_all hex_digit ds" using validUUID_dashed by blast
  then have "ds \<noteq> []" by auto
  then have last: "hex_digit (last i)"
    using last_in_set [of ds] \<open>i = dashed ds\<close> \<open>length ds = 32\<close> \<open>list_all hex_digit ds\<close> by (simp add: dashed_def list_all_iff)
  have "\<not> has_suffix i ''/claims''"
  proof
    assume suffix: "has_suffix i ''/claims''"
    then have "7 \<le> length i" by (simp add: has_suffix_def)
    then have "last (drop (length i - 7) i) = last i" by (intro last_drop) linarith
    moreover have "drop (length i - 7) i = ''/claims''" using suffix by (simp add: has_suffix_def eval_nat_numeral)
    ultimately have "last i = CHR ''s''" by simp
    moreover have "\<not> hex_digit (CHR ''s'')" by code_simp
    ultimately show False using last by simp
  qed
  then show ?thesis by (simp add: cut_suffix_def)
qed

lemma GetStrategy_healthy:
  assumes "w_faults w = []" and "uuid_in i = Inr u"
  shows "\<exists>cs. GetStrategyWithCitations i w
    = (case find (\<lambda>s. st_ID s = u) (db_strategies (w_db w)) of None \<Rightarrow> Inl ErrNotFound | Some s \<Rightarrow> Inr (s, cs), w)"
proof -
  have found: "found_or ''get strategy: %w'' (pg_exec (strategy_by_id_stmt i)) w
      = (case find (\<lambda>s. st_ID s = u) (db_strategies (w_db w)) of None \<Rightarrow> Inl ErrNotFound | Some s \<Rightarrow> Inr s, w)"
    unfolding strategy_by_id_stmt_def by (rule found_healthy [OF assms])
  obtain cs where "pg_query ''list strategy citations: %w'' ''iterate claims: %w'' (citations_stmt i) w = (Inr cs, w)"
    using assms by (auto simp: pg_query_def next_fault_def citations_stmt_def act_simps)
  then show ?thesis
    by (intro exI [of _ cs]) (simp add: GetStrategyWithCitations_def and_then_def found ok_def split: option.split)
qed

lemma GetDocument_healthy:
  assumes "w_faults w = []" and "uuid_in i = Inr u"
  shows "GetDocument i w
    = (case find (\<lambda>x. doc_ID x = u) (db_documents (w_db w)) of None \<Rightarrow> Inl ErrNotFound | Some x \<Rightarrow> Inr (document.truncate x), w)"
  using assms
  by (simp add: GetDocument_def document_by_id_stmt_def found_or_def attempt_def pg_exec_def next_fault_def one_row_def act_simps
      split: option.split)

text \<open>A lookup over rows with a key, of which the row found is presented with 200.\<close>

lemma lookup_status:
  assumes "f w = (case find (\<lambda>r. key r = u) rows of None \<Rightarrow> Inl ErrNotFound | Some x \<Rightarrow> Inr (g x), w)"
    and "\<And>x. rs_Status (fst (k (g x) w)) = 200"
  shows "rs_Status (fst (lookup f (writeError 404 e m) failed k w)) = (if u \<in> key ` set rows then 200 else 404)"
proof (cases "find (\<lambda>r. key r = u) rows")
  case None
  then show ?thesis using assms find_row [of key u rows] by (simp add: lookup_def calling_def answer_def ErrNotFound_def)
next
  case (Some x)
  then have "u \<in> key ` set rows" using find_row [of key u rows] by (metis option.distinct(1))
  then show ?thesis using assms Some by (simp add: lookup_def calling_def)
qed

lemma trim_prefix_append: "trim_prefix (p @ i) p = i"
  by (auto simp: trim_prefix_def has_prefix_append)

text \<open>
  C26 Looking up by id. While the connection works, a \<open>GET\<close> of a document, strategy, snapshot or run by a
  well-formed UUID is answered 200 exactly when a row has that id, in whatever case it was written, and 404
  otherwise; never with an error of the server.
\<close>

theorem lookups_answered:
  assumes "w_faults w = []" and "hr_Method request = ''GET''" and "validUUID i" and "uuid_in i = Inr u"
  shows "(hr_Path request = ''/v1/documents/'' @ i \<longrightarrow>
      rs_Status (fst (documentByID (served_options tables version rt most) request w))
        = (if u \<in> doc_ID ` set (db_documents (w_db w)) then 200 else 404))
    \<and> (hr_Path request = ''/v1/strategies/'' @ i \<longrightarrow>
      rs_Status (fst (strategySubpath tables (served_options tables version rt most) request w))
        = (if u \<in> st_ID ` set (db_strategies (w_db w)) then 200 else 404))
    \<and> (hr_Path request = ''/v1/market-data/snapshots/'' @ i \<longrightarrow>
      rs_Status (fst (marketDataSnapshotByID (served_options tables version rt most) request w))
        = (if u \<in> snap_ID ` set (db_snapshots (w_db w)) then 200 else 404))
    \<and> (hr_Path request = ''/v1/backtests/'' @ i \<longrightarrow>
      rs_Status (fst (backtestByID (served_options tables version rt most) request w))
        = (if u \<in> run_ID ` set (db_runs (w_db w)) then 200 else 404))"
proof (intro conjI impI)
  assume path: "hr_Path request = ''/v1/documents/'' @ i"
  show "rs_Status (fst (documentByID (served_options tables version rt most) request w))
        = (if u \<in> doc_ID ` set (db_documents (w_db w)) then 200 else 404)"
    using assms(2,3) cut_claims [OF assms(3)] path trim_prefix_append [of "''/v1/documents/''" i]
      lookup_status [where f = "DocumentService_Get i", OF GetDocument_healthy [OF assms(1,4), folded DocumentService_Get_def]]
    by (simp add: documentByID_def served_options_def Let_def document_missing_def answer_def)
next
  assume path: "hr_Path request = ''/v1/strategies/'' @ i"
  obtain cs where get: "StrategyService_Get i w
      = (case find (\<lambda>s. st_ID s = u) (db_strategies (w_db w)) of None \<Rightarrow> Inl ErrNotFound | Some s \<Rightarrow> Inr (s, cs), w)"
    using GetStrategy_healthy [OF assms(1,4)] by (auto simp: StrategyService_Get_def)
  have "i \<noteq> ''draft''" using assms(3) by (auto simp: validUUID_def)
  then show "rs_Status (fst (strategySubpath tables (served_options tables version rt most) request w))
        = (if u \<in> st_ID ` set (db_strategies (w_db w)) then 200 else 404)"
    using assms(2,3) path trim_prefix_append [of "''/v1/strategies/''" i] lookup_status [where f = "StrategyService_Get i", OF get]
    by (simp add: strategySubpath_def strategyByID_def served_options_def Let_def answer_def)
next
  assume path: "hr_Path request = ''/v1/market-data/snapshots/'' @ i"
  have get: "MarketDataService_Get i w
      = (case find (\<lambda>s. snap_ID s = u) (db_snapshots (w_db w)) of None \<Rightarrow> Inl ErrNotFound | Some s \<Rightarrow> Inr s, w)"
    unfolding MarketDataService_Get_def GetMarketDataSnapshot_def snapshot_by_id_stmt_def by (rule found_healthy [OF assms(1,4)])
  show "rs_Status (fst (marketDataSnapshotByID (served_options tables version rt most) request w))
        = (if u \<in> snap_ID ` set (db_snapshots (w_db w)) then 200 else 404)"
    using assms(2,3) path trim_prefix_append [of "''/v1/market-data/snapshots/''" i]
      lookup_status [where f = "MarketDataService_Get i", OF get]
    by (simp add: marketDataSnapshotByID_def served_options_def Let_def answer_def)
next
  assume path: "hr_Path request = ''/v1/backtests/'' @ i"
  have get: "GetBacktestRun i w
      = (case find (\<lambda>r. run_ID r = u) (db_runs (w_db w)) of None \<Rightarrow> Inl ErrNotFound | Some r \<Rightarrow> Inr r, w)"
    unfolding GetBacktestRun_def run_by_id_stmt_def by (rule found_healthy [OF assms(1,4)])
  show "rs_Status (fst (backtestByID (served_options tables version rt most) request w))
        = (if u \<in> run_ID ` set (db_runs (w_db w)) then 200 else 404)"
    using assms(2,3) path trim_prefix_append [of "''/v1/backtests/''" i] lookup_status [where f = "GetBacktestRun i", OF get]
    by (simp add: backtestByID_def served_options_def Let_def answer_def)
qed

theorem lookups_answered_witness:
  "rs_Status (fst (backtestByID (served_options plain_tables ''dev'' ''/srv'' 20971520) (get_request (''/v1/backtests/'' @ run_id2))
     (sample_site sample_db))) = 200"
proof -
  have "w_faults (sample_site sample_db) = []" "run_id2 \<in> run_ID ` set (db_runs (w_db (sample_site sample_db)))"
    by (simp_all add: sample_site_def sample_db_def sample_run_def)
  moreover have "validUUID run_id2" by code_simp
  ultimately show ?thesis
    using lookups_answered [of "sample_site sample_db" "get_request (''/v1/backtests/'' @ run_id2)" run_id2 run_id2
        plain_tables "''dev''" "''/srv''" 20971520] uuid_in_samples(5)
    by (simp add: get_request_def)
qed

section \<open>Uploads\<close>

text \<open>
  C27 A limit too close to the end of \<open>int64\<close> closes the door. The limit of the request's body is the configured
  one and a megabyte; from \<open>2 ^ 63 - 2 ^ 20\<close> on, which the configuration accepts, that sum wraps around below
  zero, and every multipart upload that is not empty is refused as too large, however small its file.
\<close>

theorem upload_limit_overflow:
  assumes "2 ^ 63 - 2 ^ 20 \<le> most" and "most < 2 ^ 63" and "hr_Method request = ''POST''" and "hb_Multipart (hr_Body request)"
    and "hb_Form (hr_Body request) = Inr form" and "0 < hb_Length (hr_Body request)"
  shows "documents_handler (served_options tables version rt most) request w
    = (writeError 413 ''invalid_upload'' ''upload must be a multipart request containing a PDF file'', w)"
proof -
  have "most + 1048576 + 2 ^ 63 = (most - (2 ^ 63 - 2 ^ 20)) + 1 * 2 ^ 64" by simp
  then have "(most + 1048576 + 2 ^ 63) mod 2 ^ 64 = (most - (2 ^ 63 - 2 ^ 20)) mod 2 ^ 64" by (metis mod_mult_self1)
  then have "(most + 1048576 + 2 ^ 63) mod 2 ^ 64 = most - (2 ^ 63 - 2 ^ 20)" using assms(1,2) by simp
  then have "upload_limit most < 0" using assms(2) by (simp add: upload_limit_def)
  then have "parse_multipart (upload_limit most) request = FormTooLarge"
    using assms(4-6) by (simp add: parse_multipart_def Let_def)
  moreover have "\<not> most \<le> 0" using assms(1) by simp
  ultimately show ?thesis
    using assms(3) by (simp add: documents_handler_def served_options_def Let_def answer_def)
qed

definition small_upload :: http_request where
  "small_upload = \<lparr>hr_Method = ''POST'', hr_Path = ''/v1/documents'', hr_RequestID = [], hr_RawQuery = [], hr_Query = [], hr_QueryError = False,
     hr_Body = \<lparr>hb_Value = NoBytes, hb_Bytes = 0, hb_Multipart = True, hb_Length = 300,
       hb_Form = Inr \<lparr>mf_File = None, mf_PublishedAt = []\<rparr>\<rparr>\<rparr>"

theorem upload_limit_overflow_witness:
  "rs_Status (fst (documents_handler (served_options plain_tables ''dev'' ''/srv'' (2 ^ 63 - 1)) small_upload (sample_site sample_db)))
     = 413"
  by (subst upload_limit_overflow) (simp_all add: small_upload_def)

section \<open>Names of files\<close>

text \<open>The name kept of an upload is one component of a path; but it may be \<open>..\<close>.\<close>

lemma safeFilename_component: "safeFilename given \<noteq> [] \<and> slash \<notin> set (safeFilename given)"
proof -
  have "path_base p = ''/'' \<or> path_base p \<noteq> [] \<and> slash \<notin> set (path_base p)" for p
    by (auto simp: path_base_def Let_def slash_def dest: set_takeWhileD)
  then show ?thesis by (auto simp: safeFilename_def Let_def slash_def)
qed

lemma safeFilename_parent: "safeFilename ''a/..'' = ''..''"
  by code_simp

section \<open>A backtest asked for\<close>

definition sample_body :: backtest_body where
  "sample_body = \<lparr>bb_StrategyID = strategy_id1, bb_SnapshotID = snapshot_id1,
     bb_DocumentCutoffAt = ''2024-03-01T00:00:00Z'', bb_Parameters = NoBytes\<rparr>"

definition backtest_post :: http_request where
  "backtest_post = (get_request ''/v1/backtests'')\<lparr>hr_Method := ''POST'', hr_Body :=
     \<lparr>hb_Value = Raw (JObject [(''strategy_id'', JString strategy_id1), (''market_data_snapshot_id'', JString snapshot_id1),
        (''document_cutoff_at'', JString ''2024-03-01T00:00:00Z'')]),
      hb_Bytes = 160, hb_Multipart = False, hb_Length = 160, hb_Form = Inl 0\<rparr>\<rparr>"

lemma sample_decoded:
  "decode_body maxBacktestBodyBytes backtest_body_dec zero_backtest_body backtest_post = Inr sample_body"
  unfolding backtest_post_def sample_body_def get_request_def by code_simp

definition sample_cutoff :: time where
  "sample_cutoff = the (parse_rfc3339 (trim_space ''2024-03-01T00:00:00Z''))"

lemma sample_cutoff_read: "parse_rfc3339 (trim_space ''2024-03-01T00:00:00Z'') = Some sample_cutoff"
  by code_simp

lemma sample_cutoff_nonzero: "\<not> is_zero_time sample_cutoff"
  by code_simp

lemma sample_universe_symbols: "universe_symbols sample_universe = Inr [''SPY'']"
  by code_simp

lemma sample_valid: "validUUID strategy_id1" "validUUID snapshot_id1"
  by code_simp+

lemma sample_backtest_created:
  "\<exists>run j w'. CreateBacktestWithRunJob (backtest_input sample_body sample_cutoff) (sample_site ranked_db) = (Inr (run, j), w')"
proof -
  have "uuid_in snapshot_id1 = Inr snapshot_id1" "jsonb_in (or_empty_object NoBytes) = Inr empty_object" by code_simp+
  moreover have "\<exists>p. jsonb_in (backtest_payload (new_ids ! 0)) = Inr p"
    by (rule exI [of _ "backtest_payload (new_ids ! 0)"]) code_simp
  moreover have "new_ids ! 0 \<noteq> run_id1" "new_ids ! 0 \<noteq> run_id2" "new_ids ! 1 \<noteq> sample_id" "strategy_id1 \<noteq> []" "snapshot_id1 \<noteq> []"
    by (simp_all add: new_ids_def sample_ids sample_id_def)
  ultimately show ?thesis
    using uuid_in_samples(3) sample_cutoff_nonzero
    by (auto simp: CreateBacktestWithRunJob_def backtest_input_def sample_body_def create_backtest_input_validate_def
        transaction_def pg_exec_def next_fault_def insert_run_stmt_def insert_job_def insert_job_stmt_def act_simps Let_def
        sample_site_def ranked_db_def sample_db_def sample_run_def queued_row_def sample_uuid_new job_types_def)
qed

theorem backtest_request_answered_witness:
  "\<exists>r w'. backtests (served_options plain_tables ''dev'' ''/srv'' 20971520) backtest_post (sample_site ranked_db) = (r, w')
     \<and> backtest_accepted backtest_post r ranked_db (w_db w')"
proof -
  let ?w = "sample_site ranked_db" and ?s = "\<lparr>st_ID = strategy_id1, st_Slug = ''momentum'', st_Version = 1, st_Name = ''Momentum'',
        st_Spec = sample_universe, st_CreatedAt = 2500\<rparr>"
  have healthy: "w_faults ?w = []" and db: "w_db ?w = ranked_db" by (simp_all add: sample_site_def)
  have strategies: "db_strategies ranked_db = [?s]" and snapshots: "db_snapshots ranked_db = db_snapshots sample_db"
    by (simp_all add: ranked_db_def)
  obtain cs where s: "StrategyService_Get strategy_id1 ?w = (Inr (?s, cs), ?w)"
    using GetStrategy_healthy [OF healthy uuid_in_samples(3)] by (auto simp: StrategyService_Get_def db strategies)
  have id: "uuid_in snapshot_id1 = Inr snapshot_id1" by code_simp
  obtain snap where snap: "MarketDataService_Get snapshot_id1 ?w = (Inr snap, ?w)"
      "snap_StorageKey snap \<noteq> None" "snap_Checksum snap \<noteq> None" "snap_Symbols snap = [''SPY'']"
    using found_healthy [OF healthy id, of "''get market data snapshot: %w''" snap_ID db_snapshots]
    by (auto simp: MarketDataService_Get_def GetMarketDataSnapshot_def snapshot_by_id_stmt_def db snapshots)
      (simp add: sample_db_def)
  obtain run j w' where created: "CreateBacktestWithRunJob (backtest_input sample_body sample_cutoff) ?w = (Inr (run, j), w')"
    using sample_backtest_created by blast
  have "missing_symbols [''SPY''] [''SPY''] = []" by (simp add: missing_symbols_Nil)
  then have "create_backtest \<lparr>bk_Create = CreateBacktestWithRunJob, bk_Get = GetBacktestRun\<rparr> sample_body sample_cutoff ?s snap ?w
      = (writeJSON 202 (BacktestBody (backtestResponseFrom run (Some j))), w')"
    using created snap(2-4) sample_universe_symbols
    by (auto simp: create_backtest_def calling_def answer_def backtest_input_def Let_def)
  then have answered: "backtests (served_options plain_tables ''dev'' ''/srv'' 20971520) backtest_post ?w
      = (writeJSON 202 (BacktestBody (backtestResponseFrom run (Some j))), w')"
    using s snap(1) sample_valid sample_cutoff_read
    by (simp add: backtests_def sample_decoded [unfolded backtest_post_def] sample_decoded ask_backtest_def served_options_def Let_def
        lookup_def calling_def backtest_post_def) (simp add: sample_body_def lookup_def calling_def)
  from backtest_request_answered [OF answered] answered show ?thesis by (simp add: db)
qed

end
