(* ===== verification/LostCompletion.thy ===== *)
theory LostCompletion
  imports WorkerProgress
begin

text \<open>
  A success the worker undoes: the acknowledgement of \<open>CompleteBacktest\<close> is lost on the last attempt, and the
  run that was completed is marked failed.
\<close>

section \<open>An error although the transaction was committed\<close>

lemma lost_commit:
  assumes "CompleteBacktest i result key w = (Inl e, w')" and "w_db w' \<noteq> w_db w"
  shows "e = Errorf ''commit complete backtest: %w'' [AW connection_error]"
proof -
  have "candidate_set_validate (res_Candidates result) = None"
    using assms by (auto simp: CompleteBacktest_def fail_def split: option.splits)
  with assms(1) have "transaction ''begin complete backtest transaction: %w''
      (and_then (complete_run i result key) (\<lambda>s. and_then (insertCandidates i s (res_Candidates result))
         (\<lambda>_. ok (''commit complete backtest: %w'', ())))) w = (Inl e, w')"
    by (simp add: CompleteBacktest_def)
  then show ?thesis
  proof (cases rule: transaction_cases)
    case (committed m x w1 w2)
    then show ?thesis by (auto simp: and_then_Inr ok_def)
  qed (use assms(2) in simp)
qed

section \<open>Only completed runs are listed\<close>

lemma attach_runs: "map cand_BacktestRunID (attach_evidence index cs evs) = map cand_BacktestRunID cs"
proof (induction evs arbitrary: cs)
  case (Cons p evs)
  obtain k ev where p: "p = (k, ev)" by fastforce
  have "map cand_BacktestRunID (cs[n := (cs ! n)\<lparr>cand_Evidence := x\<rparr>]) = map cand_BacktestRunID cs" for n x
    by (cases "n < length cs") (simp_all add: map_update list_update_same_conv list_update_beyond)
  then show ?case using Cons.IH by (simp add: p split: option.split)
qed simp

lemma listed_completed:
  assumes "ListCandidates f w = (Inr cs, w')" and "schema_ok (w_db w)" and "x \<in> set cs"
  shows "\<exists>r \<in> set (db_runs (w_db w)). run_ID r = cand_BacktestRunID x \<and> run_Status r = ''completed''"
proof -
  from ListCandidates_Inr [OF assms(1)] obtain s b cs0 where
    cs0: "cs0 = take (nat (cf_Limit (normalized f)))
      (sort_slice (candidate_before (w_db w)) (joined_candidates (selected_runs s b (w_db w)) (w_db w)))"
    and "cs0 = [] \<and> cs = [] \<or> (\<exists>evs. cs = attach_evidence (candidate_index cs0) cs0 evs)" by blast
  then have "map cand_BacktestRunID cs = map cand_BacktestRunID cs0" using attach_runs by auto
  then have "cand_BacktestRunID x \<in> cand_BacktestRunID ` set cs0" using assms(3) by (metis image_eqI list.set_map)
  then obtain y where y: "y \<in> set cs0" "cand_BacktestRunID y = cand_BacktestRunID x" by auto
  then obtain c r t where c: "c \<in> set (db_candidates (w_db w))" "r \<in> set (selected_runs s b (w_db w))"
    "y = listed_candidate c r t" "run_ID r = cnd_RunID c"
    using listing_rows [OF assms(2) cs0] by blast
  with listed_run [OF assms(2) c(1,2,4)] y(2) show ?thesis by (auto simp: listed_candidate_def)
qed

section \<open>Marking a run failed\<close>

lemma failed_on_last:
  assumes "job_MaxAttempts j \<le> job_Attempts j" and "w_faults w = []" and "uuid_in i = Inr i"
    and "distinct (map run_ID (db_runs (w_db w)))" and "r \<in> set (db_runs (w_db w))" and "run_ID r = i"
  shows "failIfTerminal j i cause w = (Inl cause, w\<lparr>w_db := (w_db w)\<lparr>db_runs :=
      update_where (\<lambda>q. run_ID q = i) (\<lambda>q. q\<lparr>run_Status := ''failed''\<rparr>) (db_runs (w_db w))\<rparr>\<rparr>)"
proof -
  have "filter (\<lambda>q. run_ID q = i) (db_runs (w_db w)) = [r]"
    using filter_key_unique [OF assms(4,5)] assms(6) by simp
  then show ?thesis
    using assms(1-3)
    by (simp add: failIfTerminal_def SetBacktestStatus_def run_status_stmt_def pg_exec_def next_fault_def run_statuses_def
        act_simps)
qed

text \<open>
  C30 A worker can undo a success. The engine has answered, the artifact is saved and \<open>CompleteBacktest\<close> has
  committed, but it reports an error, which can only be that the acknowledgement of the commit was
  lost. On the last attempt of the job \<open>failIfTerminal\<close> then marks the run failed without looking at it: the
  run, which was completed with all its positions stored, ends as failed with its result and its
  ranking still in place, and no listing of candidates shows that ranking any more.
\<close>

theorem completed_run_fails:
  assumes "schema_ok (w_db w1)" and "uuid_in i = Inr i" and "job_MaxAttempts j \<le> job_Attempts j"
    and "missing_symbols (candidate_symbols (res_Candidates result)) universe = []"
    and "save (res_EquityCurveCSV result) w = (Inr key, w1)"
    and "CompleteBacktest i result key w1 = (Inl e, w2)" and "w_db w2 \<noteq> w_db w1" and "w_faults w2 = []"
  shows "e = Errorf ''commit complete backtest: %w'' [AW connection_error]
    \<and> (\<exists>r \<in> set (db_runs (w_db w2)). run_ID r = i \<and> run_Status r = ''completed''
         \<and> list_all2 (candidate_stored (w_db w2) i (cs_AsOf (res_Candidates result))) (cs_Positions (res_Candidates result))
             (filter (\<lambda>c. cnd_RunID c = i) (db_candidates (w_db w2))))
    \<and> (\<exists>w'. storeResult j i save i universe result w = (Inl e, w')
         \<and> (\<forall>r \<in> set (db_runs (w_db w')). run_ID r = i \<longrightarrow> run_Status r = ''failed'' \<and> run_ResultChecksum r \<noteq> None)
         \<and> db_candidates (w_db w') = db_candidates (w_db w2)
         \<and> (\<forall>f cs w''. ListCandidates f w' = (Inr cs, w'') \<longrightarrow> (\<forall>x \<in> set cs. cand_BacktestRunID x \<noteq> i)))"
proof -
  from complete_backtest_cases [OF assms(6,1)] assms(2,7) obtain row summary checksum where
    row: "row \<in> set (db_runs (w_db w1))" "run_ID row = i"
    and runs: "db_runs (w_db w2) = map (\<lambda>q. if q = row then finished_row summary key checksum
      (res_EngineVersion result) (db_now (w_db w1)) row else q) (db_runs (w_db w1))"
    and stored: "list_all2 (candidate_stored (w_db w2) i (cs_AsOf (res_Candidates result))) (cs_Positions (res_Candidates result))
      (filter (\<lambda>c. cnd_RunID c = i) (db_candidates (w_db w2)))"
    by auto
  define r where "r = finished_row summary key checksum (res_EngineVersion result) (db_now (w_db w1)) row"
  have r: "r \<in> set (db_runs (w_db w2))" "run_ID r = i" "run_Status r = ''completed''" "run_ResultChecksum r \<noteq> None"
    using row by (auto simp: runs r_def finished_row_def)
  have ok2: "schema_ok (w_db w2)"
    using keepsD [OF CompleteBacktest_store assms(6)] assms(1) by (simp add: on_db_def store_step_def)
  then have keys: "distinct (map run_ID (db_runs (w_db w2)))" by (simp add: schema_ok_def keys_ok_def)
  then have only: "q = r" if "q \<in> set (db_runs (w_db w2))" "run_ID q = i" for q
    using that r(1,2) by (auto simp: distinct_map dest: inj_onD)
  define w' where "w' = w2\<lparr>w_db := (w_db w2)\<lparr>db_runs :=
      update_where (\<lambda>q. run_ID q = i) (\<lambda>q. q\<lparr>run_Status := ''failed''\<rparr>) (db_runs (w_db w2))\<rparr>\<rparr>"
  note failed = failed_on_last [OF assms(3,8,2) keys r(1,2), of e, folded w'_def]
  have run: "storeResult j i save i universe result w = (Inl e, w')"
    using assms(4-6) failed by (simp add: storeResult_def or_terminal_def attempt_def)
  have rows: "\<forall>q \<in> set (db_runs (w_db w')). run_ID q = i \<longrightarrow> run_Status q = ''failed'' \<and> run_ResultChecksum q \<noteq> None"
  proof (intro ballI impI)
    fix q assume "q \<in> set (db_runs (w_db w'))" and q: "run_ID q = i"
    then have "q \<in> (\<lambda>p. if run_ID p = i then p\<lparr>run_Status := ''failed''\<rparr> else p) ` set (db_runs (w_db w2))"
      by (simp add: w'_def update_where_def)
    then obtain p where p: "p \<in> set (db_runs (w_db w2))" "q = (if run_ID p = i then p\<lparr>run_Status := ''failed''\<rparr> else p)" ..
    then have "run_ID p = i" using q by (simp split: if_splits)
    with only [OF p(1)] p(2) r(4) show "run_Status q = ''failed'' \<and> run_ResultChecksum q \<noteq> None" by simp
  qed
  have same: "db_candidates (w_db w') = db_candidates (w_db w2)" by (simp add: w'_def)
  have "store_step (w_db w2) (w_db w')"
    unfolding w'_def by simp (rule update_runs_step, simp add: same_run_def run_row_ok_def run_statuses_def)
  then have ok': "schema_ok (w_db w')" using ok2 by (simp add: store_step_def)
  have unlisted: "cand_BacktestRunID x \<noteq> i" if listed: "ListCandidates f w' = (Inr cs, w'')" "x \<in> set cs" for f cs w'' x
    using listed_completed [OF listed(1) ok' listed(2)] rows by fastforce
  show ?thesis
    by (intro conjI exI [of _ w'] bexI [OF _ r(1)] lost_commit [OF assms(6,7)] run rows same)
      (use r stored unlisted in blast)+
qed

section \<open>The last attempt at a concrete run\<close>

definition last_attempt :: job where
  "last_attempt = \<lparr>job_ID = sample_id, job_Type = ''run_backtest'', job_Payload = NoBytes, job_Attempts = 3, job_MaxAttempts = 3\<rparr>"

definition late_world :: world where
  "late_world = sample_world\<lparr>w_faults := [Healthy, Healthy, Healthy, Healthy, Healthy, LostAck]\<rparr>"

text \<open>The call of \<open>CompleteBacktest\<close> fails, all its statements took effect, and the script of faults is used up.\<close>

definition lost :: "world \<Rightarrow> unit result \<times> world \<Rightarrow> bool" where
  "lost w rw \<longleftrightarrow> (\<exists>e. fst rw = Inl e) \<and> w_faults (snd rw) = [] \<and> db_next (w_db (snd rw)) \<noteq> db_next (w_db w)"

lemma late_completion: "lost late_world (CompleteBacktest run_id1 sample_result ''backtests/a.csv'' late_world)"
proof -
  have "char64_in ''2'' = Inr (blank_padded ''2'')" by code_simp
  moreover have "candidate_set_validate (res_Candidates sample_result) = None"
    by (simp add: candidate_set_validate_iff sample_result_def fleq_def)
  ultimately show ?thesis
    by (simp add: lost_def late_world_def CompleteBacktest_def complete_run_def complete_run_stmt_def
        insertCandidates_def delete_candidates_stmt_def insert_position_def insert_candidate_stmt_def
        insert_evidence_stmt_def one_row_def update_where_def finished_row_def in_progress_def or_empty_object_def empty_object_def jsonb_in_def
        int4_in_def pg_positive_def run_simps fleq_def sample_result_def
        uuid_in_samples text_in_samples sample_uuid_new new_ids_differ sample_world_def sample_rows)
qed

theorem completed_run_fails_witness:
  "\<exists>e w2 w'. CompleteBacktest run_id1 sample_result ''backtests/a.csv'' late_world = (Inl e, w2)
     \<and> (\<exists>r \<in> set (db_runs (w_db w2)). run_ID r = run_id1 \<and> run_Status r = ''completed'')
     \<and> storeResult last_attempt run_id1 (\<lambda>content. ok ''backtests/a.csv'') run_id1 [''SPY''] sample_result late_world = (Inl e, w')
     \<and> (\<forall>r \<in> set (db_runs (w_db w')). run_ID r = run_id1 \<longrightarrow> run_Status r = ''failed'')"
proof -
  obtain x w2 where run: "CompleteBacktest run_id1 sample_result ''backtests/a.csv'' late_world = (x, w2)" by fastforce
  obtain e where e: "x = Inl e" "w_faults w2 = []" "db_next (w_db w2) \<noteq> db_next (w_db late_world)"
    using late_completion unfolding lost_def run by auto
  then have "w_db w2 \<noteq> w_db late_world" by metis
  moreover have "schema_ok (w_db late_world)" using sample_ok by (simp add: late_world_def sample_world_def)
  moreover have "missing_symbols (candidate_symbols (res_Candidates sample_result)) [''SPY''] = []"
    by (simp add: missing_symbols_def candidate_symbols_def sample_result_def)
  ultimately show ?thesis
    using completed_run_fails [of late_world run_id1 last_attempt sample_result "[''SPY'']" "\<lambda>content. ok ''backtests/a.csv''"
        late_world "''backtests/a.csv''" e w2] run e(1,2) uuid_in_samples(4)
    by (auto simp: last_attempt_def ok_def)
qed

end
