(* ===== verification/ServedSystem.thy ===== *)
theory ServedSystem
  imports HttpResponses
begin

text \<open>
  The whole program: API servers answering requests and workers taking jobs, in any order, over one
  database, one volume and one quant service.
\<close>

section \<open>The API within the promises\<close>

interpretation asks_api: api_frame asks_backed tables "served_options tables version rt most" verb for tables version rt most verb
  by (rule asks_services.served)

interpretation disciplined_api: api_frame disciplined tables "served_options tables version rt most" verb for tables version rt most verb
  by (rule disciplined_services.served)

section \<open>Steps\<close>

text \<open>
  A request answered, an iteration of a worker, with any such steps of other processes while the job is being
  carried out, or time going by: the clocks, the faults that lie ahead and the answers the quant service
  will give.
\<close>

inductive system_step ::
    "rune_tables \<Rightarrow> string \<Rightarrow> string \<Rightarrow> int \<Rightarrow> quant_client \<Rightarrow> site \<Rightarrow> site \<Rightarrow> bool"
  for tables :: rune_tables and version rt :: string and most :: int and client :: quant_client where
  answer_request: "NewHandler tables (served_options tables version rt most) request w = (r, w') \<Longrightarrow>
    system_step tables version rt most client w w'"
| take_job: "\<forall>v. (system_step tables version rt most client)\<^sup>*\<^sup>* v (meanwhile v) \<Longrightarrow>
    runOne tables (worker_options client rt worker poll lease) meanwhile w = (r, w') \<Longrightarrow>
    system_step tables version rt most client w w'"
| wait: "db_now (w_db w) \<le> now \<Longrightarrow>
    system_step tables version rt most client w
      (w\<lparr>w_db := (w_db w)\<lparr>db_now := now\<rparr>, w_faults := faults, w_clock := clock, s_os := breaks, s_replies := replies\<rparr>)"

lemma serves_step: "serves R h \<Longrightarrow> h w = (r, w') \<Longrightarrow> R w w'"
  unfolding serves_def by (metis snd_conv)

lemma clock_step: "db_now d \<le> now \<Longrightarrow> store_step d (d\<lparr>db_now := now\<rparr>)"
  by (rule store_step_same) (simp_all add: same_tables_def)

lemma along_asks: "(\<lambda>u v. Q u v \<and> asks_backed u v)\<^sup>*\<^sup>* w w' \<Longrightarrow> asks_backed w w'"
  by (induction rule: rtranclp_induct) (auto intro: asks_backed.R_refl asks_backed.R_trans)

lemma along_disciplined: "(\<lambda>u v. Q u v \<and> disciplined u v)\<^sup>*\<^sup>* w w' \<Longrightarrow> disciplined w w'"
  by (induction rule: rtranclp_induct) (auto intro: disciplined.R_refl disciplined.R_trans)

lemma system_step_asks: "system_step tables version rt most client w w' \<Longrightarrow> asks_backed w w'"
proof (induction rule: system_step.induct)
  case (answer_request request w r w')
  show ?case by (rule serves_step [OF asks_api.serves_api [OF refl] answer_request])
next
  case (take_job meanwhile worker poll lease w r w')
  then have "asks_backed v (meanwhile v)" for v using along_asks by blast
  then show ?case using asks_worker.runOne_step [of meanwhile w tables client rt worker poll lease] take_job(2) by simp
next
  case (wait w now faults clock breaks replies)
  then show ?case by (intro silent_asks) (simp_all add: clock_step)
qed

lemma system_step_disciplined: "system_step tables version rt most client w w' \<Longrightarrow> disciplined w w'"
proof (induction rule: system_step.induct)
  case (answer_request request w r w')
  show ?case by (rule serves_step [OF disciplined_api.serves_api [OF refl] answer_request])
next
  case (take_job meanwhile worker poll lease w r w')
  then have "disciplined v (meanwhile v)" for v using along_disciplined by blast
  then show ?case using disciplined_worker.runOne_step [of meanwhile w tables client rt worker poll lease] take_job(2) by simp
next
  case (wait w now faults clock breaks replies)
  then have "store_step (w_db w) ((w_db w)\<lparr>db_now := now\<rparr>)" by (rule clock_step)
  then show ?case by (simp add: disciplined_def unchanged_authorized)
qed

text \<open>The relations are preorders, so they hold along every run.\<close>

lemma system_run:
  assumes "(system_step tables version rt most client)\<^sup>*\<^sup>* w w'"
  shows "asks_backed w w' \<and> disciplined w w'"
  using assms
proof (induction rule: rtranclp_induct)
  case base
  show ?case using asks_backed.R_refl disciplined.R_refl by blast
next
  case (step u v)
  then show ?case
    using system_step_asks system_step_disciplined asks_backed.R_trans disciplined.R_trans by blast
qed

text \<open>
  C21 The program as a whole keeps its promises. Whatever requests come in and whatever jobs are taken, in
  whatever order, with whatever faults of the connection, the disk and the quant service: the tables stay
  sound; every stored candidate stands for a symbol of the universe its own strategy authorizes; and
  every backtest the engine was asked to run rests on committed research, with no signal from after the
  run's cutoff.
\<close>

theorem system_sound:
  assumes "(system_step tables version rt most client)\<^sup>*\<^sup>* w w'"
    and "schema_ok (w_db w)" and "authorized (w_db w)" and "\<forall>q \<in> set (s_sent w). backed (w_db w) q"
  shows "schema_ok (w_db w') \<and> authorized (w_db w') \<and> (\<forall>q \<in> set (s_sent w'). backed (w_db w') q)"
proof -
  note run = system_run [OF assms(1)]
  obtain sent where sent: "s_sent w' = s_sent w @ sent" "\<forall>q \<in> set sent. backed (w_db w') q"
    using run assms(2) by (auto simp: asks_backed_def)
  have "store_step (w_db w) (w_db w')" using run by (simp add: asks_backed_def)
  then have "\<forall>q \<in> set (s_sent w). backed (w_db w') q" using assms(2,4) backed_later by blast
  moreover have "schema_ok (w_db w')" "authorized (w_db w')"
    using run assms(2,3) by (simp_all add: disciplined_def stays_authorized_def)
  ultimately show ?thesis using sent by auto
qed

theorem system_sound_witness:
  "\<exists>r w'. NewHandler plain_tables (served_options plain_tables ''dev'' ''/srv'' 20971520) (get_request ''/v1/candidates'')
       (sample_site ranked_db) = (r, w')
     \<and> authorized (w_db w')"
proof -
  obtain r w' where run: "NewHandler plain_tables (served_options plain_tables ''dev'' ''/srv'' 20971520)
      (get_request ''/v1/candidates'') (sample_site ranked_db) = (r, w')" by fastforce
  have start: "w_db (sample_site ranked_db) = ranked_db" "s_sent (sample_site ranked_db) = []" by (simp_all add: sample_site_def)
  have "(system_step plain_tables ''dev'' ''/srv'' 20971520 sample_client)\<^sup>*\<^sup>* (sample_site ranked_db) w'"
    by (rule r_into_rtranclp) (rule answer_request [OF run])
  from system_sound [OF this] have "authorized (w_db w')" using ranked_ok ranked_authorized start by simp
  with run show ?thesis by blast
qed

end
