(* ===== verification/StrategyContract.thy ===== *)
theory StrategyContract
  imports SpecJson Float64Rounding
begin

text \<open>
  The contract of record for a strategy, \<open>contracts/strategy-spec.schema.json\<close>, read as a predicate on JSON
  documents, and how far \<open>Spec.Validate\<close> agrees with it.
\<close>

section \<open>The vocabulary of JSON Schema\<close>

definition string_that :: "(string \<Rightarrow> bool) \<Rightarrow> json \<Rightarrow> bool" where
  "string_that p j = (case j of JString s \<Rightarrow> p s | _ \<Rightarrow> False)"

definition number_that :: "(rat \<Rightarrow> bool) \<Rightarrow> json \<Rightarrow> bool" where
  "number_that p j = (case j of JInt n \<Rightarrow> p (of_int n) | JFloat q \<Rightarrow> p q | _ \<Rightarrow> False)"

text \<open>An integer is a number without a fractional part, however it is written.\<close>

definition integer_from :: "int \<Rightarrow> json \<Rightarrow> bool" where
  "integer_from least = number_that (\<lambda>q. of_int \<lfloor>q\<rfloor> = q \<and> of_int least \<le> q)"

definition array_that :: "nat \<Rightarrow> (json \<Rightarrow> bool) \<Rightarrow> json \<Rightarrow> bool" where
  "array_that least p j = (case j of JArray js \<Rightarrow> least \<le> length js \<and> list_all p js | _ \<Rightarrow> False)"

text \<open>\<open>additionalProperties: false\<close>: every member is a property of the schema, and the required ones are there.\<close>

definition object_of :: "(string \<times> (json \<Rightarrow> bool)) list \<Rightarrow> string list \<Rightarrow> json \<Rightarrow> bool" where
  "object_of properties required j =
     (case j of
        JObject kvs \<Rightarrow>
          list_all (\<lambda>(k, v). case map_of properties k of None \<Rightarrow> False | Some p \<Rightarrow> p v) kvs
          \<and> list_all (\<lambda>k. k \<in> fst ` set kvs) required
      | _ \<Rightarrow> False)"

definition scalar_json :: "json \<Rightarrow> bool" where
  "scalar_json j = (case j of JInt _ \<Rightarrow> True | JFloat _ \<Rightarrow> True | JString _ \<Rightarrow> True | JBool _ \<Rightarrow> True | _ \<Rightarrow> False)"

lemmas schema_simps = string_that_def number_that_def integer_from_def array_that_def object_of_def scalar_json_def

section \<open>The schema\<close>

definition universe_schema :: "json \<Rightarrow> bool" where
  "universe_schema = object_of
     [(''name'', string_that (\<lambda>s. True)), (''asset_class'', string_that (\<lambda>s. s \<in> set [''equity'', ''etf''])),
      (''symbols'', array_that 1 (string_that symbol_pattern))]
     [''name'', ''asset_class'', ''symbols'']"

definition filter_schema :: "json \<Rightarrow> bool" where
  "filter_schema = object_of
     [(''field'', string_that (\<lambda>s. s \<in> set [''lookback_months'', ''top_n'', ''momentum'', ''claim_confidence'',
        ''claim_signal_weight'', ''claim_horizon_days'', ''require_claim_support'', ''execution_lag_days'',
        ''cash_policy'', ''risk_free_rate'', ''benchmark_symbol''])),
      (''operator'', string_that (\<lambda>s. s \<in> set [''gt'', ''gte'', ''lt'', ''lte'', ''eq''])), (''value'', scalar_json)]
     [''field'', ''operator'', ''value'']"

definition selection_schema :: "json \<Rightarrow> bool" where
  "selection_schema = object_of
     [(''template'', string_that (\<lambda>s. s \<in> set [''research-supported-momentum'', ''quality-trend'', ''macro-theme-etf''])),
      (''filters'', array_that 0 filter_schema)]
     [''template'', ''filters'']"

definition rebalance_schema :: "json \<Rightarrow> bool" where
  "rebalance_schema = object_of
     [(''schedule'', string_that (\<lambda>s. s \<in> set [''weekly'', ''monthly'', ''quarterly'']))] [''schedule'']"

definition risk_schema :: "json \<Rightarrow> bool" where
  "risk_schema = object_of
     [(''max_position_weight'', number_that (\<lambda>q. 0 < q \<and> q \<le> 1)),
      (''transaction_cost_bps'', number_that (\<lambda>q. 0 \<le> q \<and> q \<le> 1000)),
      (''stop_loss_pct'', number_that (\<lambda>q. 0 < q \<and> q \<le> 1))]
     [''max_position_weight'', ''transaction_cost_bps'']"

text \<open>\<open>minLength\<close> and \<open>maxLength\<close> count characters.\<close>

definition strategy_schema :: "json \<Rightarrow> bool" where
  "strategy_schema = object_of
     [(''slug'', string_that slug_pattern), (''version'', integer_from 1),
      (''name'', string_that (\<lambda>s. 3 \<le> length (runes s) \<and> length (runes s) \<le> 120)),
      (''universe'', universe_schema), (''selection'', selection_schema), (''rebalance'', rebalance_schema),
      (''risk'', risk_schema)]
     [''slug'', ''version'', ''name'', ''universe'', ''selection'', ''rebalance'', ''risk'']"

section \<open>Numbers across the encoding\<close>

lemma round64_small:
  "round64 1000 = Fin 1000" "round64 10000 = Fin 10000"
  by (rule round64_exact [of 9 _ "1000 * 2 ^ 43"], simp_all add: two_pow_def)
    (rule round64_exact [of 13 _ "10000 * 2 ^ 39"], simp_all add: two_pow_def)

lemma shortest_thousand: "shortest_decimal 1000 = 1000"
proof -
  obtain m :: nat where m: "1100 = Suc (Suc m)" using that [of 1098] by simp
  have near: "round_even (1 / 10) = 0" by (simp add: round_even_def Let_def) linarith
  have "round64 0 = Fin 0" by (simp add: round64_def)
  then have "decimal_at (- 4) 1000 = None" "decimal_at (- 3) 1000 = Some 1000"
    using round_even_of_int [of 1] by (simp_all add: decimal_at_def ten_pow_def near round64_small Let_def)
  moreover have "length (digits_of 1000) = 4" by (simp add: digits_of.simps)
  ultimately show ?thesis unfolding shortest_decimal_def m by simp
qed

text \<open>The decimal that stands for a number lies on the same side of a bound that is its own decimal.\<close>

lemma decimal_sign:
  assumes "round64 q = Fin q"
  shows "0 < shortest_decimal q \<longleftrightarrow> 0 < q" and "0 \<le> shortest_decimal q \<longleftrightarrow> 0 \<le> q"
proof -
  let ?d = "shortest_decimal q"
  have reads: "round64 ?d = Fin q" by (rule shortest_decimal_reads_back [OF assms])
  have pos: "0 \<le> q" if "0 \<le> ?d" using fleq_zero_round64 [OF that] reads by (simp add: fleq_def)
  have neg: "q \<le> 0" if "?d < 0"
    using that reads grid_nonneg [of "- ?d"] by (auto simp: round64_def round_pos_grid split: if_splits)
  have zero: "?d = 0 \<longleftrightarrow> q = 0"
  proof
    show "q = 0" if "?d = 0" using reads that by (simp add: round64_def)
    show "?d = 0" if "q = 0" using that shortest_units(1) by simp
  qed
  show "0 < ?d \<longleftrightarrow> 0 < q" "0 \<le> ?d \<longleftrightarrow> 0 \<le> q" using pos neg zero by (metis leD leI order.strict_iff_order)+
qed

lemma decimal_bound:
  assumes "round64 q = Fin q" and "0 \<le> b" and "round64 b = Fin b" and "shortest_decimal b = b"
  shows "shortest_decimal q \<le> b \<longleftrightarrow> q \<le> b"
proof -
  let ?d = "shortest_decimal q"
  have reads: "round64 ?d = Fin q" by (rule shortest_decimal_reads_back [OF assms(1)])
  show ?thesis
  proof
    assume le: "?d \<le> b"
    show "q \<le> b"
    proof (cases "0 \<le> ?d")
      case True
      then show ?thesis using round64_mono [OF True le] reads assms(3) by (simp add: fleq_def)
    next
      case False
      then show ?thesis using decimal_sign(2) [OF assms(1)] assms(2) by linarith
    qed
  next
    assume le: "q \<le> b"
    show "?d \<le> b"
    proof (rule ccontr)
      assume "\<not> ?d \<le> b"
      then have "fleq (round64 b) (round64 ?d)" using assms(2) by (intro round64_mono) simp_all
      then have "q = b" using le reads assms(3) by (simp add: fleq_def)
      with \<open>\<not> ?d \<le> b\<close> assms(4) show False by simp
    qed
  qed
qed

lemmas decimal_bounds =
  decimal_bound [OF _ zero_le_one round64_1 shortest_units(2)]
  decimal_bound [OF _ _ round64_small(1) shortest_thousand, simplified]

section \<open>What decoding a request can yield\<close>

text \<open>Strings are UTF-8, numbers are values of the format, and a value that is no scalar is a list or an object.\<close>

definition decodable_value :: "filter_value \<Rightarrow> bool" where
  "decodable_value v =
     (case v of
        VFloat x \<Rightarrow> canonical x
      | VOther j \<Rightarrow> (case j of JArray _ \<Rightarrow> True | JObject _ \<Rightarrow> True | _ \<Rightarrow> False)
      | _ \<Rightarrow> True)"

definition decodable_filter :: "spec_filter \<Rightarrow> bool" where
  "decodable_filter f \<longleftrightarrow> json_text (flt_Field f) \<and> json_text (flt_Operator f) \<and> decodable_value (flt_Value f)"

definition decodable_risk :: "risk \<Rightarrow> bool" where
  "decodable_risk r \<longleftrightarrow> canonical (risk_MaxPositionWeight r) \<and> canonical (risk_TransactionCostBps r)
     \<and> (\<forall>p. risk_StopLossPct r = Some p \<longrightarrow> canonical p)"

definition decodable :: "spec \<Rightarrow> bool" where
  "decodable s \<longleftrightarrow>
     json_text (spec_Slug s) \<and> json_text (spec_Name s)
     \<and> json_text (uni_Name (spec_Universe s)) \<and> json_text (uni_AssetClass (spec_Universe s))
     \<and> list_all json_text (uni_Symbols (spec_Universe s))
     \<and> json_text (sel_Template (spec_Selection s)) \<and> list_all decodable_filter (spec_filters s)
     \<and> json_text (reb_Schedule (spec_Rebalance s)) \<and> decodable_risk (spec_Risk s)"

section \<open>The parts agree\<close>

lemma number_encoded:
  assumes "json_float x = Inr j" and "canonical x"
  obtains q where "position x = Some (0, q)" "round64 q = Fin q" "\<And>p. number_that p j = p (shortest_decimal q)" "scalar_json j"
proof -
  obtain q where q: "finite_val x = Some q" using assms(1) by (auto simp: json_float_def split: option.splits)
  have "position x = Some (0, q)" "round64 q = Fin q"
    using q assms(2) by (cases x; simp add: canonical_def round64_def)+
  moreover have "number_that p j = p (shortest_decimal q)" "scalar_json j" for p
    using assms(1) q by (auto simp: json_float_def number_that_def scalar_json_def split: if_splits)
  ultimately show thesis by (rule that)
qed

lemma fraction_encoded:
  assumes "json_float x = Inr j" and "canonical x"
  shows "number_that (\<lambda>q. 0 < q \<and> q \<le> 1) j \<longleftrightarrow> \<not> fleq x fzero \<and> \<not> fless (Fin 1) x"
proof -
  obtain q where q: "position x = Some (0, q)" "round64 q = Fin q" "\<And>p. number_that p j = p (shortest_decimal q)"
    using number_encoded [OF assms] by metis
  show ?thesis by (simp add: q(1,3) decimal_sign [OF q(2)] decimal_bounds(1) [OF q(2)] fleq_def fless_def not_le not_less)
qed

lemma cost_encoded:
  assumes "json_float x = Inr j" and "canonical x"
  shows "number_that (\<lambda>q. 0 \<le> q \<and> q \<le> 1000) j \<longleftrightarrow> \<not> fless x fzero \<and> \<not> fless (Fin 1000) x"
proof -
  obtain q where q: "position x = Some (0, q)" "round64 q = Fin q" "\<And>p. number_that p j = p (shortest_decimal q)"
    using number_encoded [OF assms] by metis
  show ?thesis by (simp add: q(1,3) decimal_sign [OF q(2)] decimal_bounds(2) [OF q(2)] fless_def not_less)
qed

lemma risk_agrees:
  assumes "risk_json r = Inr j" and "decodable_risk r"
  shows "risk_schema j \<longleftrightarrow> risk_ok r"
proof -
  obtain w c st where j: "json_float (risk_MaxPositionWeight r) = Inr w" "json_float (risk_TransactionCostBps r) = Inr c"
    "opt_in json_float (risk_StopLossPct r) = Inr st"
    "j = JObject ([(''max_position_weight'', w), (''transaction_cost_bps'', c)]
       @ (case st of None \<Rightarrow> [] | Some p \<Rightarrow> [(''stop_loss_pct'', p)]))"
    using assms(1) by (auto simp: risk_json_def chain_Inr)
  have "canonical (risk_MaxPositionWeight r)" "canonical (risk_TransactionCostBps r)"
    using assms(2) by (simp_all add: decodable_risk_def)
  note nums = fraction_encoded [OF j(1) this(1)] cost_encoded [OF j(2) this(2)]
  show ?thesis
  proof (cases "risk_StopLossPct r")
    case None
    then have "st = None" using j(3) by simp
    then show ?thesis using nums None by (simp add: j(4) risk_schema_def object_of_def risk_ok_def)
  next
    case (Some p)
    then obtain k where k: "st = Some k" "json_float p = Inr k" using j(3) by (auto split: sum.splits)
    have "canonical p" using assms(2) Some by (simp add: decodable_risk_def)
    from fraction_encoded [OF k(2) this] show ?thesis
      using nums Some by (auto simp: j(4) k(1) risk_schema_def object_of_def risk_ok_def)
  qed
qed

lemma value_agrees: "value_json v = Inr j \<Longrightarrow> decodable_value v \<Longrightarrow> scalar_json j \<longleftrightarrow> scalar_value v"
  by (cases v) (auto simp: value_json_def decodable_value_def json_string_def scalar_json_def elim: number_encoded split: json.splits)

lemma filter_agrees:
  assumes "filter_json f = Inr j" and "decodable_filter f"
  shows "filter_schema j \<longleftrightarrow> flt_Field f \<in> set filter_fields \<and> flt_Operator f \<in> set filter_operators
    \<and> scalar_value (flt_Value f)"
proof -
  obtain v where v: "value_json (flt_Value f) = Inr v"
    and j: "j = JObject [(''field'', JString (flt_Field f)), (''operator'', JString (flt_Operator f)), (''value'', v)]"
    using assms by (auto simp: filter_json_def chain_Inr decodable_filter_def json_text_def)
  have "scalar_json v \<longleftrightarrow> scalar_value (flt_Value f)"
    using assms(2) by (intro value_agrees [OF v]) (simp add: decodable_filter_def)
  then show ?thesis
    by (simp add: j filter_schema_def object_of_def string_that_def filter_fields_def filter_operators_def)
qed

lemma filters_agree:
  "all_in filter_json fs = Inr js \<Longrightarrow> list_all decodable_filter fs \<Longrightarrow>
     list_all filter_schema js \<longleftrightarrow> (\<forall>f \<in> set fs. flt_Field f \<in> set filter_fields
       \<and> flt_Operator f \<in> set filter_operators \<and> scalar_value (flt_Value f))"
proof (induction fs arbitrary: js)
  case (Cons f fs)
  obtain k ks where k: "js = k # ks" "filter_json f = Inr k" "all_in filter_json fs = Inr ks"
    using Cons.prems(1) by (auto split: sum.splits)
  have "decodable_filter f" using Cons.prems(2) by simp
  from filter_agrees [OF k(2) this] Cons.IH [OF k(3)] Cons.prems(2) show ?case by (simp add: k(1))
qed simp

lemma selection_agrees:
  assumes "selection_json x = Inr j" and "json_text (sel_Template x)" and "list_all decodable_filter (items (sel_Filters x))"
  shows "selection_schema j \<longleftrightarrow> valid_template (sel_Template x) \<and> sel_Filters x \<noteq> None
    \<and> (\<forall>f \<in> set (items (sel_Filters x)). flt_Field f \<in> set filter_fields \<and> flt_Operator f \<in> set filter_operators
        \<and> scalar_value (flt_Value f))"
proof (cases "sel_Filters x")
  case None
  then have "j = JObject [(''template'', json_string (sel_Template x)), (''filters'', JNull)]"
    using assms(1) by (simp add: selection_json_def)
  then show ?thesis using None by (simp add: selection_schema_def object_of_def array_that_def)
next
  case (Some fs)
  then obtain js where js: "all_in filter_json fs = Inr js"
    "j = JObject [(''template'', JString (sel_Template x)), (''filters'', JArray js)]"
    using assms(1,2) by (auto simp: selection_json_def chain_Inr json_text_def)
  have "list_all decodable_filter fs" using assms(3) Some by (simp add: items_def)
  from filters_agree [OF js(1) this] show ?thesis
    using Some by (simp add: js(2) selection_schema_def object_of_def array_that_def string_that_def valid_template_def items_def)
qed

lemma universe_agrees:
  assumes "json_text (uni_Name u)" and "json_text (uni_AssetClass u)" and "list_all json_text (uni_Symbols u)"
  shows "universe_schema (universe_json u) \<longleftrightarrow> uni_AssetClass u \<in> {''equity'', ''etf''} \<and> uni_Symbols u \<noteq> []
    \<and> (\<forall>y \<in> set (uni_Symbols u). symbol_pattern y)"
proof -
  have "list_all (string_that symbol_pattern) (map json_string (uni_Symbols u)) \<longleftrightarrow> (\<forall>y \<in> set (uni_Symbols u). symbol_pattern y)"
    using assms(3) by (auto simp: list_all_iff json_text_def string_that_def)
  then show ?thesis
    using assms(1,2) by (auto simp: universe_json_def universe_schema_def object_of_def string_that_def array_that_def
        json_text_def Suc_le_eq)
qed

section \<open>Validation and the contract\<close>

text \<open>
  C40 How far \<open>Spec.Validate\<close> agrees with the contract of record. For a spec that decoding a request can
  yield, committing it writes a document that satisfies \<open>strategy-spec.schema.json\<close> exactly when the spec
  passes \<open>Validate\<close>, up to three differences: the contract counts the characters of the name as it is,
  \<open>Validate\<close> the bytes of the trimmed name; the contract requires the list of filters, which \<open>Validate\<close>
  lets be missing; and \<open>Validate\<close> refuses a blank name of the universe, which the contract allows. Every
  other bound, pattern and closed list is the same on both sides, through the decimals JSON writes.
\<close>

theorem contract_agreement:
  assumes "decodable s" and "spec_json s = Inr j"
  shows "spec_validate s = None \<and> sel_Filters (spec_Selection s) \<noteq> None
      \<and> 3 \<le> length (runes (spec_Name s)) \<and> length (runes (spec_Name s)) \<le> 120
    \<longleftrightarrow> strategy_schema j \<and> 3 \<le> length (trim_space (spec_Name s)) \<and> length (trim_space (spec_Name s)) \<le> 120
      \<and> trim_space (uni_Name (spec_Universe s)) \<noteq> []"
proof -
  obtain sel ri where parts: "selection_json (spec_Selection s) = Inr sel" "risk_json (spec_Risk s) = Inr ri"
    and j: "j = JObject [(''slug'', json_string (spec_Slug s)), (''version'', JInt (spec_Version s)),
       (''name'', json_string (spec_Name s)), (''universe'', universe_json (spec_Universe s)), (''selection'', sel),
       (''rebalance'', JObject [(''schedule'', json_string (reb_Schedule (spec_Rebalance s)))]), (''risk'', ri)]"
    using assms(2) by (auto simp: spec_json_def chain_Inr)
  have filters: "spec_filters s = items (sel_Filters (spec_Selection s))" by (simp add: spec_filters_def items_def)
  have "selection_schema sel \<longleftrightarrow> valid_template (sel_Template (spec_Selection s)) \<and> sel_Filters (spec_Selection s) \<noteq> None
      \<and> (\<forall>f \<in> set (spec_filters s). flt_Field f \<in> set filter_fields \<and> flt_Operator f \<in> set filter_operators
          \<and> scalar_value (flt_Value f))"
    using assms(1) unfolding filters decodable_def by (intro selection_agrees [OF parts(1)]) simp_all
  moreover have "risk_schema ri \<longleftrightarrow> risk_ok (spec_Risk s)"
    using assms(1) by (intro risk_agrees [OF parts(2)]) (simp add: decodable_def)
  moreover have "universe_schema (universe_json (spec_Universe s)) \<longleftrightarrow> uni_AssetClass (spec_Universe s) \<in> {''equity'', ''etf''}
      \<and> uni_Symbols (spec_Universe s) \<noteq> [] \<and> (\<forall>y \<in> set (uni_Symbols (spec_Universe s)). symbol_pattern y)"
    using assms(1) by (intro universe_agrees) (simp_all add: decodable_def)
  ultimately show ?thesis
    using assms(1) unfolding spec_validate_None spec_ok_def
    by (auto simp: j strategy_schema_def object_of_def rebalance_schema_def string_that_def integer_from_def number_that_def
        decodable_def json_text_def)
qed

section \<open>A name of one character\<close>

text \<open>A single character of three bytes.\<close>

definition sun :: string where "sun = map char_of [230, 151, 165 :: nat]"

definition named_spec :: "string \<Rightarrow> spec" where
  "named_spec name =
     \<lparr>spec_Slug = ''momentum'', spec_Version = 1, spec_Name = name,
      spec_Universe = \<lparr>uni_Name = ''core'', uni_AssetClass = ''etf'', uni_Symbols = [''SPY'']\<rparr>,
      spec_Selection = \<lparr>sel_Template = ''quality-trend'', sel_Filters = Some []\<rparr>,
      spec_Rebalance = \<lparr>reb_Schedule = ''weekly''\<rparr>,
      spec_Risk = \<lparr>risk_MaxPositionWeight = Fin 1, risk_TransactionCostBps = Fin 0, risk_StopLossPct = None\<rparr>\<rparr>"

lemma named_texts: "is_ascii ''momentum''" "is_ascii ''core''" "is_ascii ''etf''" "is_ascii ''SPY''" "is_ascii ''quality-trend''"
  "is_ascii ''weekly''"
  by code_simp+

lemma named_decodable: "json_text name \<Longrightarrow> decodable (named_spec name)"
  using named_texts round64_1
  by (simp add: decodable_def named_spec_def json_text_def json_string_ascii spec_filters_def decodable_risk_def canonical_def)
    (simp add: round64_def)

lemma named_encodes: "\<exists>j. spec_json (named_spec name) = Inr j"
  by (simp add: spec_json_def named_spec_def selection_json_def risk_json_def json_float_def)

lemma named_valid:
  "spec_validate (named_spec name) = None \<longleftrightarrow> 3 \<le> length (trim_space name) \<and> length (trim_space name) \<le> 120"
  by (simp add: spec_validate_None spec_ok_def named_spec_def trim_space_sample slug_pattern_def symbol_pattern_def
      byte_in_def slug_char_def valid_template_def spec_filters_def risk_ok_def fless_def fleq_def)

lemma sun_name: "json_text sun" "trim_space sun = sun" "length (runes sun) = 1" "length sun = 3"
  unfolding json_text_def sun_def by code_simp+

theorem contract_agreement_witness:
  "(\<exists>j. spec_json (named_spec sun) = Inr j \<and> spec_validate (named_spec sun) = None \<and> \<not> strategy_schema j)
   \<and> (\<exists>j. spec_json (named_spec ''Momentum'') = Inr j \<and> strategy_schema j)"
proof
  obtain j where j: "spec_json (named_spec sun) = Inr j" using named_encodes by blast
  have "spec_Name (named_spec sun) = sun" "trim_space (uni_Name (spec_Universe (named_spec sun))) \<noteq> []"
    by (simp_all add: named_spec_def trim_space_sample)
  then show "\<exists>j. spec_json (named_spec sun) = Inr j \<and> spec_validate (named_spec sun) = None \<and> \<not> strategy_schema j"
    using j contract_agreement [OF named_decodable [OF sun_name(1)] j] named_valid sun_name by auto
next
  obtain j where j: "spec_json (named_spec ''Momentum'') = Inr j" using named_encodes by blast
  have ascii: "is_ascii ''Momentum''" by code_simp
  then have "json_text ''Momentum''" by (simp add: json_text_def json_string_ascii)
  moreover have "spec_Name (named_spec ''Momentum'') = ''Momentum''" "sel_Filters (spec_Selection (named_spec ''Momentum'')) \<noteq> None"
    by (simp_all add: named_spec_def)
  ultimately show "\<exists>j. spec_json (named_spec ''Momentum'') = Inr j \<and> strategy_schema j"
    using j contract_agreement [OF named_decodable j] named_valid [of "''Momentum''"] runes_ascii [OF ascii]
    by (auto simp: trim_space_sample)
qed

end
