(* ===== verification/WorkerLiveness.thy ===== *)
theory WorkerLiveness
  imports WorkerProgress
begin

text \<open>
  No job waits for ever while failures are recorded: of the jobs before it in the queue, each iteration
  takes one away for good. When failures cannot be recorded, one job can keep all others waiting.
\<close>

section \<open>The first move of a waiting job\<close>

text \<open>A job that waits can only move by being leased, and that is counted for good.\<close>

lemma waiting_job_moves:
  assumes "job_moves j k" and "jr_State j \<in> {''queued'', ''retryable''}"
  shows "k = j \<or> job_Attempts j < job_Attempts k"
  using assms(1)
proof (cases rule: converse_rtranclpE)
  case (step j1)
  have "job_Attempts j < job_Attempts j1"
    using step(1) assms(2) by (auto elim!: completed_moves simp: leased_row_def)
  then show ?thesis using job_moves_keep [OF step(2)] by simp
qed simp

section \<open>The jobs before it\<close>

text \<open>The jobs that are not settled and come before a place in the queue, or share it.\<close>

definition ahead :: "string \<Rightarrow> time \<times> time \<Rightarrow> db \<Rightarrow> string set" where
  "ahead i key d = job_ID ` {k \<in> set (db_jobs d). jr_State k \<notin> {''completed'', ''failed''} \<and> queue_key k \<le> key \<and> job_ID k \<noteq> i}"

text \<open>What happens elsewhere pushes nothing in front of the place, and clocks do not run backwards.\<close>

definition lets_by :: "string \<Rightarrow> time \<times> time \<Rightarrow> 'x world_scheme \<Rightarrow> 'x world_scheme \<Rightarrow> bool" where
  "lets_by i key v v' \<longleftrightarrow>
     db_now (w_db v) \<le> db_now (w_db v') \<and> w_clock v \<le> w_clock v' \<and> ahead i key (w_db v') \<subseteq> ahead i key (w_db v)"

text \<open>The place is due for the server, and by the worker's clock not more than a second ahead.\<close>

definition due_by :: "time \<times> time \<Rightarrow> 'x world_scheme \<Rightarrow> bool" where
  "due_by key v \<longleftrightarrow> fst key \<le> db_now (w_db v) \<and> fst key < ts_in (w_clock v + nanos_per_second)"

lemma due_stays: "due_by key v \<Longrightarrow> lets_by i key v v' \<Longrightarrow> due_by key v'"
  using ts_in_mono [of "w_clock v + nanos_per_second" "w_clock v' + nanos_per_second"]
  by (auto simp: due_by_def lets_by_def)

lemma finite_ahead: "finite (ahead i key d)"
  by (simp add: ahead_def)

lemma ahead_leased:
  assumes "db_jobs d' = map (\<lambda>q. if q = j then leased_row worker until now q else q) (db_jobs d)"
    and "jr_State j \<notin> {''completed'', ''failed''}"
  shows "ahead i key d' \<subseteq> ahead i key d"
  using assms by (auto simp: ahead_def leased_row_def)

text \<open>A settled job is behind every place that is due.\<close>

lemma settled_behind:
  assumes "settles j clock f" and "fst key < ts_in (clock + nanos_per_second)"
  shows "job_ID (f r) = job_ID r \<and> job_Attempts (f r) = job_Attempts r
    \<and> (jr_State (f r) \<in> {''completed'', ''failed''} \<or> \<not> queue_key (f r) \<le> key)"
  using assms by (cases key) (auto simp: settles_def completed_row_def failed_row_def)

lemma ahead_settled:
  assumes "jobs_ok d" and "r \<in> set (db_jobs d)" and "db_jobs d' = map (\<lambda>q. if q = r then f q else q) (db_jobs d)"
    and "settles j clock f" and "fst key < ts_in (clock + nanos_per_second)"
  shows "ahead i key d' \<subseteq> ahead i key d - {job_ID r}"
proof
  fix n assume "n \<in> ahead i key d'"
  then obtain k where k: "k \<in> set (db_jobs d')" "n = job_ID k" "jr_State k \<notin> {''completed'', ''failed''}"
    "queue_key k \<le> key" "job_ID k \<noteq> i"
    by (auto simp: ahead_def)
  obtain q where q: "q \<in> set (db_jobs d)" "k = (if q = r then f q else q)" using k(1) assms(3) by auto
  have "q \<noteq> r" using settled_behind [OF assms(4,5), of r] k(3,4) q(2) by auto
  then have "k = q" "job_ID q \<noteq> job_ID r" using q job_id_row [OF assms(1,2) q(1)] by auto
  then show "n \<in> ahead i key d - {job_ID r}" using k q(1) by (auto simp: ahead_def)
qed

section \<open>One iteration\<close>

text \<open>The job has been taken: its row is there, with more attempts.\<close>

definition taken :: "job_row \<Rightarrow> db \<Rightarrow> bool" where
  "taken j d \<longleftrightarrow> (\<exists>k \<in> set (db_jobs d). job_ID k = job_ID j \<and> job_Type k = job_Type j \<and> job_Payload k = job_Payload j
     \<and> job_Attempts j < job_Attempts k)"

lemma taken_stays: "taken j d \<Longrightarrow> jobs_evolve d d' \<Longrightarrow> taken j d'"
  unfolding taken_def using jobs_evolve_row job_moves_keep by (metis (no_types, lifting) order_less_le_trans)

lemma step_evolves: "store_step d d' \<Longrightarrow> schema_ok d \<Longrightarrow> schema_ok d' \<and> jobs_evolve d d'"
  by (simp add: store_step_def grows_def)

lemma iteration_advances:
  fixes w :: "'x site_scheme"
  assumes run: "runOne tables (worker_options client rt i p l) meanwhile w = ((b, None), w')"
    and ok: "schema_ok (w_db w)" and elsewhere: "\<And>v. store_step (w_db v) (w_db (meanwhile v))"
    and patient: "\<And>v. due_by (queue_key j) v \<Longrightarrow> lets_by (job_ID j) (queue_key j) v (meanwhile v)"
    and j: "j \<in> set (db_jobs (w_db w))" "jr_State j \<in> {''queued'', ''retryable''}" and due: "due_by (queue_key j) w"
    and ids: "\<forall>n \<in> ahead (job_ID j) (queue_key j) (w_db w). uuid_in n = Inr n"
  shows "b \<and> (taken j (w_db w') \<or> j \<in> set (db_jobs (w_db w')) \<and> due_by (queue_key j) w'
    \<and> ahead (job_ID j) (queue_key j) (w_db w') \<subset> ahead (job_ID j) (queue_key j) (w_db w))"
proof -
  have jobs: "jobs_ok (w_db w)" using ok by (simp add: schema_ok_def)
  have leasable: "leasable (db_now (w_db w)) j" using j(2) due by (auto simp: leasable_def due_by_def)
  have b
  proof (rule ccontr)
    assume "\<not> b"
    then obtain w1 where "LeaseNextJob i l w = (Inr None, w1)"
      using run by (auto simp: runOne_def worker_options_def split: sum.splits option.splits prod.splits)
    from lease_stmt_Inr [OF LeaseNextJob_Inr [OF this]] have "next_job (w_db w) = None" by (auto split: option.splits)
    then show False using leasable j(1) by (simp add: next_job_None)
  qed
  moreover have "taken j (w_db w') \<or> j \<in> set (db_jobs (w_db w')) \<and> due_by (queue_key j) w'
    \<and> ahead (job_ID j) (queue_key j) (w_db w') \<subset> ahead (job_ID j) (queue_key j) (w_db w)"
    using run [unfolded eqTrueI [OF \<open>b\<close>]] ok elsewhere
  proof (rule clean_iteration)
    fix j0 until w1 w2 r f
    assume j0: "next_job (w_db w) = Some j0"
      and leased: "db_jobs (w_db w1) = map (\<lambda>q. if q = j0 then leased_row i until (db_now (w_db w)) q else q) (db_jobs (w_db w))"
      and between: "w_clock w1 = w_clock w" "db_now (w_db w1) = db_now (w_db w)" "schema_ok (w_db w1)"
        "store_step (w_db w1) (w_db w2)" "same_queue w1 w2" "schema_ok (w_db (meanwhile w2))"
      and r: "r \<in> set (db_jobs (w_db (meanwhile w2)))" "uuid_in (job_ID j0) = Inr (job_ID r)" "jr_State r = ''leased''"
        "settles j0 (w_clock (meanwhile w2)) f" "db_now (w_db w') = db_now (w_db (meanwhile w2))"
        "w_clock w' = w_clock (meanwhile w2)"
        "db_jobs (w_db w') = map (\<lambda>q. if q = r then f q else q) (db_jobs (w_db (meanwhile w2)))"
    have jobs3: "jobs_ok (w_db (meanwhile w2))" using between(6) by (simp add: schema_ok_def)
    have due2: "due_by (queue_key j) w2" using due between(1,2) same_queue_jobs [OF between(5)] by (simp add: due_by_def)
    then have place: "lets_by (job_ID j) (queue_key j) w2 (meanwhile w2)" by (rule patient)
    then have due3: "due_by (queue_key j) (meanwhile w2)" by (rule due_stays [OF due2])
    then have due': "due_by (queue_key j) w'" using r(5,6) by (simp add: due_by_def)
    have evolved: "jobs_evolve (w_db w1) (w_db (meanwhile w2))"
      using step_evolves [OF store.R_trans [OF between(4) elsewhere] between(3)] by simp
    have unsettled: "j0 \<in> set (db_jobs (w_db w))" "jr_State j0 \<notin> {''completed'', ''failed''}" "queue_key j0 \<le> queue_key j"
      using next_job_Some [OF j0] next_job_least [OF j0] j(1) leasable by (auto simp: leasable_def)
    show ?thesis
    proof (cases "j0 = j")
      case True
      have "leased_row i until (db_now (w_db w)) j \<in> set (db_jobs (w_db w1))" using leased j(1) True by auto
      then have "taken j (w_db w1)" unfolding taken_def by (rule bexI [rotated]) (simp add: leased_row_def)
      then have "taken j (w_db (meanwhile w2))" using evolved by (rule taken_stays)
      then obtain k where k: "k \<in> set (db_jobs (w_db (meanwhile w2)))" "job_ID k = job_ID j" "job_Type k = job_Type j"
        "job_Payload k = job_Payload j" "job_Attempts j < job_Attempts k" by (auto simp: taken_def)
      have "job_ID (f r) = job_ID r \<and> job_Attempts (f r) = job_Attempts r \<and> job_Type (f r) = job_Type r \<and> job_Payload (f r) = job_Payload r"
        using r(4) by (auto simp: settles_def completed_row_def failed_row_def)
      then have "taken j (w_db w')" using k r(7) unfolding taken_def by (intro bexI [of _ "if k = r then f k else k"]) auto
      then show ?thesis ..
    next
      case False
      then have other: "job_ID j0 \<noteq> job_ID j" using job_id_row [OF jobs j(1) unsettled(1)] by blast
      then have "job_ID j0 \<in> ahead (job_ID j) (queue_key j) (w_db w)" using unsettled by (auto simp: ahead_def)
      moreover then have "job_ID r = job_ID j0" using ids r(2) by auto
      moreover have "ahead (job_ID j) (queue_key j) (w_db w2) = ahead (job_ID j) (queue_key j) (w_db w1)"
        using same_queue_jobs [OF between(5)] by (simp add: ahead_def)
      moreover have "ahead (job_ID j) (queue_key j) (w_db w') \<subseteq> ahead (job_ID j) (queue_key j) (w_db (meanwhile w2)) - {job_ID r}"
        by (rule ahead_settled [OF jobs3 r(1,7,4)]) (use due3 in \<open>simp add: due_by_def\<close>)
      ultimately have fewer: "ahead (job_ID j) (queue_key j) (w_db w') \<subset> ahead (job_ID j) (queue_key j) (w_db w)"
        using ahead_leased [OF leased unsettled(2), of "job_ID j" "queue_key j"] place by (auto simp: lets_by_def)
      have "j \<in> set (db_jobs (w_db w1))" using leased j(1) False by auto
      then obtain k where k: "k \<in> set (db_jobs (w_db (meanwhile w2)))" "job_moves j k"
        using jobs_evolve_row [OF evolved] by blast
      have "k \<noteq> r" using job_moves_keep [OF k(2)] other \<open>job_ID r = job_ID j0\<close> by auto
      then have "k \<in> set (db_jobs (w_db w'))" using k(1) r(7) by auto
      then show ?thesis
        using waiting_job_moves [OF k(2) j(2)] job_moves_keep [OF k(2)] fewer due' by (auto simp: taken_def)
    qed
  qed
  ultimately show ?thesis ..
qed

section \<open>Every waiting job is taken\<close>

lemma loop_takes:
  fixes w :: "'x site_scheme"
  assumes "\<forall>s \<in> set steps. \<forall>v. store_step (w_db v) (w_db (snd s v))"
    and "\<forall>s \<in> set steps. \<forall>v. due_by (queue_key j) v \<longrightarrow> lets_by (job_ID j) (queue_key j) v (snd s v)"
    and "schema_ok (w_db w)" and "j \<in> set (db_jobs (w_db w))" and waits: "jr_State j \<in> {''queued'', ''retryable''}"
    and "due_by (queue_key j) w" and "\<forall>n \<in> ahead (job_ID j) (queue_key j) (w_db w). uuid_in n = Inr n"
    and "run_loop tables (worker_options client rt i p l) steps w = (logged, stopped, w')"
    and "\<forall>entry \<in> set logged. snd entry = None" and "card (ahead (job_ID j) (queue_key j) (w_db w)) < length steps"
  shows "taken j (w_db w')"
  using assms(1-4,6-10)
proof (induction steps arbitrary: w logged)
  case (Cons s steps)
  let ?opts = "worker_options client rt i p l" and ?ahead = "ahead (job_ID j) (queue_key j)"
  obtain stop meanwhile where s: "s = (stop, meanwhile)" by fastforce
  have elsewhere: "store_step (w_db v) (w_db (meanwhile v))" for v using Cons.prems(1) s by simp
  have patient: "due_by (queue_key j) v \<Longrightarrow> lets_by (job_ID j) (queue_key j) v (meanwhile v)" for v using Cons.prems(2) s by simp
  obtain b e w1 where one: "runOne tables ?opts meanwhile w = ((b, e), w1)" by (metis prod.collapse)
  have "(b, e) \<in> set logged" using Cons.prems(7) one s by (cases b) (auto split: prod.splits if_splits)
  then have e: "e = None" using Cons.prems(8) by auto
  from iteration_advances [OF one [unfolded e] Cons.prems(3) elsewhere patient Cons.prems(4) waits Cons.prems(5,6)]
  have b: "b = True" and on: "taken j (w_db w1) \<or> j \<in> set (db_jobs (w_db w1)) \<and> due_by (queue_key j) w1 \<and> ?ahead (w_db w1) \<subset> ?ahead (w_db w)"
    by simp_all
  obtain logged1 where l: "run_loop tables ?opts steps w1 = (logged1, stopped, w')" "logged = (True, e) # logged1"
    using Cons.prems(7) one s b by (auto split: prod.splits)
  have ok1: "schema_ok (w_db w1)" using iteration_pays [OF one Cons.prems(3) elsewhere] by simp
  have rest: "\<forall>s \<in> set steps. \<forall>v. store_step (w_db v) (w_db (snd s v))"
    "\<forall>s \<in> set steps. \<forall>v. due_by (queue_key j) v \<longrightarrow> lets_by (job_ID j) (queue_key j) v (snd s v)"
    using Cons.prems(1,2) by simp_all
  show ?case
  proof (cases "taken j (w_db w1)")
    case True
    have "on_db store_step w1 (snd (snd (run_loop tables ?opts steps w1)))"
      by (rule worker_store.run_loop_step) (use rest(1) in \<open>simp add: on_db_def\<close>)
    then have "store_step (w_db w1) (w_db w')" using l(1) by (simp add: on_db_def)
    then show ?thesis using taken_stays [OF True] step_evolves ok1 by blast
  next
    case False
    then have still: "j \<in> set (db_jobs (w_db w1))" "due_by (queue_key j) w1" "?ahead (w_db w1) \<subset> ?ahead (w_db w)" using on by blast+
    have "card (?ahead (w_db w1)) < length steps"
      using psubset_card_mono [OF finite_ahead still(3)] Cons.prems(9) by simp
    with Cons.IH [OF rest ok1 still(1,2) _ l(1)] still(3) Cons.prems(6,8) show ?thesis unfolding l(2) by auto
  qed
qed simp

text \<open>
  C29 No job starves while failures are recorded. A job that is queued or due for a retry (by the server's
  clock, and by the worker's not more than a second ahead of it) has been leased after as many iterations as there are
  unsettled jobs at or before its place, and one more, as long as no iteration logs an error, however long the
  iterations take, whether the jobs succeed, and whatever goes on elsewhere, provided it keeps to the
  store's operations and pushes nothing in front. The job's row is then there with more attempts.
\<close>

theorem waiting_job_taken:
  fixes w :: "'x site_scheme"
  assumes "\<forall>s \<in> set steps. \<forall>v. store_step (w_db v) (w_db (snd s v))"
    and "\<forall>s \<in> set steps. \<forall>v. due_by (queue_key j) v \<longrightarrow> lets_by (job_ID j) (queue_key j) v (snd s v)"
    and "schema_ok (w_db w)" and "j \<in> set (db_jobs (w_db w))" and "jr_State j \<in> {''queued'', ''retryable''}"
    and "jr_AvailableAt j \<le> db_now (w_db w)" and "jr_AvailableAt j < ts_in (w_clock w + nanos_per_second)"
    and "\<forall>k \<in> set (db_jobs (w_db w)). uuid_in (job_ID k) = Inr (job_ID k)"
    and "run_loop tables (worker_options client rt i p l) steps w = (logged, stopped, w')"
    and "\<forall>entry \<in> set logged. snd entry = None" and "card (ahead (job_ID j) (queue_key j) (w_db w)) < length steps"
  shows "\<exists>k \<in> set (db_jobs (w_db w')). job_ID k = job_ID j \<and> job_Type k = job_Type j \<and> job_Payload k = job_Payload j
    \<and> job_Attempts j < job_Attempts k"
proof -
  have "due_by (queue_key j) w" using assms(6,7) by (simp add: due_by_def)
  moreover have "\<forall>n \<in> ahead (job_ID j) (queue_key j) (w_db w). uuid_in n = Inr n" using assms(8) by (auto simp: ahead_def)
  ultimately show ?thesis using loop_takes [OF assms(1-5) _ _ assms(9-11)] by (simp add: taken_def)
qed

section \<open>A failure that cannot be recorded\<close>

lemma cut_rune_healthy:
  assumes "w_faults w = []" and "2000 < length cause" and "\<not> utf8_valid (take 2000 cause)"
  shows "\<exists>e. FailJob g cause w = (Inl e, w)"
  using assms by (simp add: FailJob_def Let_def go_now_def maxStoredErrorLength_def pg_exec_def next_fault_def act_simps text_in_def)

text \<open>The same job, as far as its processing goes.\<close>

definition same_work :: "'a job_scheme \<Rightarrow> 'b job_scheme \<Rightarrow> bool" where
  "same_work g j \<longleftrightarrow> job_ID g = job_ID j \<and> job_Type g = job_Type j \<and> job_Payload g = job_Payload j"

text \<open>A job that is due at the head of the queue, on a healthy connection.\<close>

definition stuck :: "job_row \<Rightarrow> 'x world_scheme \<Rightarrow> bool" where
  "stuck j w \<longleftrightarrow>
     jobs_ok (w_db w) \<and> w_faults w = [] \<and> j \<in> set (db_jobs (w_db w)) \<and> leasable (db_now (w_db w)) j
     \<and> (\<forall>k \<in> set (db_jobs (w_db w)). k \<noteq> j \<longrightarrow> queue_key j < queue_key k)"

lemma stuck_iteration:
  assumes "stuck j w" and worker: "text_in (op_WorkerID opts) = Inr (op_WorkerID opts)"
    and small: "job_Attempts j + 1 < 2147483648"
    and fails: "\<forall>g v. same_work g j \<longrightarrow> process tables opts g v = ((document_id, Some cause), v)"
    and unstorable: "2000 < length (error_text (rt_quote tables) cause)" "\<not> utf8_valid (take 2000 (error_text (rt_quote tables) cause))"
    and runs_out: "\<forall>v. \<exists>now \<ge> ts_in (w_clock v + op_LeaseDuration opts). meanwhile v = v\<lparr>w_db := (w_db v)\<lparr>db_now := now\<rparr>\<rparr>"
  shows "\<exists>e w' j'. runOne tables opts meanwhile w = ((True, Some e), w') \<and> stuck j' w' \<and> same_work j' j
    \<and> job_Attempts j' = job_Attempts j + 1
    \<and> filter (\<lambda>k. job_ID k \<noteq> job_ID j) (db_jobs (w_db w')) = filter (\<lambda>k. job_ID k \<noteq> job_ID j) (db_jobs (w_db w))"
proof -
  let ?u = "ts_in (w_clock w + op_LeaseDuration opts)"
  let ?l = "leased_row (op_WorkerID opts) ?u (db_now (w_db w))"
  have jobs: "jobs_ok (w_db w)" and j: "j \<in> set (db_jobs (w_db w))" "leasable (db_now (w_db w)) j" "w_faults w = []"
    and oldest: "\<forall>k \<in> set (db_jobs (w_db w)). k \<noteq> j \<longrightarrow> queue_key j < queue_key k"
    using assms(1) by (simp_all add: stuck_def)
  have "0 \<le> job_Attempts j" using jobs j(1) by (simp add: jobs_ok_def job_row_ok_def)
  then have "int4_in (job_Attempts j + 1) = Inr (job_Attempts j + 1)" using small by (simp add: int4_in_def)
  note lease = lease_healthy [OF j(3) worker oldest_is_next [OF j(1,2) oldest] this, of "op_LeaseDuration opts"]
  define w1 where "w1 = w\<lparr>w_db := (w_db w)\<lparr>db_jobs := update_where (\<lambda>r. job_ID r = job_ID j) ?l (db_jobs (w_db w))\<rparr>\<rparr>"
  define g where "g = job.truncate (?l j)"
  have g: "same_work g j" by (simp add: g_def job.truncate_def same_work_def leased_row_def)
  obtain now where now: "?u \<le> now" "meanwhile w1 = w1\<lparr>w_db := (w_db w1)\<lparr>db_now := now\<rparr>\<rparr>"
    using runs_out [rule_format, of w1] by (auto simp: w1_def)
  have "w_faults (meanwhile w1) = []" by (simp add: now(2)) (simp add: w1_def j(3))
  from cut_rune_healthy [OF this unstorable] obtain e where f: "FailJob g (error_text (rt_quote tables) cause) (meanwhile w1) = (Inl e, meanwhile w1)"
    by blast
  have "process tables opts g w1 = ((document_id, Some cause), w1)" using fails g by blast
  then have "\<exists>e. runOne tables opts meanwhile w = ((True, Some e), meanwhile w1)"
    using lease [folded w1_def g_def] f by (simp add: runOne_def record_failure_def)
  moreover have "stuck (?l j) (meanwhile w1)"
  proof -
    have rows: "db_jobs (w_db (meanwhile w1)) = update_where (\<lambda>r. job_ID r = job_ID j) ?l (db_jobs (w_db w))"
      by (simp add: now(2)) (simp add: w1_def)
    have "map job_ID (update_where (\<lambda>r. job_ID r = job_ID j) ?l (db_jobs (w_db w))) = map job_ID (db_jobs (w_db w))"
      by (simp add: update_where_def)
    moreover have "job_row_ok (?l k)" if "job_row_ok k" for k using that by (simp add: job_row_ok_def leased_row_def)
    ultimately have "jobs_ok (w_db (meanwhile w1))" using jobs by (auto simp: jobs_ok_def rows set_update_where)
    moreover have "queue_key (?l j) = queue_key j" by (simp add: leased_row_def)
    moreover have "leasable (db_now (w_db (meanwhile w1))) (?l j)" using now(1) by (simp add: now(2) leasable_def leased_row_def)
    ultimately show ?thesis
      using j oldest job_id_row [OF jobs j(1)] \<open>w_faults (meanwhile w1) = []\<close>
      by (auto simp: stuck_def rows set_update_where)
  qed
  moreover have "filter (\<lambda>k. job_ID k \<noteq> job_ID j) (db_jobs (w_db (meanwhile w1))) = filter (\<lambda>k. job_ID k \<noteq> job_ID j) (db_jobs (w_db w))"
  proof -
    have "filter (\<lambda>k. job_ID k \<noteq> job_ID j) (update_where (\<lambda>r. job_ID r = job_ID j) ?l xs) = filter (\<lambda>k. job_ID k \<noteq> job_ID j) xs" for xs
      by (induction xs) (simp_all add: update_where_def)
    then show ?thesis by (simp add: now(2)) (simp add: w1_def)
  qed
  moreover have "same_work (?l j) j" by (simp add: same_work_def leased_row_def)
  ultimately show ?thesis by (metis leased_row_simps(3))
qed

lemma stuck_loop:
  assumes "stuck j w" and "text_in (op_WorkerID opts) = Inr (op_WorkerID opts)"
    and "job_Attempts j + int (length steps) < 2147483648"
    and "\<forall>g v. same_work g j \<longrightarrow> process tables opts g v = ((document_id, Some cause), v)"
    and "2000 < length (error_text (rt_quote tables) cause)" "\<not> utf8_valid (take 2000 (error_text (rt_quote tables) cause))"
    and "\<forall>s \<in> set steps. \<forall>v. \<exists>now \<ge> ts_in (w_clock v + op_LeaseDuration opts). snd s v = v\<lparr>w_db := (w_db v)\<lparr>db_now := now\<rparr>\<rparr>"
    and "run_loop tables opts steps w = (logged, stopped, w')"
  shows "length logged = length steps \<and> (\<forall>entry \<in> set logged. fst entry \<and> snd entry \<noteq> None)
    \<and> (\<exists>k \<in> set (db_jobs (w_db w')). job_ID k = job_ID j \<and> job_Attempts k = job_Attempts j + int (length steps))
    \<and> filter (\<lambda>k. job_ID k \<noteq> job_ID j) (db_jobs (w_db w')) = filter (\<lambda>k. job_ID k \<noteq> job_ID j) (db_jobs (w_db w))"
  using assms(1,3,4,7,8)
proof (induction steps arbitrary: j w logged)
  case Nil
  then show ?case by (auto simp: stuck_def)
next
  case (Cons s steps)
  obtain stop meanwhile where s: "s = (stop, meanwhile)" by fastforce
  have "job_Attempts j + 1 < 2147483648" using Cons.prems(2) by simp
  moreover have "\<forall>v. \<exists>now \<ge> ts_in (w_clock v + op_LeaseDuration opts). meanwhile v = v\<lparr>w_db := (w_db v)\<lparr>db_now := now\<rparr>\<rparr>"
    using Cons.prems(4) s by simp
  ultimately obtain e w1 j1 where one: "runOne tables opts meanwhile w = ((True, Some e), w1)" and j1: "stuck j1 w1"
      "same_work j1 j" "job_Attempts j1 = job_Attempts j + 1"
      "filter (\<lambda>k. job_ID k \<noteq> job_ID j) (db_jobs (w_db w1)) = filter (\<lambda>k. job_ID k \<noteq> job_ID j) (db_jobs (w_db w))"
    using stuck_iteration [OF Cons.prems(1) assms(2) _ Cons.prems(3) assms(5,6)] by blast
  obtain logged1 where l: "run_loop tables opts steps w1 = (logged1, stopped, w')" "logged = (True, Some e) # logged1"
    using Cons.prems(5) one s by (auto split: prod.splits)
  have "job_Attempts j1 + int (length steps) < 2147483648" using Cons.prems(2) j1(3) by simp
  moreover have "\<forall>g v. same_work g j1 \<longrightarrow> process tables opts g v = ((document_id, Some cause), v)"
    using Cons.prems(3) j1(2) by (simp add: same_work_def)
  moreover have "job_ID j1 = job_ID j" using j1(2) by (simp add: same_work_def)
  ultimately show ?case using Cons.IH [OF j1(1) _ _ _ l(1)] Cons.prems(4) j1(3,4) l(2) by (simp add: add.assoc)
qed


section \<open>Two jobs that wait\<close>

definition first_row :: job_row where
  "first_row = queued_row doc_id ''extract_document'' (Raw (JObject [])) 7000"

definition second_row :: job_row where
  "second_row = queued_row sample_id ''extract_document'' (Raw (JObject [])) 8000"

definition waiting_db :: db where
  "waiting_db = ranked_db\<lparr>db_jobs := [second_row, first_row]\<rparr>"

lemma waiting_ok: "schema_ok waiting_db"
proof -
  have "sample_id \<noteq> doc_id" by (simp add: sample_id_def doc_id_def)
  then show ?thesis using ranked_ok
    by (simp add: schema_ok_def waiting_db_def keys_ok_def refs_ok_def checks_ok_def versions_ok_def uuids_ok_def jobs_ok_def
        first_row_def second_row_def queued_row_def job_row_ok_def job_types_def)
qed

lemma waiting_ahead: "ahead sample_id (queue_key second_row) waiting_db = {doc_id}"
proof -
  have "sample_id \<noteq> doc_id" by (simp add: sample_id_def doc_id_def)
  then have "{k \<in> set (db_jobs waiting_db). jr_State k \<notin> {''completed'', ''failed''}
      \<and> queue_key k \<le> queue_key second_row \<and> job_ID k \<noteq> sample_id} = {first_row}"
    by (auto simp: waiting_db_def first_row_def second_row_def queued_row_def)
  then show ?thesis by (simp add: ahead_def) (simp add: first_row_def queued_row_def)
qed

lemma second_later_patient: "lets_by i key v (second_later v)"
  by (simp add: lets_by_def second_later_def ahead_def)

lemma two_quiet:
  "list_all (\<lambda>entry. snd entry = None) (fst (run_loop plain_tables (worker_options sample_client ''/srv'' ''w'' 1 1000000)
     (replicate 2 (False, second_later)) (sample_site waiting_db)))"
  by code_simp

theorem waiting_job_taken_witness:
  "\<exists>logged stopped w'. run_loop plain_tables (worker_options sample_client ''/srv'' ''w'' 1 1000000)
       (replicate 2 (False, second_later)) (sample_site waiting_db) = (logged, stopped, w')
     \<and> (\<exists>k \<in> set (db_jobs (w_db w')). job_ID k = sample_id \<and> 0 < job_Attempts k)"
proof -
  obtain logged stopped w' where run: "run_loop plain_tables (worker_options sample_client ''/srv'' ''w'' 1 1000000)
      (replicate 2 (False, second_later)) (sample_site waiting_db) = (logged, stopped, w')" by (metis prod.collapse)
  have quiet: "\<forall>entry \<in> set logged. snd entry = None" using two_quiet unfolding run by (simp add: list_all_iff)
  have site: "w_db (sample_site waiting_db) = waiting_db" "w_clock (sample_site waiting_db) = 9500" "db_now waiting_db = 9000"
    by (simp_all add: sample_site_def waiting_db_def ranked_db_def sample_db_def)
  have rows: "db_jobs waiting_db = [second_row, first_row]" by (simp add: waiting_db_def)
  have row: "job_ID second_row = sample_id" "jr_State second_row = ''queued''" "jr_AvailableAt second_row = 8000"
    "job_Attempts second_row = 0" "job_ID first_row = doc_id" "jr_CreatedAt second_row = 8000"
    by (simp_all add: first_row_def second_row_def queued_row_def)
  have before: "ahead sample_id (8000, 8000) waiting_db = {doc_id}" using waiting_ahead row by simp
  have "\<exists>k \<in> set (db_jobs (w_db w')). job_ID k = job_ID second_row \<and> job_Type k = job_Type second_row
      \<and> job_Payload k = job_Payload second_row \<and> job_Attempts second_row < job_Attempts k"
    by (rule waiting_job_taken [OF _ _ _ _ _ _ _ _ run quiet])
      (simp_all add: site rows row waiting_ok before second_later_step second_later_patient uuid_in_samples
        uuid_in_sample_id ts_in_def nanos_per_second_def)
  with run show ?thesis unfolding row by blast
qed

section \<open>A failure too long to store\<close>

text \<open>A worker whose fetcher of market data always fails with 1,999 letters and a two-byte rune.\<close>

definition long_error :: err where
  "long_error = External (replicate 1999 (CHR ''x'') @ map char_of [195, 169 :: nat])"

definition failing_options :: "world options" where
  "failing_options =
     \<lparr>op_Store = True, op_Extractor = None, op_MarketData = Some (\<lambda>request. fail long_error), op_Backtest = None,
      op_Artifacts = None, op_WorkerID = ''w'', op_PollInterval = 1, op_LeaseDuration = 1000000\<rparr>"

definition lease_over :: "world \<Rightarrow> world" where
  "lease_over v = v\<lparr>w_db := (w_db v)\<lparr>db_now := ts_in (w_clock v + 1000000)\<rparr>\<rparr>"

definition failing_row :: job_row where
  "failing_row = queued_row sample_id ''fetch_market_data'' (Raw (JObject [])) 7000"

definition patient_row :: job_row where
  "patient_row = queued_row doc_id ''extract_document'' (document_payload doc_id) 8000"

lemma always_fails: "same_work g failing_row \<Longrightarrow> process tables failing_options g v = (([], Some long_error), v)"
  by (simp add: same_work_def failing_row_def queued_row_def process_def processMarketData_def failing_options_def
      unmarshal_def dec_struct_def act_simps error_of_def fail_def)


end
