(* ===== verification/Spec2Isabelle.thy ===== *)
theory Spec2Isabelle
  imports Config HttpAnswers LostCompletion ServedSystem StrategyContract WorkerLiveness
begin

text \<open>
  SignalLedger, verified. The program (Go, under \<open>src/\<close>) turns uploaded research PDFs into page-cited claims,
  reviewed claims into versioned strategies, and strategies into backtests whose ranked candidates carry the
  claims behind them. An API process (\<open>cmd/api\<close>) answers HTTP requests, worker processes (\<open>cmd/worker\<close>) take
  jobs from a queue in PostgreSQL, and both share a volume of files; extraction, prices and the backtest
  engine live in a separate quant service reached over HTTP.

  \<^bold>\<open>The world.\<close> \<open>Database\<close> holds the tables of \<open>migrations/*.sql\<close> as lists of rows (\<open>db\<close>), and a \<open>world\<close>: the tables,
  the clock and a script of faults the connection will meet (\<open>Refused\<close>: a statement or commit that did not
  happen, \<open>LostAck\<close>: one that did, but is reported as failed). \<open>Site\<close> extends it by the files of the volume,
  faults of system calls, the randomness drawn, the replies the quant service will give and the requests it
  was sent. An operation is a function from a world to a result and a world (\<open>act\<close>, in \<open>Prelude\<close>); every
  \<open>return err\<close> of the Go code is a value \<open>Inl e\<close>, so all error paths are branches of the model. A transaction
  runs its statements and puts the tables back when one of them, or the commit, fails.

  \<^bold>\<open>Parts and theories.\<close>
  \<^item> Language and libraries: \<open>Prelude\<close> (errors, \<open>fmt.Errorf\<close>, \<open>errors.Is\<close>, the effect discipline \<open>keeps\<close>),
    \<open>ErrorText\<close>, \<open>GoStrings\<close>, \<open>GoSort\<close>, \<open>Dates\<close>, \<open>Paths\<close>, \<open>Sha256\<close>, \<open>JsonCodec\<close>, \<open>Float64\<close> and \<open>Float64Rounding\<close>
    (binary64 over the rationals), \<open>Sql\<close> and \<open>Uuids\<close> (PostgreSQL's conversions).
  \<^item> \<open>internal/domain\<close>: \<open>Domain\<close>. \<open>internal/strategies\<close>: \<open>StrategySpec\<close> and \<open>SpecJson\<close> (\<open>spec.go\<close>), \<open>ClaimSignals\<close>
    (\<open>signals.go\<close>), \<open>DraftBuilder\<close> (\<open>builder.go\<close>), \<open>StrategyService\<close> (\<open>service.go\<close>). \<open>StrategyContract\<close> holds the
    schema of record, \<open>contracts/strategy-spec.schema.json\<close>, as a predicate on JSON documents.
  \<^item> \<open>internal/store\<close>: \<open>JobQueue\<close>, \<open>DocumentStore\<close>, \<open>ClaimStore\<close>, \<open>StrategyStore\<close>, \<open>MarketDataStore\<close>, \<open>BacktestStore\<close>,
    \<open>CandidateStore\<close>; \<open>Schema\<close> states what the tables satisfy and what is never undone, \<open>StoreRuns\<close> runs the
    whole store, \<open>StoreSamples\<close> evaluates it at concrete tables.
  \<^item> Files and the services over them: \<open>FileStores\<close> (three \<open>storage.go\<close>), \<open>FileSafety\<close>, \<open>FileSpec\<close>, \<open>DocumentService\<close>,
    \<open>CanonicalCsv\<close> and \<open>MarketDataService\<close>.
  \<^item> \<open>internal/quant\<close>: \<open>QuantWire\<close>, \<open>QuantClient\<close>. \<open>internal/jobs/worker.go\<close>: \<open>Worker\<close>, with \<open>WorkerLogic\<close>,
    \<open>WorkerSafety\<close>, \<open>WorkerProgress\<close>, \<open>WorkerLiveness\<close>, \<open>LostCompletion\<close>, \<open>EngineRequests\<close> and \<open>RankingSafety\<close> on what it does.
  \<^item> \<open>internal/httpapi\<close>: \<open>HttpTypes\<close> (requests, responses), \<open>HttpApi\<close> (handlers, routing, the wiring of \<open>cmd/api\<close>),
    \<open>HttpSafety\<close>, \<open>HttpResponses\<close>, \<open>HttpAnswers\<close>. \<open>internal/config\<close>: \<open>Config\<close>. \<open>ServedSystem\<close> puts the processes together.

  \<^bold>\<open>Interfaces.\<close> Proofs that hold for several operations, or for a client of several providers, are made once in
  a locale and interpreted on the model: \<open>state_preorder\<close> and \<open>db_preorder\<close> (relations an operation stays
  within), \<open>world_frame\<close>, \<open>table_view\<close>, \<open>service_frame\<close> and \<open>api_frame\<close> (what operations, services and handlers leave
  alone), \<open>key_space\<close> (stores of files under generated keys), \<open>worker_jobs\<close>, \<open>worker_frame\<close>, \<open>worker_loop_frame\<close> and
  \<open>backtest_logic\<close> (the worker over its collaborators).

  \<^bold>\<open>What is shown.\<close> The tables stay sound and provenance is append-only along every run of the store (C1, C2);
  uploads and files (C3 to C5); each multi-statement operation is all or nothing and has exactly its effect
  (C6 to C11, C13, C14); the queue refines a four-phase machine, leases are exclusive while they last, and
  what follows when they are not (C12, C15 to C20); the program as a whole, requests and workers in any
  order, keeps rankings within the authorized universe and asks the engine only about committed research
  from before the cutoff (C21); the API's answers (C22, C24 to C27); the retries of a worker end, and no job
  starves, as long as failures can be recorded (C28, C29), while one that cannot be recorded starves the whole
  queue (C23), and a lost acknowledgement makes a worker undo a success (C30); market data and its canonical
  bytes (C31, C32); signals (C33 to C36), drafts (C37 to C39), and how far validation agrees with the schema of
  record (C40).

  \<^bold>\<open>Bounds and fuel.\<close> Loops of the code are structural recursion or terminate by a proof (\<open>io.Copy\<close>, duration
  parsing). \<open>run_loop\<close>, the endless loop of a worker, runs over a list with an entry for each iteration; its
  theorems are about lists of any length, so about every stretch of a worker's life. \<open>os.CreateTemp\<close> tries 10000
  names as the library does. A price is spelled within 1100 decimal places, more than any finite \<open>float64\<close> needs.
  Integers are \<open>int\<close>; where Go's \<open>int64\<close> or PostgreSQL's \<open>integer\<close> matters, the range or the wrap-around is written
  out (\<open>int64\<close>, \<open>int4_in\<close>, \<open>int64_range\<close>, \<open>upload_limit\<close>).

  \<^bold>\<open>Parameters.\<close> The tables of Unicode (\<open>rune_tables\<close>: the lower case of a rune, \<open>%q\<close>) and the database's collation are
  parameters; so are the replies of the quant service, every fault, the randomness and the clock.

  \<^bold>\<open>Not modelled.\<close> Operations of the store run one after the other: a transaction is not interleaved with
  another, which the row locks, the advisory lock per slug and \<open>FOR UPDATE SKIP LOCKED\<close> are there to justify.
  What happens elsewhere during an iteration of a worker (time, other processes, faults of the connection; the
  argument \<open>meanwhile\<close>) is taken to happen between the processing of the job and the recording of its outcome, or
  while the worker waits: within \<open>process\<close> and within a request the clocks stand still and nobody else writes.
  Directories and symbolic links are not kept (calls on them fail by the script of faults). The encoding of
  responses to bytes, the HTML and text bodies of the mux's own redirects and 404, the parsing of multipart
  bodies into forms, headers other than those the handlers set, logging, signals, shutdown, the pool of connections, the quant service (Python) and the web pages are left out.
\<close>

end
